theory Spec2Isabelle
  imports Complex_Main
begin

section \<open>Data model (types.ts)\<close>

text \<open>
  JavaScript numbers are modelled as the reals: rounding and overflow of IEEE doubles are
  not represented. The one place where the source itself produces the non-finite values
  (the literal \<open>Infinity\<close> and a division by an array length in \<open>evaluateFitness\<close>,
  the division by the sample count in \<open>generateCurvePoints\<close>) uses the type
  \<open>number\<close> below. Optional fields of \<open>MechanismConfig\<close> are options. The
  coordinates \<open>x\<close> and \<open>y\<close> of a point are \<open>px\<close> and \<open>py\<close>, and the field
  \<open>id\<close> is \<open>ident\<close>.
\<close>

datatype MechanismType = Crank | FourBar | Piston | Yoke | QuickReturn | FiveBar

datatype Point = Point (px: real) (py: real)

record MechanismConfig =
  ident :: string
  type :: MechanismType
  visible :: bool
  color :: string
  anchorX :: "real option"
  anchorY :: "real option"
  groundAngle :: "real option"
  crankLength :: real
  groundLength :: real
  couplerLength :: real
  rockerLength :: real
  sliderOffset :: real
  couplerPointDist :: real
  couplerPointAngle :: real
  speed1 :: "real option"
  speed2 :: "real option"
  gearRatio :: "real option"
  rodLength :: "real option"
  phase :: "real option"
  showOutputGear :: "bool option"
  outputGearRadius :: "real option"

record JointState =
  p1 :: Point
  p2 :: Point
  j1 :: Point
  j2 :: Point
  aux :: "Point option"
  effector :: Point
  isValid :: bool


subsection \<open>JavaScript operators on optional and non-finite values\<close>

text \<open>\<open>a ?? d\<close>: the default \<open>d\<close> replaces a missing field only.\<close>

definition nullish :: "'a option \<Rightarrow> 'a \<Rightarrow> 'a" where
  "nullish a d = (case a of None \<Rightarrow> d | Some v \<Rightarrow> v)"

text \<open>\<open>a || d\<close> on an optional number: the default replaces a missing field and also 0.\<close>

definition orElse :: "real option \<Rightarrow> real \<Rightarrow> real" where
  "orElse a d = (case a of None \<Rightarrow> d | Some v \<Rightarrow> if v = 0 then d else v)"

text \<open>\<open>if (a)\<close> on an optional number: true when the field is present and not 0.\<close>

definition truthy :: "real option \<Rightarrow> bool" where
  "truthy a = (case a of None \<Rightarrow> False | Some v \<Rightarrow> v \<noteq> 0)"

text \<open>
  A number that may be infinite or NaN, with the IEEE rules of the operations the source
  applies to such values.
\<close>

datatype number = Fin real | PosInf | NegInf | NaN

fun num_add :: "number \<Rightarrow> number \<Rightarrow> number" where
  "num_add (Fin a) (Fin b) = Fin (a + b)"
| "num_add NaN _ = NaN"
| "num_add _ NaN = NaN"
| "num_add PosInf NegInf = NaN"
| "num_add NegInf PosInf = NaN"
| "num_add PosInf _ = PosInf"
| "num_add _ PosInf = PosInf"
| "num_add NegInf _ = NegInf"
| "num_add _ NegInf = NegInf"

fun num_neg :: "number \<Rightarrow> number" where
  "num_neg (Fin a) = Fin (- a)"
| "num_neg PosInf = NegInf"
| "num_neg NegInf = PosInf"
| "num_neg NaN = NaN"

definition num_sub :: "number \<Rightarrow> number \<Rightarrow> number" where
  "num_sub a b = num_add a (num_neg b)"

text \<open>Multiplication by a finite factor (the only one the source needs).\<close>

fun num_scale :: "number \<Rightarrow> real \<Rightarrow> number" where
  "num_scale (Fin a) k = Fin (a * k)"
| "num_scale NaN k = NaN"
| "num_scale PosInf k = (if k = 0 then NaN else if 0 < k then PosInf else NegInf)"
| "num_scale NegInf k = (if k = 0 then NaN else if 0 < k then NegInf else PosInf)"

text \<open>Division by an array length or a sample count, a natural number that may be 0.\<close>

fun num_div_nat :: "number \<Rightarrow> nat \<Rightarrow> number" where
  "num_div_nat (Fin a) n =
     (if n = 0 then (if a = 0 then NaN else if 0 < a then PosInf else NegInf)
      else Fin (a / real n))"
| "num_div_nat PosInf n = PosInf"
| "num_div_nat NegInf n = NegInf"
| "num_div_nat NaN n = NaN"

fun num_less :: "number \<Rightarrow> number \<Rightarrow> bool" where
  "num_less (Fin a) (Fin b) = (a < b)"
| "num_less (Fin a) PosInf = True"
| "num_less NegInf (Fin b) = True"
| "num_less NegInf PosInf = True"
| "num_less _ _ = False"

fun num_le :: "number \<Rightarrow> number \<Rightarrow> bool" where
  "num_le (Fin a) (Fin b) = (a \<le> b)"
| "num_le NaN _ = False"
| "num_le _ NaN = False"
| "num_le _ PosInf = True"
| "num_le NegInf _ = True"
| "num_le _ _ = False"

section \<open>Kinematics (utils/kinematics.ts)\<close>

definition toRad :: "real \<Rightarrow> real" where
  "toRad deg = (deg * pi) / 180"

text \<open>
  \<open>Math.atan2(y, x)\<close> on reals. The reals have one zero, so the cases that
  JavaScript decides by the sign of a zero take the value for \<open>+0\<close>.
\<close>

definition atan2 :: "real \<Rightarrow> real \<Rightarrow> real" where
  "atan2 y x =
     (if 0 < x then arctan (y / x)
      else if x < 0 then (if 0 \<le> y then arctan (y / x) + pi else arctan (y / x) - pi)
      else if 0 < y then pi / 2
      else if y < 0 then - (pi / 2)
      else 0)"

definition EPSILON :: real where
  "EPSILON = 1 / 10"

text \<open>
  \<open>getCircleIntersection(p0, r0, p1, r1, flip)\<close>; the centres are called \<open>c0\<close> and
  \<open>c1\<close> here, since \<open>p1\<close> is a field of \<open>JointState\<close>. \<open>null\<close> is \<open>None\<close>.
\<close>

definition getCircleIntersection :: "Point \<Rightarrow> real \<Rightarrow> Point \<Rightarrow> real \<Rightarrow> bool \<Rightarrow> Point option" where
  "getCircleIntersection c0 r0 c1 r1 flip =
     (let dx = px c1 - px c0;
          dy = py c1 - py c0;
          d = sqrt (dx * dx + dy * dy)
      in if d > r0 + r1 + EPSILON \<or> d < \<bar>r0 - r1\<bar> - EPSILON \<or> d = 0 then None
         else
           let a = (r0 * r0 - r1 * r1 + d * d) / (2 * d);
               h = sqrt (max 0 (r0 * r0 - a * a));
               x2 = px c0 + (dx * a) / d;
               y2 = py c0 + (dy * a) / d
           in if flip then Some (Point (x2 - (h * dy) / d) (y2 + (h * dx) / d))
              else Some (Point (x2 + (h * dy) / d) (y2 - (h * dx) / d)))"

text \<open>
  \<open>calculateLinkage(config, crankAngleRad)\<close>. The six branches follow the source's
  \<open>if / else if\<close> chain; its closing \<open>return\<close> with \<open>isValid: false\<close> is for a type
  tag outside the six and has no counterpart over \<open>MechanismType\<close>.
\<close>

definition calculateLinkage :: "MechanismConfig \<Rightarrow> real \<Rightarrow> JointState" where
  "calculateLinkage config crankAngleRad =
     (let P1 = Point (nullish (anchorX config) 0) (nullish (anchorY config) 0);
          s1 = nullish (speed1 config) 1;
          angle1 = crankAngleRad * s1;
          J1 = Point (px P1 + crankLength config * cos angle1)
                     (py P1 + crankLength config * sin angle1)
      in case type config of
        Crank \<Rightarrow>
          \<lparr>p1 = P1, p2 = P1, j1 = J1, j2 = J1, aux = None, effector = J1, isValid = True\<rparr>
      | FourBar \<Rightarrow>
          (let gAngle = toRad (nullish (groundAngle config) 0);
               P2 = Point (px P1 + groundLength config * cos gAngle)
                          (py P1 + groundLength config * sin gAngle)
           in case getCircleIntersection J1 (couplerLength config) P2 (rockerLength config) False of
                None \<Rightarrow>
                  \<lparr>p1 = P1, p2 = P2, j1 = J1, j2 = P1, aux = None, effector = P1, isValid = False\<rparr>
              | Some J2 \<Rightarrow>
                  (let couplerAngle = atan2 (py J2 - py J1) (px J2 - px J1);
                       effectorAngle = couplerAngle + toRad (couplerPointAngle config);
                       eff = Point (px J1 + couplerPointDist config * cos effectorAngle)
                                   (py J1 + couplerPointDist config * sin effectorAngle)
                   in \<lparr>p1 = P1, p2 = P2, j1 = J1, j2 = J2, aux = None, effector = eff,
                        isValid = True\<rparr>))
      | FiveBar \<Rightarrow>
          (let gAngle = toRad (nullish (groundAngle config) 0);
               P2 = Point (px P1 + groundLength config * cos gAngle)
                          (py P1 + groundLength config * sin gAngle);
               s2 = nullish (speed2 config) (nullish (gearRatio config) 1);
               ph = nullish (phase config) 0;
               angle2 = (crankAngleRad * s2) + ph;
               Aux = Point (px P2 + rockerLength config * cos angle2)
                           (py P2 + rockerLength config * sin angle2);
               r1 = couplerLength config;
               r2 = orElse (rodLength config) 100
           in case getCircleIntersection J1 r1 Aux r2 False of
                None \<Rightarrow>
                  \<lparr>p1 = P1, p2 = P2, j1 = J1, j2 = P1, aux = Some Aux, effector = P1,
                    isValid = False\<rparr>
              | Some J2 \<Rightarrow>
                  (let dx = px J2 - px J1;
                       dy = py J2 - py J1;
                       angle = atan2 dy dx;
                       extension = couplerPointDist config;
                       eff = Point (px J2 + extension * cos angle) (py J2 + extension * sin angle)
                   in \<lparr>p1 = P1, p2 = P2, j1 = J1, j2 = J2, aux = Some Aux, effector = eff,
                        isValid = True\<rparr>))
      | Piston \<Rightarrow>
          (let trackAngle = toRad (nullish (groundAngle config) 0);
               offset = (if sliderOffset config = 0 then 0 else sliderOffset config);
               dx = px J1 - px P1;
               dy = py J1 - py P1;
               localJ1x = dx * cos (- trackAngle) - dy * sin (- trackAngle);
               localJ1y = dx * sin (- trackAngle) + dy * cos (- trackAngle);
               localTrackY = offset;
               dy_link = localTrackY - localJ1y
           in if \<bar>dy_link\<bar> > couplerLength config then
                (let p2x = px P1 + localJ1x * cos trackAngle - localTrackY * sin trackAngle;
                     p2y = py P1 + localJ1x * sin trackAngle + localTrackY * cos trackAngle
                 in \<lparr>p1 = P1, p2 = Point p2x p2y, j1 = J1, j2 = P1, aux = None, effector = P1,
                      isValid = False\<rparr>)
              else
                (let dx_link = sqrt (couplerLength config * couplerLength config - dy_link * dy_link);
                     localJ2x = localJ1x + dx_link;
                     localJ2y = localTrackY;
                     J2 = Point (px P1 + localJ2x * cos trackAngle - localJ2y * sin trackAngle)
                                (py P1 + localJ2x * sin trackAngle + localJ2y * cos trackAngle);
                     couplerAngle = atan2 (py J2 - py J1) (px J2 - px J1);
                     effectorAngle = couplerAngle + toRad (couplerPointAngle config);
                     eff = Point (px J1 + couplerPointDist config * cos effectorAngle)
                                 (py J1 + couplerPointDist config * sin effectorAngle)
                 in \<lparr>p1 = P1, p2 = J2, j1 = J1, j2 = J2, aux = None, effector = eff,
                      isValid = True\<rparr>))
      | Yoke \<Rightarrow>
          (let trackAngle = toRad (nullish (groundAngle config) 0);
               offset = (if sliderOffset config = 0 then 0 else sliderOffset config);
               dx = px J1 - px P1;
               dy = py J1 - py P1;
               localJ1x = dx * cos (- trackAngle) - dy * sin (- trackAngle);
               localJ2x = localJ1x;
               localJ2y = offset;
               J2 = Point (px P1 + localJ2x * cos trackAngle - localJ2y * sin trackAngle)
                          (py P1 + localJ2x * sin trackAngle + localJ2y * cos trackAngle);
               eff = Point (px J2 + couplerPointDist config * cos (toRad (couplerPointAngle config)))
                           (py J2 + couplerPointDist config * sin (toRad (couplerPointAngle config)))
           in \<lparr>p1 = P1, p2 = J2, j1 = J1, j2 = J2, aux = None, effector = eff, isValid = True\<rparr>)
      | QuickReturn \<Rightarrow>
          (let gAngle = toRad (nullish (groundAngle config) 0);
               localP2x = groundLength config;
               localP2y = sliderOffset config;
               P2 = Point (px P1 + localP2x * cos gAngle - localP2y * sin gAngle)
                          (py P1 + localP2x * sin gAngle + localP2y * cos gAngle);
               armAngle = atan2 (py J1 - py P2) (px J1 - px P2);
               J2 = Point (px P2 + rockerLength config * cos armAngle)
                          (py P2 + rockerLength config * sin armAngle);
               effAngle = armAngle + toRad (couplerPointAngle config);
               eff = Point (px J2 + couplerPointDist config * cos effAngle)
                           (py J2 + couplerPointDist config * sin effAngle)
           in \<lparr>p1 = P1, p2 = P2, j1 = J1, j2 = J2, aux = None, effector = eff, isValid = True\<rparr>))"

text \<open>
  \<open>generateCurvePoints(config, resolution)\<close>: the \<open>for\<close> loop over \<open>i = 0 .. res - 1\<close>
  is a left fold over these indices; its state is the pair of \<open>points\<close> and
  \<open>validCount\<close>.
\<close>

definition sampleStep :: "MechanismConfig \<Rightarrow> nat \<Rightarrow> Point list \<times> nat \<Rightarrow> nat \<Rightarrow> Point list \<times> nat" where
  "sampleStep config resolution acc i =
     (let angle = (real i / real resolution) * 2 * pi;
          state = calculateLinkage config angle
      in if isValid state then (fst acc @ [effector state], snd acc + 1) else acc)"

record CurvePoints =
  points :: "Point list"
  percentValid :: number

definition generateCurvePoints :: "MechanismConfig \<Rightarrow> nat \<Rightarrow> CurvePoints" where
  "generateCurvePoints config resolution =
     (let loops = (if type config = FiveBar then 8 else 1);
          res = resolution * loops;
          acc = foldl (sampleStep config resolution) ([], 0) [0..<res]
      in \<lparr>points = fst acc, percentValid = num_div_nat (Fin (real (snd acc))) res\<rparr>)"


section \<open>Optimizer (utils/optimizer.ts)\<close>

definition MECHANISM_TYPES :: "MechanismType list" where
  "MECHANISM_TYPES = [FourBar, Piston, Yoke, QuickReturn, FiveBar]"

subsection \<open>Random draws\<close>

text \<open>
  \<open>Math.random()\<close> is a supply \<open>rnd\<close> of reals read at a running index: the
  \<open>k\<close>-th call of a run returns \<open>rnd k\<close>, and every function that draws returns
  the index of the next unread draw. A draw of \<open>Math.random()\<close> lies in \<open>[0, 1)\<close>;
  \<open>unit_draws\<close> says so of a supply.
\<close>

type_synonym draws = "nat \<Rightarrow> real"

definition unit_draws :: "draws \<Rightarrow> bool" where
  "unit_draws rnd = (\<forall>k. 0 \<le> rnd k \<and> rnd k < 1)"

text \<open>
  \<open>xs[Math.floor(r * xs.length)]\<close>. For a draw \<open>r\<close> in \<open>[0, 1)\<close> and a non-empty
  list the index is below the length.
\<close>

definition pickIndex :: "real \<Rightarrow> nat \<Rightarrow> nat" where
  "pickIndex r n = nat \<lfloor>r * real n\<rfloor>"

definition pick :: "'a list \<Rightarrow> real \<Rightarrow> 'a" where
  "pick xs r = xs ! pickIndex r (length xs)"

subsection \<open>getBounds\<close>

record Bounds =
  w :: real
  h :: real
  cx :: real
  cy :: real

text \<open>
  \<open>getBounds(points)\<close> starts its four extremes at \<open>\<plusminus>Infinity\<close> and lowers or raises
  them point by point, so after the first point they are that point's coordinates. The
  model starts there; the empty list, where JavaScript returns infinite extents and a NaN
  centre, is \<open>None\<close> (every caller asks for the bounds of a non-empty list only).
\<close>

definition boundsStep :: "real \<times> real \<times> real \<times> real \<Rightarrow> Point \<Rightarrow> real \<times> real \<times> real \<times> real" where
  "boundsStep acc p =
     (case acc of (minX, maxX, minY, maxY) \<Rightarrow>
        (if px p < minX then px p else minX,
         if px p > maxX then px p else maxX,
         if py p < minY then py p else minY,
         if py p > maxY then py p else maxY))"

fun getBounds :: "Point list \<Rightarrow> Bounds option" where
  "getBounds [] = None"
| "getBounds (p # ps) =
     (case foldl boundsStep (px p, px p, py p, py p) ps of (minX, maxX, minY, maxY) \<Rightarrow>
        Some \<lparr>w = maxX - minX, h = maxY - minY, cx = (minX + maxX) / 2, cy = (minY + maxY) / 2\<rparr>)"

subsection \<open>evaluateFitness\<close>

definition sqDist :: "Point \<Rightarrow> Point \<Rightarrow> real" where
  "sqDist a b = (px a - px b)\<^sup>2 + (py a - py b)\<^sup>2"

text \<open>
  The inner loop: \<open>minD\<close> starts at \<open>Infinity\<close> and takes each smaller squared
  distance.
\<close>

definition minDist :: "Point \<Rightarrow> Point list \<Rightarrow> number" where
  "minDist a bs =
     foldl (\<lambda>minD b. if num_less (Fin (sqDist a b)) minD then Fin (sqDist a b) else minD) PosInf bs"

text \<open>The outer loop adds up \<open>minD\<close> over the points of the first path.\<close>

definition sumMinDist :: "Point list \<Rightarrow> Point list \<Rightarrow> number" where
  "sumMinDist as bs = foldl (\<lambda>err a. num_add err (minDist a bs)) (Fin 0) as"

definition evaluateFitness :: "MechanismConfig \<Rightarrow> Point list \<Rightarrow> number" where
  "evaluateFitness config targetPath =
     (let resolution = (if type config = FiveBar then 120 else 60);
          curve = generateCurvePoints config resolution;
          generatedPath = points curve
      in if num_less (percentValid curve) (Fin 1) then
           num_add (Fin 1000000000) (num_scale (num_sub (Fin 1) (percentValid curve)) 1000000000)
         else if length generatedPath < 10 then Fin 1000000000
         else
           let forwardError = num_div_nat (sumMinDist generatedPath targetPath) (length generatedPath);
               backwardError = num_div_nat (sumMinDist targetPath generatedPath) (length targetPath);
               closurePenalty =
                 (if type config = FiveBar \<and> length generatedPath > 0 then
                    let start = generatedPath ! 0;
                        endp = generatedPath ! (length generatedPath - 1);
                        gap = sqDist start endp
                    in if gap > 50 then gap * 20 else 0
                  else 0)
           in num_add (num_add forwardError backwardError) (Fin closurePenalty))"

subsection \<open>enforceFiveBarConstraints\<close>

text \<open>
  The source updates \<open>conf\<close> in place and returns it; the model returns the updated
  record. Its two \<open>if\<close> statements run one after the other: \<open>growArms\<close> is the first
  (lines 72 to 80), \<open>pullArms\<close> the second (lines 82 to 89), which reads the fields the
  first has written. Here the arithmetic is exact; the subsection after this one gives the
  same two steps with every result rounded as the source rounds it.
\<close>

definition growArms :: "MechanismConfig \<Rightarrow> MechanismConfig" where
  "growArms conf =
     (let maxSeparation = \<bar>groundLength conf\<bar> + \<bar>crankLength conf\<bar> + \<bar>rockerLength conf\<bar>;
          currentTotalArm = \<bar>couplerLength conf\<bar> + \<bar>orElse (rodLength conf) 100\<bar>;
          minTotalArm = maxSeparation * (115 / 100)
      in if currentTotalArm < minTotalArm then
           let diff = minTotalArm - currentTotalArm;
               conf1 = conf\<lparr>couplerLength := couplerLength conf + diff / 2\<rparr>
           in conf1\<lparr>rodLength := Some (orElse (rodLength conf1) 100 + diff / 2)\<rparr>
         else conf)"

definition pullArms :: "MechanismConfig \<Rightarrow> MechanismConfig" where
  "pullArms conf =
     (let armDiff = \<bar>couplerLength conf - orElse (rodLength conf) 100\<bar>;
          minSeparation =
            max 0 (\<bar>groundLength conf\<bar> - \<bar>crankLength conf\<bar> - \<bar>rockerLength conf\<bar>)
      in if armDiff > minSeparation then
           let avg = (couplerLength conf + orElse (rodLength conf) 100) / 2;
               conf1 = conf\<lparr>couplerLength := (couplerLength conf + avg) / 2\<rparr>
           in conf1\<lparr>rodLength := Some ((orElse (rodLength conf1) 100 + avg) / 2)\<rparr>
         else conf)"

definition enforceFiveBarConstraints :: "MechanismConfig \<Rightarrow> MechanismConfig" where
  "enforceFiveBarConstraints conf =
     (if type conf \<noteq> FiveBar then conf else pullArms (growArms conf))"

subsection \<open>enforceFiveBarConstraints in double-precision arithmetic\<close>

text \<open>
  A JavaScript number is an IEEE 754 binary64 value, and an arithmetic operation returns its
  exact result rounded to the nearest such value, a tie going to the even mantissa.
  \<open>round64\<close> is that rounding on every real below the overflow threshold \<open>2^1024\<close>: 53
  significant bits from \<open>2^-1022\<close> upwards, the multiples of \<open>2^-1074\<close> below. A result
  beyond the threshold is \<open>Infinity\<close> in the source and has no counterpart here.

  \<open>normalRange\<close> holds of 0 and of the reals between the smallest normal double and the
  largest double. \<open>rounds fl\<close> is what the properties below use of a rounding \<open>fl\<close>: on that
  range its relative error is at most \<open>2^-53\<close>.
\<close>

definition unitRoundoff :: real where
  "unitRoundoff = 1 / 2 ^ 53"

definition minNormal :: real where
  "minNormal = 1 / 2 ^ 1022"

definition maxDouble :: real where
  "maxDouble = (2 ^ 53 - 1) * 2 ^ 971"

definition normalRange :: "real \<Rightarrow> bool" where
  "normalRange x = (x = 0 \<or> (minNormal \<le> \<bar>x\<bar> \<and> \<bar>x\<bar> \<le> maxDouble))"

definition rounds :: "(real \<Rightarrow> real) \<Rightarrow> bool" where
  "rounds fl = (\<forall>x. normalRange x \<longrightarrow> \<bar>fl x - x\<bar> \<le> unitRoundoff * \<bar>x\<bar>)"

definition roundHalfEven :: "real \<Rightarrow> int" where
  "roundHalfEven m =
     (let f = \<lfloor>m\<rfloor>
      in if m - of_int f < 1 / 2 then f
         else if m - of_int f > 1 / 2 then f + 1
         else if even f then f else f + 1)"

definition round64 :: "real \<Rightarrow> real" where
  "round64 x =
     (if x = 0 then 0
      else let e = max \<lfloor>log 2 \<bar>x\<bar>\<rfloor> (- 1022)
           in of_int (roundHalfEven (x * 2 powr (52 - of_int e))) * 2 powr (of_int e - 52))"

text \<open>
  Lines 72 to 89 with the result of every addition, subtraction, multiplication and division
  rounded by \<open>fl\<close>, in the order the source evaluates them; the literal \<open>1.15\<close> is rounded
  too. \<open>Math.abs\<close>, \<open>Math.max\<close>, \<open>||\<close> and the comparisons are exact. \<open>growArms\<close>,
  \<open>pullArms\<close> and \<open>enforceFiveBarConstraints\<close> above are these definitions at the rounding
  that changes nothing.
\<close>

definition growArmsFl :: "(real \<Rightarrow> real) \<Rightarrow> MechanismConfig \<Rightarrow> MechanismConfig" where
  "growArmsFl fl conf =
     (let maxSeparation =
            fl (fl (\<bar>groundLength conf\<bar> + \<bar>crankLength conf\<bar>) + \<bar>rockerLength conf\<bar>);
          currentTotalArm = fl (\<bar>couplerLength conf\<bar> + \<bar>orElse (rodLength conf) 100\<bar>);
          minTotalArm = fl (maxSeparation * fl (115 / 100))
      in if currentTotalArm < minTotalArm then
           let diff = fl (minTotalArm - currentTotalArm);
               conf1 = conf\<lparr>couplerLength := fl (couplerLength conf + fl (diff / 2))\<rparr>
           in conf1\<lparr>rodLength := Some (fl (orElse (rodLength conf1) 100 + fl (diff / 2)))\<rparr>
         else conf)"

definition pullArmsFl :: "(real \<Rightarrow> real) \<Rightarrow> MechanismConfig \<Rightarrow> MechanismConfig" where
  "pullArmsFl fl conf =
     (let armDiff = \<bar>fl (couplerLength conf - orElse (rodLength conf) 100)\<bar>;
          minSeparation =
            max 0 (fl (fl (\<bar>groundLength conf\<bar> - \<bar>crankLength conf\<bar>) - \<bar>rockerLength conf\<bar>))
      in if armDiff > minSeparation then
           let avg = fl (fl (couplerLength conf + orElse (rodLength conf) 100) / 2);
               conf1 = conf\<lparr>couplerLength := fl (fl (couplerLength conf + avg) / 2)\<rparr>
           in conf1\<lparr>rodLength := Some (fl (fl (orElse (rodLength conf1) 100 + avg) / 2))\<rparr>
         else conf)"

definition enforceFiveBarConstraintsFl ::
  "(real \<Rightarrow> real) \<Rightarrow> MechanismConfig \<Rightarrow> MechanismConfig" where
  "enforceFiveBarConstraintsFl fl conf =
     (if type conf \<noteq> FiveBar then conf else pullArmsFl fl (growArmsFl fl conf))"

subsection \<open>generateSmartConfig\<close>

text \<open>The allowed variants (lines 106 to 111).\<close>

definition availableTypes :: "MechanismType option \<Rightarrow> MechanismType option \<Rightarrow> MechanismType list" where
  "availableTypes forcedType excludedType =
     (case forcedType of
        Some f \<Rightarrow> [f]
      | None \<Rightarrow>
          (case excludedType of
             Some e \<Rightarrow> filter (\<lambda>t. t \<noteq> e) MECHANISM_TYPES
           | None \<Rightarrow> MECHANISM_TYPES))"

text \<open>
  \<open>generateSmartConfig(targetPath, forcedType, excludedType)\<close>, reading its draws from
  index \<open>i\<close> on, in the order in which the source evaluates its calls of
  \<open>Math.random()\<close>; \<open>sAt k factor\<close> is the call \<open>s(factor)\<close> that reads draw \<open>k\<close>.
  The identity string \<open>Math.random().toString(36).substr(2, 9)\<close> is \<open>fmt\<close> applied
  to its draw; \<open>fmt\<close> is a parameter.
\<close>

definition generateSmartConfig ::
  "(real \<Rightarrow> string) \<Rightarrow> draws \<Rightarrow> nat \<Rightarrow> Point list option \<Rightarrow> MechanismType option \<Rightarrow>
     MechanismType option \<Rightarrow> MechanismConfig \<times> nat" where
  "generateSmartConfig fmt rnd i targetPath forcedType excludedType =
     (let bounds = (case targetPath of None \<Rightarrow> None | Some path \<Rightarrow> getBounds path);
          cx0 = (case bounds of None \<Rightarrow> 0 | Some b \<Rightarrow> cx b);
          cy0 = (case bounds of None \<Rightarrow> 0 | Some b \<Rightarrow> cy b);
          scale = (case bounds of None \<Rightarrow> 100 | Some b \<Rightarrow> max (w b) (h b));
          sAt = (\<lambda>k factor. scale * factor * (1 / 2 + rnd k));
          ty = pick (availableTypes forcedType excludedType) (rnd i);
          ax = cx0 + (rnd (i + 1) - 1 / 2) * scale * 3;
          ay = cy0 + (rnd (i + 2) - 1 / 2) * scale * 3;
          config =
            \<lparr>ident = fmt (rnd (i + 3)), type = ty, visible = True, color = ''#3b82f6'',
             anchorX = Some ax, anchorY = Some ay, groundAngle = Some (rnd (i + 4) * 360),
             crankLength = sAt (i + 6) (3 / 10), groundLength = sAt (i + 5) (8 / 10),
             couplerLength = sAt (i + 7) 1, rockerLength = sAt (i + 8) (8 / 10),
             sliderOffset = 0, couplerPointDist = sAt (i + 9) (1 / 2),
             couplerPointAngle = rnd (i + 10) * 360,
             speed1 = Some 1, speed2 = Some 1, gearRatio = None,
             rodLength = Some (sAt (i + 11) 1), phase = Some (rnd (i + 12) * pi * 2),
             showOutputGear = None, outputGearRadius = None\<rparr>
      in if ty = Yoke then
           (config\<lparr>sliderOffset := (rnd (i + 13) - 1 / 2) * sAt (i + 14) (1 / 2)\<rparr>, i + 15)
         else if ty = Piston then
           (let c1 = config\<lparr>sliderOffset := (rnd (i + 13) - 1 / 2) * sAt (i + 14) (1 / 2)\<rparr>
            in (c1\<lparr>couplerLength := \<bar>sliderOffset c1\<bar> + crankLength c1 + sAt (i + 15) (1 / 2)\<rparr>,
                i + 16))
         else if ty = QuickReturn then
           (let c1 = config\<lparr>sliderOffset := (rnd (i + 13) - 1 / 2) * sAt (i + 14) 1\<rparr>;
                c2 = c1\<lparr>groundLength := max (sAt (i + 15) (1 / 2)) (crankLength c1 + 10)\<rparr>
            in (c2\<lparr>rockerLength := sAt (i + 16) (3 / 2)\<rparr>, i + 17))
         else if ty = FiveBar then
           (let c1 = config\<lparr>speed1 := Some 1\<rparr>;
                dir = (if rnd (i + 13) > 1 / 2 then 1 else - 1);
                deviation = (rnd (i + 14) - 1 / 2) * (2 / 10);
                c2 = c1\<lparr>speed2 := Some ((nullish (speed1 c1) 1 * dir) + deviation)\<rparr>;
                c3 = c2\<lparr>groundLength := sAt (i + 15) (6 / 10)\<rparr>;
                c4 = c3\<lparr>crankLength := sAt (i + 16) (3 / 10)\<rparr>;
                c5 = c4\<lparr>rockerLength := sAt (i + 17) (3 / 10)\<rparr>;
                gearMidX = ax + (cos 0 * groundLength c5) / 2;
                gearMidY = ay + (sin 0 * groundLength c5) / 2;
                distToTarget = sqrt ((cx0 - gearMidX)\<^sup>2 + (cy0 - gearMidY)\<^sup>2);
                avgArmLen = distToTarget * (1 + rnd (i + 18) * (4 / 10));
                c6 = c5\<lparr>couplerLength := avgArmLen, rodLength := Some avgArmLen\<rparr>;
                c7 = c6\<lparr>couplerPointDist := rnd (i + 19) * sAt (i + 20) (1 / 2)\<rparr>
            in (enforceFiveBarConstraints c7, i + 21))
         else (config, i + 13))"

subsection \<open>mutateConfig\<close>

text \<open>
  The two local helpers of \<open>mutateConfig\<close>; \<open>r\<close> is the draw each of them reads, and
  \<open>rng\<close> is the parameter \<open>range\<close>.
\<close>

definition mutate :: "real \<Rightarrow> real \<Rightarrow> real \<Rightarrow> real \<Rightarrow> real" where
  "mutate temperature r val rng = val + val * rng * temperature * (r - 1 / 2) * 2"

definition mutateAbs :: "real \<Rightarrow> real \<Rightarrow> real \<Rightarrow> real \<Rightarrow> real" where
  "mutateAbs temperature r val amount = val + (r - 1 / 2) * amount * temperature"

text \<open>
  \<open>if (Math.random() < p) body\<close> on a configuration and the index of the next draw:
  the test reads one draw, and \<open>body\<close> continues from the draw after it.
\<close>

definition chance ::
  "draws \<Rightarrow> real \<Rightarrow> (nat \<Rightarrow> MechanismConfig \<Rightarrow> MechanismConfig \<times> nat) \<Rightarrow>
     MechanismConfig \<times> nat \<Rightarrow> MechanismConfig \<times> nat" where
  "chance rnd p body s =
     (case s of (c, i) \<Rightarrow> if rnd i < p then body (i + 1) c else (c, i + 1))"

text \<open>
  Structure mutation (lines 191 to 205). \<open>&&\<close> evaluates \<open>Math.random()\<close> only when
  the two tests before it hold. \<open>orig\<close> is the parameter \<open>config\<close>.
\<close>

definition structureMutation ::
  "draws \<Rightarrow> real \<Rightarrow> bool \<Rightarrow> MechanismType option \<Rightarrow> MechanismConfig \<Rightarrow>
     MechanismConfig \<times> nat \<Rightarrow> MechanismConfig \<times> nat" where
  "structureMutation rnd temperature fixedType excludedType orig s =
     (if \<not> fixedType \<and> temperature > 3 / 10 then
        chance rnd (15 / 100)
          (\<lambda>i c.
             let types0 = MECHANISM_TYPES;
                 types1 = (case excludedType of Some e \<Rightarrow> filter (\<lambda>t. t \<noteq> e) types0 | None \<Rightarrow> types0);
                 types2 = filter (\<lambda>t. t \<noteq> type orig) types1
             in if length types2 > 0 then
                  let c1 = c\<lparr>type := pick types2 (rnd i)\<rparr>
                  in if type c1 = FiveBar then
                       let c2 = c1\<lparr>speed1 := Some 1\<rparr>;
                           dir = (if rnd (i + 1) > 1 / 2 then 1 else - 1);
                           c3 = c2\<lparr>speed2 := Some dir\<rparr>
                       in (c3\<lparr>rodLength := Some (couplerLength c3)\<rparr>, i + 2)
                     else (c1, i + 1)
                else (c, i))
          s
      else s)"

text \<open>Global scale mutation (lines 208 to 218).\<close>

definition scaleMutation :: "draws \<Rightarrow> real \<Rightarrow> MechanismConfig \<times> nat \<Rightarrow> MechanismConfig \<times> nat" where
  "scaleMutation rnd temperature s =
     chance rnd (15 / 100)
       (\<lambda>i c.
          let scaleFactor = 1 + (rnd i - 1 / 2) * (1 / 2) * temperature;
              c1 = c\<lparr>groundLength := groundLength c * scaleFactor\<rparr>;
              c2 = c1\<lparr>crankLength := crankLength c1 * scaleFactor\<rparr>;
              c3 = c2\<lparr>couplerLength := couplerLength c2 * scaleFactor\<rparr>;
              c4 = c3\<lparr>rockerLength := rockerLength c3 * scaleFactor\<rparr>;
              c5 = (if truthy (rodLength c4)
                    then c4\<lparr>rodLength := map_option (\<lambda>v. v * scaleFactor) (rodLength c4)\<rparr> else c4);
              c6 = (if sliderOffset c5 \<noteq> 0
                    then c5\<lparr>sliderOffset := sliderOffset c5 * scaleFactor\<rparr> else c5);
              c7 = (if couplerPointDist c6 \<noteq> 0
                    then c6\<lparr>couplerPointDist := couplerPointDist c6 * scaleFactor\<rparr> else c6);
              c8 = (if truthy (outputGearRadius c7)
                    then c7\<lparr>outputGearRadius := map_option (\<lambda>v. v * scaleFactor) (outputGearRadius c7)\<rparr>
                    else c7)
          in (c8, i + 1))
       s"

text \<open>
  Position and orientation (lines 221 to 223). The source asserts the three fields present
  (\<open>anchorX!\<close>); on a missing field JavaScript would store NaN, which a real-valued field
  cannot hold, and the model leaves the field missing. No length field reads them.
\<close>

definition positionMutation :: "draws \<Rightarrow> real \<Rightarrow> MechanismConfig \<times> nat \<Rightarrow> MechanismConfig \<times> nat" where
  "positionMutation rnd temperature s =
     (let s1 = chance rnd (7 / 10)
                 (\<lambda>i c. (c\<lparr>anchorX := map_option (\<lambda>v. mutateAbs temperature (rnd i) v 150) (anchorX c)\<rparr>,
                          i + 1)) s;
          s2 = chance rnd (7 / 10)
                 (\<lambda>i c. (c\<lparr>anchorY := map_option (\<lambda>v. mutateAbs temperature (rnd i) v 150) (anchorY c)\<rparr>,
                          i + 1)) s1
      in chance rnd (7 / 10)
           (\<lambda>i c. (c\<lparr>groundAngle := map_option (\<lambda>v. mutateAbs temperature (rnd i) v 60) (groundAngle c)\<rparr>,
                    i + 1)) s2)"

text \<open>Dimension mutation (lines 226 to 230); the default range of \<open>mutate\<close> is 0.2.\<close>

definition dimensionMutation :: "draws \<Rightarrow> real \<Rightarrow> MechanismConfig \<times> nat \<Rightarrow> MechanismConfig \<times> nat" where
  "dimensionMutation rnd temperature s =
     (let s1 = chance rnd (7 / 10)
                 (\<lambda>i c. (c\<lparr>groundLength := mutate temperature (rnd i) (groundLength c) (2 / 10)\<rparr>, i + 1)) s;
          s2 = chance rnd (7 / 10)
                 (\<lambda>i c. (c\<lparr>couplerLength := mutate temperature (rnd i) (couplerLength c) (2 / 10)\<rparr>, i + 1)) s1;
          s3 = chance rnd (7 / 10)
                 (\<lambda>i c. (c\<lparr>rockerLength := mutate temperature (rnd i) (rockerLength c) (2 / 10)\<rparr>, i + 1)) s2;
          s4 = chance rnd (7 / 10)
                 (\<lambda>i c. (c\<lparr>couplerPointDist := mutate temperature (rnd i) (couplerPointDist c) (2 / 10)\<rparr>,
                          i + 1)) s3
      in chance rnd (7 / 10)
           (\<lambda>i c. (c\<lparr>crankLength := mutate temperature (rnd i) (crankLength c) (2 / 10)\<rparr>, i + 1)) s4)"

text \<open>Five-bar specific mutation (lines 233 to 251).\<close>

definition fiveBarMutation :: "draws \<Rightarrow> real \<Rightarrow> MechanismConfig \<times> nat \<Rightarrow> MechanismConfig \<times> nat" where
  "fiveBarMutation rnd temperature s =
     (if type (fst s) = FiveBar then
        let st1 = chance rnd (7 / 10)
                    (\<lambda>i c. (c\<lparr>rodLength := Some (mutate temperature (rnd i) (orElse (rodLength c) 100) (2 / 10))\<rparr>,
                             i + 1)) s;
            st2 = chance rnd (6 / 10)
                    (\<lambda>i c. (c\<lparr>phase := Some (orElse (phase c) 0 + (rnd i - 1 / 2) * pi * (1 / 2) * temperature)\<rparr>,
                             i + 1)) st1
        in chance rnd (3 / 10)
             (\<lambda>i c.
                let currentDiff = orElse (speed2 c) 1 - orElse (speed1 c) 1;
                    dir = (if currentDiff \<ge> 0 then 1 else - 1 :: real);
                    jitter = (rnd i - 1 / 2) * (5 / 100);
                    newSpeed2 = orElse (speed2 c) 1 + jitter;
                    s1 = orElse (speed1 c) 1;
                    isCounter = ((s1 > 0 \<and> newSpeed2 < 0) \<or> (s1 < 0 \<and> newSpeed2 > 0));
                    targetBase = (if isCounter then - s1 else s1);
                    newSpeed2' =
                      (if \<bar>newSpeed2 - targetBase\<bar> > 1 / 10
                       then targetBase + (if newSpeed2 > targetBase then 1 / 10 else - (1 / 10))
                       else newSpeed2)
                in (c\<lparr>speed2 := Some newSpeed2'\<rparr>, i + 1))
             st2
      else s)"

text \<open>Slider offset and coupler-point angle (lines 253 and 254).\<close>

definition offsetMutation :: "draws \<Rightarrow> real \<Rightarrow> MechanismConfig \<times> nat \<Rightarrow> MechanismConfig \<times> nat" where
  "offsetMutation rnd temperature s =
     (let s1 = chance rnd (7 / 10)
                 (\<lambda>i c. (c\<lparr>sliderOffset := mutateAbs temperature (rnd i) (sliderOffset c) 30\<rparr>, i + 1)) s
      in chance rnd (7 / 10)
           (\<lambda>i c. (c\<lparr>couplerPointAngle := mutateAbs temperature (rnd i) (couplerPointAngle c) 60\<rparr>,
                    i + 1)) s1)"

text \<open>The clamps of lines 256 to 260.\<close>

definition clampLengths :: "MechanismConfig \<Rightarrow> MechanismConfig" where
  "clampLengths c =
     (let c1 = c\<lparr>groundLength := max 5 \<bar>groundLength c\<bar>\<rparr>;
          c2 = c1\<lparr>crankLength := max 5 \<bar>crankLength c1\<bar>\<rparr>;
          c3 = c2\<lparr>couplerLength := max 5 \<bar>couplerLength c2\<bar>\<rparr>;
          c4 = c3\<lparr>rockerLength := max 5 \<bar>rockerLength c3\<bar>\<rparr>
      in if truthy (rodLength c4)
         then c4\<lparr>rodLength := map_option (\<lambda>v. max 5 \<bar>v\<bar>) (rodLength c4)\<rparr> else c4)"

text \<open>
  \<open>mutateConfig(config, temperature, fixedType, excludedType)\<close>: the copy
  \<open>newConfig\<close> passes through the stages in the source's order; the result is the new
  configuration and the index of the next draw.
\<close>

definition mutateConfig ::
  "draws \<Rightarrow> nat \<Rightarrow> MechanismConfig \<Rightarrow> real \<Rightarrow> bool \<Rightarrow> MechanismType option \<Rightarrow>
     MechanismConfig \<times> nat" where
  "mutateConfig rnd i config temperature fixedType excludedType =
     (let s0 = (config, i);
          s1 = structureMutation rnd temperature fixedType excludedType config s0;
          s2 = scaleMutation rnd temperature s1;
          s3 = positionMutation rnd temperature s2;
          s4 = dimensionMutation rnd temperature s3;
          s5 = fiveBarMutation rnd temperature s4;
          s6 = offsetMutation rnd temperature s5;
          newConfig = clampLengths (fst s6)
      in if type newConfig = FiveBar then (enforceFiveBarConstraints newConfig, snd s6)
         else (newConfig, snd s6))"


section \<open>The evolutionary loop of the optimizer driver (runOptimization)\<close>

text \<open>
  \<open>runOptimization\<close> returns at once when \<open>userPath\<close> has fewer than 3 points. After
  the seeding it holds \<open>poolSource\<close>, the scored candidates sorted by score; the model
  starts there, with \<open>poolSource\<close> a parameter, and follows the source from the line
  that cuts the first population out of it. The other parameters are the options
  \<open>forcedType\<close> and \<open>excludedType\<close>, the time limit \<open>optDuration * 1000\<close>, the
  supply of draws, and \<open>clock\<close>, the successive values of \<open>Date.now()\<close>, read at a
  running index like the draws. The calls of \<open>setConfig\<close> and the pause between two
  generations act on the user interface only and are left out.
\<close>

definition POPULATION_SIZE :: nat where
  "POPULATION_SIZE = 100"

definition DEFAULT_GENERATIONS :: nat where
  "DEFAULT_GENERATIONS = 100"

record Scored =
  mech :: MechanismConfig
  score :: number

text \<open>
  \<open>scored.sort((a, b) => a.score - b.score)\<close>. The sort of JavaScript is stable, and
  under a comparator that orders the scores it returns what any stable sort returns; the
  model is the stable insertion sort, in which \<open>a\<close> goes behind \<open>b\<close> when the
  comparator is positive.
\<close>

fun insertByScore :: "Scored \<Rightarrow> Scored list \<Rightarrow> Scored list" where
  "insertByScore a [] = [a]"
| "insertByScore a (b # bs) =
     (if num_less (Fin 0) (num_sub (score a) (score b)) then b # insertByScore a bs
      else a # b # bs)"

definition sortByScore :: "Scored list \<Rightarrow> Scored list" where
  "sortByScore xs = foldr insertByScore xs []"

text \<open>
  \<open>while (xs.length < POPULATION_SIZE) xs.push(...)\<close>: \<open>new\<close> computes the member to
  push from the indices of the next draw and the next clock value, and returns the
  indices it leaves.
\<close>

function pushUntilFull ::
  "(nat \<times> nat \<Rightarrow> MechanismConfig \<times> nat \<times> nat) \<Rightarrow> MechanismConfig list \<times> nat \<times> nat \<Rightarrow>
     MechanismConfig list \<times> nat \<times> nat" where
  "pushUntilFull new (xs, i, t) =
     (if length xs < POPULATION_SIZE then
        (case new (i, t) of (c, i', t') \<Rightarrow> pushUntilFull new (xs @ [c], i', t'))
      else (xs, i, t))"
  by pat_completeness auto
termination
  by (relation "measure (\<lambda>(new, xs, i, t). POPULATION_SIZE - length xs)") auto

declare pushUntilFull.simps [simp del]

text \<open>The body of the loop that pads the first population (line 486).\<close>

definition freshMember ::
  "(real \<Rightarrow> string) \<Rightarrow> draws \<Rightarrow> Point list \<Rightarrow> MechanismType option \<Rightarrow> MechanismType option \<Rightarrow>
     nat \<times> nat \<Rightarrow> MechanismConfig \<times> nat \<times> nat" where
  "freshMember fmt rnd userPath forcedType excludedType it =
     (case it of (i, t) \<Rightarrow>
        (case generateSmartConfig fmt rnd i (Some userPath) forcedType excludedType of
           (c, i') \<Rightarrow> (c, i', t)))"

text \<open>
  The body of the loop that refills the population (lines 532 to 541).
  \<open>Math.pow(progress, 0.5)\<close> is the square root (the progress is not negative as long
  as the clock does not run backwards); \<open>!!forcedType\<close> is true when a type is forced.
  In timed mode the progress reads the clock.
\<close>

definition nextMember ::
  "(real \<Rightarrow> string) \<Rightarrow> draws \<Rightarrow> (nat \<Rightarrow> real) \<Rightarrow> Point list \<Rightarrow> MechanismType option \<Rightarrow>
     MechanismType option \<Rightarrow> real \<Rightarrow> real \<Rightarrow> nat \<Rightarrow> Scored list \<Rightarrow>
     nat \<times> nat \<Rightarrow> MechanismConfig \<times> nat \<times> nat" where
  "nextMember fmt rnd clock userPath forcedType excludedType timeLimit startTime generation survivors it =
     (case it of (i, t) \<Rightarrow>
        if rnd i < 1 / 10 then
          (case generateSmartConfig fmt rnd (i + 1) (Some userPath) forcedType excludedType of
             (c, i') \<Rightarrow> (c, i', t))
        else
          let parent = mech (pick survivors (rnd (i + 1)));
              isTimeBound = (timeLimit > 0);
              progress = (if isTimeBound then (clock t - startTime) / timeLimit
                          else real generation / real DEFAULT_GENERATIONS);
              t' = (if isTimeBound then t + 1 else t);
              temperature = max (5 / 100) (1 - sqrt progress)
          in (case mutateConfig rnd (i + 2) parent temperature (forcedType \<noteq> None) excludedType of
                (c, i') \<Rightarrow> (c, i', t')))"

record DriverState =
  population :: "MechanismConfig list"
  globalBest :: MechanismConfig
  globalBestScore :: number
  generation :: nat
  startTime :: real
  drawIndex :: nat
  clockIndex :: nat

text \<open>
  Lines 483 to 497: the first population, the first global best and the start time. The
  population has \<open>POPULATION_SIZE\<close> members after the padding, so \<open>population[0]\<close>
  exists.
\<close>

definition startEvolution ::
  "(real \<Rightarrow> string) \<Rightarrow> draws \<Rightarrow> (nat \<Rightarrow> real) \<Rightarrow> Point list \<Rightarrow> MechanismType option \<Rightarrow>
     MechanismType option \<Rightarrow> Scored list \<Rightarrow> nat \<Rightarrow> DriverState" where
  "startEvolution fmt rnd clock userPath forcedType excludedType poolSource i =
     (case pushUntilFull (freshMember fmt rnd userPath forcedType excludedType)
             (map mech (take POPULATION_SIZE poolSource), i, 0) of
        (pop, i', t) \<Rightarrow>
          \<lparr>population = pop, globalBest = pop ! 0,
           globalBestScore = evaluateFitness (pop ! 0) userPath,
           generation = 0, startTime = clock t, drawIndex = i', clockIndex = t + 1\<rparr>)"

text \<open>
  One generation, lines 506 to 545. Reading \<open>scored[i].mech\<close> beyond the end of
  \<open>scored\<close> throws a TypeError, which is \<open>None\<close>.
\<close>

definition generationStep ::
  "(real \<Rightarrow> string) \<Rightarrow> draws \<Rightarrow> (nat \<Rightarrow> real) \<Rightarrow> Point list \<Rightarrow> MechanismType option \<Rightarrow>
     MechanismType option \<Rightarrow> real \<Rightarrow> DriverState \<Rightarrow> DriverState option" where
  "generationStep fmt rnd clock userPath forcedType excludedType timeLimit s =
     (let scored = sortByScore (map (\<lambda>m. \<lparr>mech = m, score = evaluateFitness m userPath\<rparr>) (population s))
      in if length scored < 15 then None
         else
           let bestOfGen = mech (scored ! 0);
               bestGenScore = score (scored ! 0);
               s1 = (if num_less bestGenScore (globalBestScore s)
                     then s\<lparr>globalBestScore := bestGenScore, globalBest := bestOfGen\<rparr> else s);
               elite = map mech (take 15 scored);
               survivors = take (POPULATION_SIZE div 2) scored
           in (case pushUntilFull
                      (nextMember fmt rnd clock userPath forcedType excludedType timeLimit
                         (startTime s) (generation s) survivors)
                      (elite, drawIndex s, clockIndex s) of
                 (nextGen, i', t') \<Rightarrow>
                   Some (s1\<lparr>population := nextGen, generation := generation s + 1,
                             drawIndex := i', clockIndex := t'\<rparr>)))"

text \<open>
  One pass of \<open>while (true)\<close>: the test at its head (lines 500 to 504), which reads the
  clock in timed mode, then the generation.
\<close>

datatype LoopResult = Break | TypeError | Continue DriverState

definition loopPass ::
  "(real \<Rightarrow> string) \<Rightarrow> draws \<Rightarrow> (nat \<Rightarrow> real) \<Rightarrow> Point list \<Rightarrow> MechanismType option \<Rightarrow>
     MechanismType option \<Rightarrow> real \<Rightarrow> DriverState \<Rightarrow> LoopResult" where
  "loopPass fmt rnd clock userPath forcedType excludedType timeLimit s =
     (let isTimeBound = (timeLimit > 0);
          stop = (if isTimeBound then clock (clockIndex s) - startTime s \<ge> timeLimit
                  else generation s \<ge> DEFAULT_GENERATIONS);
          s0 = (if isTimeBound then s\<lparr>clockIndex := clockIndex s + 1\<rparr> else s)
      in if stop then Break
         else (case generationStep fmt rnd clock userPath forcedType excludedType timeLimit s0 of
                 None \<Rightarrow> TypeError
               | Some s' \<Rightarrow> Continue s'))"

text \<open>
  The state after \<open>k\<close> generations of the loop started in \<open>s\<close>, when the loop runs that
  far: \<open>None\<close> when it has stopped or failed before.
\<close>

primrec afterGenerations ::
  "(real \<Rightarrow> string) \<Rightarrow> draws \<Rightarrow> (nat \<Rightarrow> real) \<Rightarrow> Point list \<Rightarrow> MechanismType option \<Rightarrow>
     MechanismType option \<Rightarrow> real \<Rightarrow> nat \<Rightarrow> DriverState \<Rightarrow> DriverState option" where
  "afterGenerations fmt rnd clock userPath forcedType excludedType timeLimit 0 s = Some s"
| "afterGenerations fmt rnd clock userPath forcedType excludedType timeLimit (Suc k) s =
     (case afterGenerations fmt rnd clock userPath forcedType excludedType timeLimit k s of
        None \<Rightarrow> None
      | Some s' \<Rightarrow>
          (case loopPass fmt rnd clock userPath forcedType excludedType timeLimit s' of
             Continue s'' \<Rightarrow> Some s''
           | _ \<Rightarrow> None))"

section \<open>Notions used to state the properties\<close>

text \<open>The distance of two points, and of the centres of two circles.\<close>

definition centreDist :: "Point \<Rightarrow> Point \<Rightarrow> real" where
  "centreDist a b = sqrt ((px b - px a)\<^sup>2 + (py b - py a)\<^sup>2)"

text \<open>
  The crank tip, and its coordinate perpendicular to the track in the frame whose origin
  is the anchor and whose x-axis points along the track, at \<open>groundAngle\<close> degrees.
\<close>

definition crankTip :: "MechanismConfig \<Rightarrow> real \<Rightarrow> Point" where
  "crankTip c a =
     Point (nullish (anchorX c) 0 + crankLength c * cos (a * nullish (speed1 c) 1))
           (nullish (anchorY c) 0 + crankLength c * sin (a * nullish (speed1 c) 1))"

definition localJ1y :: "MechanismConfig \<Rightarrow> real \<Rightarrow> real" where
  "localJ1y c a =
     (let t = toRad (nullish (groundAngle c) 0);
          dx = px (crankTip c a) - nullish (anchorX c) 0;
          dy = py (crankTip c a) - nullish (anchorY c) 0
      in dy * cos t - dx * sin t)"

text \<open>Three of the presets of \<open>App.tsx\<close>, used as concrete inputs.\<close>

definition presetCrankRocker :: MechanismConfig where
  "presetCrankRocker =
     \<lparr>ident = ''p1'', type = FourBar, visible = True, color = ''#3b82f6'',
      anchorX = None, anchorY = None, groundAngle = None,
      crankLength = 50, groundLength = 180, couplerLength = 180, rockerLength = 120,
      sliderOffset = 0, couplerPointDist = 80, couplerPointAngle = 45,
      speed1 = None, speed2 = None, gearRatio = None, rodLength = None, phase = None,
      showOutputGear = None, outputGearRadius = None\<rparr>"

definition presetPiston :: MechanismConfig where
  "presetPiston =
     \<lparr>ident = ''p2'', type = Piston, visible = True, color = ''#10b981'',
      anchorX = None, anchorY = None, groundAngle = None,
      crankLength = 60, groundLength = 0, couplerLength = 160, rockerLength = 0,
      sliderOffset = 40, couplerPointDist = 0, couplerPointAngle = 0,
      speed1 = None, speed2 = None, gearRatio = None, rodLength = None, phase = None,
      showOutputGear = None, outputGearRadius = None\<rparr>"

definition presetYoke :: MechanismConfig where
  "presetYoke =
     \<lparr>ident = ''p3'', type = Yoke, visible = True, color = ''#f59e0b'',
      anchorX = None, anchorY = None, groundAngle = None,
      crankLength = 50, groundLength = 0, couplerLength = 0, rockerLength = 0,
      sliderOffset = 0, couplerPointDist = 50, couplerPointAngle = 0,
      speed1 = None, speed2 = None, gearRatio = None, rodLength = None, phase = None,
      showOutputGear = None, outputGearRadius = None\<rparr>"

text \<open>The length fields of a configuration are all non-negative (a missing rod length has no sign).\<close>

definition nonnegLengths :: "MechanismConfig \<Rightarrow> bool" where
  "nonnegLengths c =
     (0 \<le> crankLength c \<and> 0 \<le> groundLength c \<and> 0 \<le> couplerLength c \<and> 0 \<le> rockerLength c
      \<and> 0 \<le> couplerPointDist c \<and> (case rodLength c of None \<Rightarrow> True | Some v \<Rightarrow> 0 \<le> v))"

text \<open>A rod length is missing, 0, or at least 5.\<close>

definition rodOK :: "real option \<Rightarrow> bool" where
  "rodOK r = (case r of None \<Rightarrow> True | Some v \<Rightarrow> v = 0 \<or> 5 \<le> v)"

text \<open>The five-bar preset of \<open>App.tsx\<close> ("Two-Gear Drawing Machine").\<close>

definition presetFiveBar :: MechanismConfig where
  "presetFiveBar =
     \<lparr>ident = ''p_geared'', type = FiveBar, visible = True, color = ''#eab308'',
      anchorX = None, anchorY = None, groundAngle = None,
      crankLength = 60, groundLength = 120, couplerLength = 180, rockerLength = 40,
      sliderOffset = 0, couplerPointDist = 100, couplerPointAngle = 0,
      speed1 = Some 1, speed2 = Some (3 / 2), gearRatio = None, rodLength = Some 100, phase = None,
      showOutputGear = None, outputGearRadius = None\<rparr>"

text \<open>A five-bar configuration whose rod length is 0, and the piston preset with a rod length of 0.\<close>

definition fiveBarZeroRod :: MechanismConfig where
  "fiveBarZeroRod =
     \<lparr>ident = ''z'', type = FiveBar, visible = True, color = ''#eab308'',
      anchorX = None, anchorY = None, groundAngle = None,
      crankLength = 0, groundLength = 150, couplerLength = 100, rockerLength = 0,
      sliderOffset = 0, couplerPointDist = 0, couplerPointAngle = 0,
      speed1 = None, speed2 = None, gearRatio = None, rodLength = Some 0, phase = None,
      showOutputGear = None, outputGearRadius = None\<rparr>"

definition pistonZeroRod :: MechanismConfig where
  "pistonZeroRod = presetPiston\<lparr>rodLength := Some 0\<rparr>"

text \<open>A crank of length 50 anchored at the origin.\<close>

definition crank50 :: MechanismConfig where
  "crank50 =
     \<lparr>ident = ''c'', type = Crank, visible = True, color = ''#3b82f6'',
      anchorX = Some 0, anchorY = Some 0, groundAngle = None,
      crankLength = 50, groundLength = 0, couplerLength = 0, rockerLength = 0,
      sliderOffset = 0, couplerPointDist = 0, couplerPointAngle = 0,
      speed1 = None, speed2 = None, gearRatio = None, rodLength = None, phase = None,
      showOutputGear = None, outputGearRadius = None\<rparr>"

text \<open>The piston preset with a coupler too short to reach the track at drive angle 0.\<close>

definition pistonShortCoupler :: MechanismConfig where
  "pistonShortCoupler = presetPiston\<lparr>couplerLength := 20\<rparr>"

text \<open>The closure penalty of \<open>evaluateFitness\<close> (lines 57 to 63), named.\<close>

definition closurePenaltyOf :: "MechanismConfig \<Rightarrow> Point list \<Rightarrow> real" where
  "closurePenaltyOf c pts =
     (if type c = FiveBar \<and> length pts > 0 then
        let start = pts ! 0; endp = pts ! (length pts - 1); gap = sqDist start endp
        in if gap > 50 then gap * 20 else 0
      else 0)"

text \<open>
  The two quantities of the radical-line construction in \<open>getCircleIntersection\<close>, as
  functions of the radii and the distance \<open>d\<close> of the centres: the offset \<open>a\<close> of the
  radical line from the first centre, and the half chord \<open>h\<close>.
\<close>

definition radicalOffset :: "real \<Rightarrow> real \<Rightarrow> real \<Rightarrow> real" where
  "radicalOffset r0 r1 d = (r0 * r0 - r1 * r1 + d * d) / (2 * d)"

definition halfChord :: "real \<Rightarrow> real \<Rightarrow> real \<Rightarrow> real" where
  "halfChord r0 r1 d = sqrt (max 0 (r0 * r0 - radicalOffset r0 r1 d * radicalOffset r0 r1 d))"

text \<open>
  A four-bar configuration whose coupler and rocker circles are nested within the tolerance
  at drive angle 0.
\<close>

definition fourBarNested :: MechanismConfig where
  "fourBarNested =
     \<lparr>ident = ''n'', type = FourBar, visible = True, color = ''#3b82f6'',
      anchorX = None, anchorY = None, groundAngle = None,
      crankLength = 100, groundLength = 2001 / 20, couplerLength = 10, rockerLength = 99 / 10,
      sliderOffset = 0, couplerPointDist = 80, couplerPointAngle = 45,
      speed1 = None, speed2 = None, gearRatio = None, rodLength = None, phase = None,
      showOutputGear = None, outputGearRadius = None\<rparr>"

text \<open>
  What the loop maintains: the population is full and the global-best score is a finite,
  non-negative number.
\<close>

definition driverInv :: "DriverState \<Rightarrow> bool" where
  "driverInv s = (length (population s) = POPULATION_SIZE \<and> (\<exists>v\<ge>0. globalBestScore s = Fin v))"

text \<open>A target path of three points.\<close>

definition threePoints :: "Point list" where
  "threePoints = [Point 0 0, Point 1 0, Point 2 0]"

text \<open>
  The exact results that the repair rounds on a run, in the order it computes them: those of
  the grow step (the last four only when it fires) and those of the pull step (only when it
  fires). The two differences that only steer the test of the pull step are left out: the
  property below holds whichever way that test goes. \<open>noRangeError\<close>: none of these results
  overflows or underflows.
\<close>

definition growRounded :: "(real \<Rightarrow> real) \<Rightarrow> MechanismConfig \<Rightarrow> real list" where
  "growRounded fl conf =
     (let t1 = \<bar>groundLength conf\<bar> + \<bar>crankLength conf\<bar>;
          t2 = fl t1 + \<bar>rockerLength conf\<bar>;
          maxSeparation = fl t2;
          t3 = \<bar>couplerLength conf\<bar> + \<bar>orElse (rodLength conf) 100\<bar>;
          currentTotalArm = fl t3;
          t4 = maxSeparation * fl (115 / 100);
          minTotalArm = fl t4
      in [t1, t2, t3, 115 / 100, t4] @
         (if currentTotalArm < minTotalArm then
            let t5 = minTotalArm - currentTotalArm;
                t6 = fl t5 / 2
            in [t5, t6, couplerLength conf + fl t6, orElse (rodLength conf) 100 + fl t6]
          else []))"

definition pullRounded :: "(real \<Rightarrow> real) \<Rightarrow> MechanismConfig \<Rightarrow> real list" where
  "pullRounded fl conf =
     (let armDiff = \<bar>fl (couplerLength conf - orElse (rodLength conf) 100)\<bar>;
          minSeparation =
            max 0 (fl (fl (\<bar>groundLength conf\<bar> - \<bar>crankLength conf\<bar>) - \<bar>rockerLength conf\<bar>))
      in if armDiff > minSeparation then
           let t1 = couplerLength conf + orElse (rodLength conf) 100;
               t2 = fl t1 / 2;
               t3 = couplerLength conf + fl t2;
               t4 = fl t3 / 2;
               t5 = orElse (rodLength conf) 100 + fl t2;
               t6 = fl t5 / 2
           in [t1, t2, t3, t4, t5, t6]
         else [])"

definition noRangeError :: "(real \<Rightarrow> real) \<Rightarrow> MechanismConfig \<Rightarrow> bool" where
  "noRangeError fl conf =
     list_all normalRange (growRounded fl conf @ pullRounded fl (growArmsFl fl conf))"

text \<open>A five-bar configuration whose arms are too short, so that both steps fire.\<close>

definition fiveBarShortArms :: MechanismConfig where
  "fiveBarShortArms =
     \<lparr>ident = ''s'', type = FiveBar, visible = True, color = ''#eab308'',
      anchorX = None, anchorY = None, groundAngle = None,
      crankLength = 1, groundLength = 1, couplerLength = 0, rockerLength = 10,
      sliderOffset = 0, couplerPointDist = 0, couplerPointAngle = 0,
      speed1 = None, speed2 = None, gearRatio = None, rodLength = Some 7, phase = None,
      showOutputGear = None, outputGearRadius = None\<rparr>"

section \<open>Properties of the kinematics\<close>

lemma crank_isValid: "type c = Crank \<Longrightarrow> isValid (calculateLinkage c a)"
  by (simp add: calculateLinkage_def Let_def)

text \<open>
  Claim C7. \<open>getCircleIntersection\<close> returns \<open>null\<close> exactly when the distance \<open>d\<close> of
  the centres satisfies \<open>d > r0 + r1 + 0.1\<close>, or \<open>d < |r0 - r1| - 0.1\<close>, or \<open>d = 0\<close>; in
  every other case it returns a point.
\<close>

theorem getCircleIntersection_None_iff:
  "(getCircleIntersection c0 r0 c1 r1 flip = None) =
     (centreDist c0 c1 > r0 + r1 + 1 / 10 \<or> centreDist c0 c1 < \<bar>r0 - r1\<bar> - 1 / 10
        \<or> centreDist c0 c1 = 0)"
  by (simp add: getCircleIntersection_def centreDist_def EPSILON_def Let_def power2_eq_square)

text \<open>
  Claim C5. For a piston (slider-crank) configuration and any drive angle,
  \<open>calculateLinkage\<close> reports \<open>isValid = false\<close> if and only if
  \<open>|sliderOffset - localJ1y| > couplerLength\<close>.
\<close>

theorem piston_invalid_iff:
  "type c = Piston \<Longrightarrow>
     (\<not> isValid (calculateLinkage c a)) = (\<bar>sliderOffset c - localJ1y c a\<bar> > couplerLength c)"
  by (simp add: calculateLinkage_def Let_def localJ1y_def crankTip_def)

theorem piston_invalid_iff_witness:
  "type presetPiston = Piston \<and>
     (\<not> isValid (calculateLinkage presetPiston 0)) =
       (\<bar>sliderOffset presetPiston - localJ1y presetPiston 0\<bar> > couplerLength presetPiston)"
  using piston_invalid_iff [of presetPiston 0] by (simp add: presetPiston_def)

text \<open>
  Claim C10. For a configuration of variant crank, yoke or quick-return and any drive
  angle, \<open>calculateLinkage\<close> returns \<open>isValid = true\<close>: these branches have no failure
  exit.
\<close>

theorem crank_yoke_quickReturn_isValid:
  "type c = Crank \<or> type c = Yoke \<or> type c = QuickReturn \<Longrightarrow> isValid (calculateLinkage c a)"
  by (auto simp: calculateLinkage_def Let_def)

theorem crank_yoke_quickReturn_isValid_witness:
  "(type presetYoke = Crank \<or> type presetYoke = Yoke \<or> type presetYoke = QuickReturn)
     \<and> isValid (calculateLinkage presetYoke 0)"
  using crank_yoke_quickReturn_isValid [of presetYoke 0] by (simp add: presetYoke_def)

section \<open>Geometry of the circle intersection\<close>

subsection \<open>The returned point\<close>

lemma centreDist_nonneg: "0 \<le> centreDist a b"
  by (simp add: centreDist_def)

lemma centreDist_sq: "(centreDist a b)\<^sup>2 = (px b - px a)\<^sup>2 + (py b - py a)\<^sup>2"
  by (simp add: centreDist_def)

lemma centreDist_on_axis: "centreDist (Point x0 y0) (Point x1 y0) = \<bar>x1 - x0\<bar>"
  by (simp add: centreDist_def)

lemma rotate_norm:
  fixes u v a k d :: real
  assumes "d \<noteq> 0" "d\<^sup>2 = u\<^sup>2 + v\<^sup>2"
  shows "((u * a) / d + (k * v) / d)\<^sup>2 + ((v * a) / d - (k * u) / d)\<^sup>2 = a\<^sup>2 + k\<^sup>2"
proof -
  have "((u * a) / d + (k * v) / d)\<^sup>2 + ((v * a) / d - (k * u) / d)\<^sup>2
          = ((u\<^sup>2 + v\<^sup>2) * (a\<^sup>2 + k\<^sup>2)) / d\<^sup>2"
    using assms(1) by (simp add: field_simps power2_eq_square)
  also have "\<dots> = (d\<^sup>2 * (a\<^sup>2 + k\<^sup>2)) / d\<^sup>2" by (simp only: assms(2))
  also have "\<dots> = a\<^sup>2 + k\<^sup>2" using assms(1) by simp
  finally show ?thesis .
qed

lemma gci_None_iff:
  "(getCircleIntersection c0 r0 c1 r1 flip = None) =
     (centreDist c0 c1 > r0 + r1 + 1 / 10 \<or> centreDist c0 c1 < \<bar>r0 - r1\<bar> - 1 / 10
        \<or> centreDist c0 c1 = 0)"
  by (simp add: getCircleIntersection_def centreDist_def EPSILON_def Let_def power2_eq_square)

lemma gci_flip_Some:
  assumes "getCircleIntersection c0 r0 c1 r1 flip = Some q"
  shows "\<exists>q'. getCircleIntersection c0 r0 c1 r1 flip' = Some q'"
proof -
  have "getCircleIntersection c0 r0 c1 r1 flip \<noteq> None" using assms by simp
  then have "getCircleIntersection c0 r0 c1 r1 flip' \<noteq> None"
    unfolding gci_None_iff .
  then show ?thesis by blast
qed

lemma gci_Some:
  assumes "getCircleIntersection c0 r0 c1 r1 flip = Some q"
  defines "d \<equiv> centreDist c0 c1"
  shows "0 < d" "d \<le> r0 + r1 + 1 / 10" "\<bar>r0 - r1\<bar> - 1 / 10 \<le> d"
    and "px q = px c0 + ((px c1 - px c0) * radicalOffset r0 r1 d) / d
                  + (if flip then - 1 else 1) * (halfChord r0 r1 d * (py c1 - py c0)) / d"
    and "py q = py c0 + ((py c1 - py c0) * radicalOffset r0 r1 d) / d
                  - (if flip then - 1 else 1) * (halfChord r0 r1 d * (px c1 - px c0)) / d"
proof -
  have d: "d = sqrt ((px c1 - px c0) * (px c1 - px c0) + (py c1 - py c0) * (py c1 - py c0))"
    by (simp add: d_def centreDist_def power2_eq_square)
  have g: "\<not> (d > r0 + r1 + 1 / 10 \<or> d < \<bar>r0 - r1\<bar> - 1 / 10 \<or> d = 0)"
    using assms(1) unfolding getCircleIntersection_def d [symmetric] Let_def EPSILON_def
    by (auto split: if_splits)
  have "0 \<le> d" unfolding d_def by (rule centreDist_nonneg)
  then show "0 < d" "d \<le> r0 + r1 + 1 / 10" "\<bar>r0 - r1\<bar> - 1 / 10 \<le> d" using g by auto
  have q: "q = (if flip
      then Point (px c0 + ((px c1 - px c0) * radicalOffset r0 r1 d) / d - (halfChord r0 r1 d * (py c1 - py c0)) / d)
                 (py c0 + ((py c1 - py c0) * radicalOffset r0 r1 d) / d + (halfChord r0 r1 d * (px c1 - px c0)) / d)
      else Point (px c0 + ((px c1 - px c0) * radicalOffset r0 r1 d) / d + (halfChord r0 r1 d * (py c1 - py c0)) / d)
                 (py c0 + ((py c1 - py c0) * radicalOffset r0 r1 d) / d - (halfChord r0 r1 d * (px c1 - px c0)) / d))"
    using assms(1) g unfolding getCircleIntersection_def d [symmetric] Let_def EPSILON_def
      halfChord_def radicalOffset_def
    by (simp split: if_splits)
  show "px q = px c0 + ((px c1 - px c0) * radicalOffset r0 r1 d) / d
                  + (if flip then - 1 else 1) * (halfChord r0 r1 d * (py c1 - py c0)) / d"
    by (simp add: q)
  show "py q = py c0 + ((py c1 - py c0) * radicalOffset r0 r1 d) / d
                  - (if flip then - 1 else 1) * (halfChord r0 r1 d * (px c1 - px c0)) / d"
    by (simp add: q)
qed

lemma gci_dist:
  assumes "getCircleIntersection c0 r0 c1 r1 flip = Some q"
  defines "d \<equiv> centreDist c0 c1"
  shows "centreDist c0 q = sqrt ((radicalOffset r0 r1 d)\<^sup>2 + (halfChord r0 r1 d)\<^sup>2)"
    and "centreDist c1 q = sqrt ((radicalOffset r0 r1 d - d)\<^sup>2 + (halfChord r0 r1 d)\<^sup>2)"
proof -
  let ?a = "radicalOffset r0 r1 d" and ?k = "halfChord r0 r1 d"
  let ?u = "px c1 - px c0" and ?v = "py c1 - py c0"
  let ?s = "if flip then - 1 else 1 :: real"
  note S = gci_Some [OF assms(1), folded d_def]
  have d0: "d \<noteq> 0" using S(1) by simp
  have dd: "d\<^sup>2 = ?u\<^sup>2 + ?v\<^sup>2" unfolding d_def by (rule centreDist_sq)
  have x0: "px q - px c0 = (?u * ?a) / d + ((?s * ?k) * ?v) / d" using S(4) by simp
  have y0: "py q - py c0 = (?v * ?a) / d - ((?s * ?k) * ?u) / d" using S(5) by simp
  have "(px q - px c0)\<^sup>2 + (py q - py c0)\<^sup>2 = ?a\<^sup>2 + (?s * ?k)\<^sup>2"
    unfolding x0 y0 by (rule rotate_norm [OF d0 dd])
  also have "(?s * ?k)\<^sup>2 = ?k\<^sup>2" by (simp add: power2_eq_square)
  finally show "centreDist c0 q = sqrt (?a\<^sup>2 + ?k\<^sup>2)" by (simp add: centreDist_def)
  have x1: "px q - px c1 = (?u * (?a - d)) / d + ((?s * ?k) * ?v) / d"
    using S(4) d0 by (simp add: field_simps)
  have y1: "py q - py c1 = (?v * (?a - d)) / d - ((?s * ?k) * ?u) / d"
    using S(5) d0 by (simp add: field_simps)
  have "(px q - px c1)\<^sup>2 + (py q - py c1)\<^sup>2 = (?a - d)\<^sup>2 + (?s * ?k)\<^sup>2"
    unfolding x1 y1 by (rule rotate_norm [OF d0 dd])
  also have "(?s * ?k)\<^sup>2 = ?k\<^sup>2" by (simp add: power2_eq_square)
  finally show "centreDist c1 q = sqrt ((?a - d)\<^sup>2 + ?k\<^sup>2)" by (simp add: centreDist_def)
qed

lemma gci_on_axis:
  assumes "0 < t"
  shows "getCircleIntersection (Point x0 y0) r0 (Point (x0 + t) y0) r1 flip =
     (if t > r0 + r1 + 1 / 10 \<or> t < \<bar>r0 - r1\<bar> - 1 / 10 then None
      else Some (Point (x0 + radicalOffset r0 r1 t)
                       (y0 - (if flip then - 1 else 1) * halfChord r0 r1 t)))"
  using assms
  by (simp add: getCircleIntersection_def Let_def EPSILON_def radicalOffset_def halfChord_def)

subsection \<open>The offset of the radical line\<close>

lemma radicalOffset_minus:
  assumes "d \<noteq> 0"
  shows "radicalOffset r0 r1 d - r0 = ((d - r0 - r1) * (d - r0 + r1)) / (2 * d)"
  using assms by (simp add: radicalOffset_def field_simps)

lemma radicalOffset_plus:
  assumes "d \<noteq> 0"
  shows "radicalOffset r0 r1 d + r0 = ((d + r0 - r1) * (d + r0 + r1)) / (2 * d)"
  using assms by (simp add: radicalOffset_def field_simps)

lemma radicalOffset_shift:
  assumes "d \<noteq> 0"
  shows "(radicalOffset r0 r1 d - d)\<^sup>2 - r1\<^sup>2 = (radicalOffset r0 r1 d)\<^sup>2 - r0\<^sup>2"
  using assms by (simp add: radicalOffset_def field_simps power2_eq_square)

lemma radicalOffset_swap:
  assumes "d \<noteq> 0"
  shows "radicalOffset r1 r0 d = d - radicalOffset r0 r1 d"
  using assms by (simp add: radicalOffset_def field_simps)

lemma radicalOffset_square_gap:
  assumes "d \<noteq> 0"
  shows "r0\<^sup>2 - (radicalOffset r0 r1 d)\<^sup>2
           = (((r0 + r1)\<^sup>2 - d\<^sup>2) * (d\<^sup>2 - (r0 - r1)\<^sup>2)) / (4 * d\<^sup>2)"
  using assms by (simp add: radicalOffset_def field_simps power2_eq_square)

text \<open>
  With the half chord cut off at 0, the returned point is at distance
  \<open>max |a| |r0|\<close> from the first centre.
\<close>

lemma sqrt_cut:
  fixes x r :: real
  shows "sqrt (x\<^sup>2 + (sqrt (max 0 (r * r - x * x)))\<^sup>2) = max \<bar>x\<bar> \<bar>r\<bar>"
proof (cases "x\<^sup>2 \<le> r\<^sup>2")
  case True
  then have "\<bar>x\<bar> \<le> \<bar>r\<bar>" by (rule iffD2 [OF abs_le_square_iff])
  moreover have "x\<^sup>2 + (sqrt (max 0 (r * r - x * x)))\<^sup>2 = r\<^sup>2"
    using True by (simp add: power2_eq_square)
  ultimately show ?thesis by simp
next
  case False
  then have "\<not> \<bar>x\<bar> \<le> \<bar>r\<bar>" using abs_le_square_iff [of x r] by simp
  moreover have "x\<^sup>2 + (sqrt (max 0 (r * r - x * x)))\<^sup>2 = x\<^sup>2"
    using False by (simp add: power2_eq_square)
  ultimately show ?thesis by simp
qed

lemma abs_less_square:
  fixes x y :: real
  shows "(\<bar>x\<bar> < \<bar>y\<bar>) = (x\<^sup>2 < y\<^sup>2)"
  by (metis abs_le_square_iff linorder_not_le)

lemma unit_fraction:
  fixes u n m e :: real
  assumes "0 \<le> u" "u \<le> e" "0 \<le> n" "n \<le> m" "0 < m"
  shows "0 \<le> (u * n) / m" "(u * n) / m \<le> e"
proof -
  show "0 \<le> (u * n) / m" using assms by simp
  have "u * n \<le> u * m" using assms by (intro mult_left_mono) simp_all
  also have "\<dots> \<le> e * m" using assms by (intro mult_right_mono) simp_all
  finally show "(u * n) / m \<le> e" using assms(5) by (simp add: pos_divide_le_eq)
qed

text \<open>
  The bound behind the tolerance: for circles that are not nested and pass the guard,
  \<open>max |a| |r0|\<close> differs from \<open>r0\<close> by at most the tolerance \<open>e\<close>.
\<close>

lemma offset_bound:
  assumes "0 < d" "\<bar>r0 - r1\<bar> \<le> d" "d \<le> r0 + r1 + e" "0 \<le> e"
  shows "\<bar>max \<bar>radicalOffset r0 r1 d\<bar> \<bar>r0\<bar> - r0\<bar> \<le> e"
proof -
  let ?a = "radicalOffset r0 r1 d"
  have d0: "d \<noteq> 0" using assms(1) by simp
  have n: "0 \<le> d - r0 + r1" "d - r0 + r1 \<le> 2 * d" "0 \<le> d + r0 - r1" using assms(2) by linarith+
  show ?thesis
  proof (cases "d < r0 + r1")
    case True
    have "(d - r0 - r1) * (d - r0 + r1) \<le> 0"
      using True n by (intro mult_nonpos_nonneg) simp_all
    then have 1: "?a - r0 \<le> 0"
      unfolding radicalOffset_minus [OF d0] using assms(1) by (simp add: divide_le_0_iff)
    have "0 \<le> (d + r0 - r1) * (d + r0 + r1)"
      using True n assms(1) by (intro mult_nonneg_nonneg) simp_all
    then have 2: "0 \<le> ?a + r0"
      unfolding radicalOffset_plus [OF d0] using assms(1) by simp
    have "\<bar>?a\<bar> \<le> r0" using 1 2 by linarith
    then have "max \<bar>?a\<bar> \<bar>r0\<bar> = r0" by simp
    then show ?thesis using assms(4) by simp
  next
    case False
    have u: "0 \<le> d - r0 - r1" "d - r0 - r1 \<le> e" using False assms(3) by simp_all
    have m: "0 < 2 * d" using assms(1) by simp
    note A = unit_fraction [OF u n(1,2) m, folded radicalOffset_minus [OF d0]]
    have r: "- (2 * r0) \<le> e" using assms(2,3) by linarith
    show ?thesis using A r by (simp add: max_def abs_if)
  qed
qed

lemma halfChord_zero_iff:
  "(halfChord r0 r1 d = 0) = (r0\<^sup>2 \<le> (radicalOffset r0 r1 d)\<^sup>2)"
  by (auto simp: halfChord_def power2_eq_square max_def)

lemma halfChord_pos_iff:
  assumes "0 < d" "\<bar>r0 - r1\<bar> \<le> d"
  shows "(halfChord r0 r1 d \<noteq> 0) = (\<bar>r0 - r1\<bar> < d \<and> d < \<bar>r0 + r1\<bar>)"
proof -
  let ?a = "radicalOffset r0 r1 d"
  have d0: "d \<noteq> 0" using assms(1) by simp
  have dd: "0 < 4 * d\<^sup>2" using assms(1) by simp
  have lo: "0 \<le> d\<^sup>2 - (r0 - r1)\<^sup>2"
    using assms abs_le_square_iff [of "r0 - r1" d] by simp
  have "(halfChord r0 r1 d \<noteq> 0) = (0 < r0\<^sup>2 - ?a\<^sup>2)"
    unfolding halfChord_zero_iff by auto
  also have "\<dots> = (0 < ((r0 + r1)\<^sup>2 - d\<^sup>2) * (d\<^sup>2 - (r0 - r1)\<^sup>2))"
    unfolding radicalOffset_square_gap [OF d0] using dd by (simp add: zero_less_divide_iff)
  also have "\<dots> = (0 < (r0 + r1)\<^sup>2 - d\<^sup>2 \<and> 0 < d\<^sup>2 - (r0 - r1)\<^sup>2)"
    using lo by (auto simp: zero_less_mult_iff)
  also have "\<dots> = (\<bar>d\<bar> < \<bar>r0 + r1\<bar> \<and> \<bar>r0 - r1\<bar> < \<bar>d\<bar>)"
    using abs_less_square [of d "r0 + r1"] abs_less_square [of "r0 - r1" d] by simp
  also have "\<dots> = (\<bar>r0 - r1\<bar> < d \<and> d < \<bar>r0 + r1\<bar>)" using assms(1) by auto
  finally show ?thesis .
qed

subsection \<open>Distances of the returned point from the centres\<close>

text \<open>
  For circles that are not nested the returned point is within the tolerance of both
  circles: on both when they meet, on the line of the centres when they are apart.
\<close>

lemma gci_within:
  assumes "getCircleIntersection c0 r0 c1 r1 flip = Some q" "\<bar>r0 - r1\<bar> \<le> centreDist c0 c1"
  shows "\<bar>centreDist c0 q - r0\<bar> \<le> 1 / 10" "\<bar>centreDist c1 q - r1\<bar> \<le> 1 / 10"
proof -
  define d where "d = centreDist c0 c1"
  let ?a = "radicalOffset r0 r1 d"
  note S = gci_Some [OF assms(1), folded d_def]
  note D = gci_dist [OF assms(1), folded d_def]
  have d0: "d \<noteq> 0" using S(1) by simp
  have nest: "\<bar>r0 - r1\<bar> \<le> d" "\<bar>r1 - r0\<bar> \<le> d" using assms(2) by (simp_all add: d_def)
  have g: "d \<le> r0 + r1 + 1 / 10" "d \<le> r1 + r0 + 1 / 10" using S(2) by simp_all
  have e: "(0::real) \<le> 1 / 10" by simp
  have 0: "centreDist c0 q = max \<bar>?a\<bar> \<bar>r0\<bar>"
    unfolding D halfChord_def by (rule sqrt_cut)
  have sh: "r0 * r0 - ?a * ?a = r1 * r1 - (?a - d) * (?a - d)"
    using radicalOffset_shift [OF d0, of r0 r1] by (simp add: power2_eq_square)
  have "centreDist c1 q = max \<bar>?a - d\<bar> \<bar>r1\<bar>"
    unfolding D halfChord_def sh by (rule sqrt_cut)
  also have "\<bar>?a - d\<bar> = \<bar>radicalOffset r1 r0 d\<bar>"
    unfolding radicalOffset_swap [OF d0, of r1 r0] by simp
  finally have 1: "centreDist c1 q = max \<bar>radicalOffset r1 r0 d\<bar> \<bar>r1\<bar>" .
  show "\<bar>centreDist c0 q - r0\<bar> \<le> 1 / 10"
    unfolding 0 by (rule offset_bound [OF S(1) nest(1) g(1) e])
  show "\<bar>centreDist c1 q - r1\<bar> \<le> 1 / 10"
    unfolding 1 by (rule offset_bound [OF S(1) nest(2) g(2) e])
qed

lemma gci_flip_eq_iff:
  assumes "getCircleIntersection c0 r0 c1 r1 False = Some qa"
    "getCircleIntersection c0 r0 c1 r1 True = Some qb"
  shows "(qa = qb) = (halfChord r0 r1 (centreDist c0 c1) = 0)"
proof -
  define d where "d = centreDist c0 c1"
  let ?k = "halfChord r0 r1 d"
  let ?u = "px c1 - px c0" and ?v = "py c1 - py c0"
  note A = gci_Some [OF assms(1), folded d_def]
  note B = gci_Some [OF assms(2), folded d_def]
  have d0: "d \<noteq> 0" using A(1) by simp
  have dd: "d\<^sup>2 = ?u\<^sup>2 + ?v\<^sup>2" unfolding d_def by (rule centreDist_sq)
  have uv: "\<not> (?u = 0 \<and> ?v = 0)"
  proof
    assume "?u = 0 \<and> ?v = 0"
    then have "d\<^sup>2 = 0" using dd by simp
    then show False using d0 by simp
  qed
  have "(qa = qb) = (px qa = px qb \<and> py qa = py qb)" by (auto intro: Point.expand)
  also have "\<dots> = (?k * ?v = 0 \<and> ?k * ?u = 0)"
    unfolding A(4) A(5) B(4) B(5) using d0 by (auto simp: field_simps)
  also have "\<dots> = (?k = 0)" using uv by auto
  finally show ?thesis unfolding d_def .
qed

text \<open>
  Claim C8, as amended. Whenever \<open>getCircleIntersection\<close> returns a point for circles
  that are not nested (the distance \<open>d\<close> of the centres is at least \<open>|r0 - r1|\<close>), it
  returns a point for \<open>flip = false\<close> and for \<open>flip = true\<close>, both at distance \<open>r0\<close>
  from the first centre and \<open>r1\<close> from the second to within 0.1, and the two points are
  distinct exactly when \<open>|r0 - r1| < d < |r0 + r1|\<close>, that is, when the circles cross in
  two points.
\<close>

theorem getCircleIntersection_two_results:
  assumes "getCircleIntersection c0 r0 c1 r1 flip = Some q" "\<bar>r0 - r1\<bar> \<le> centreDist c0 c1"
  shows "\<exists>qa qb. getCircleIntersection c0 r0 c1 r1 False = Some qa
           \<and> getCircleIntersection c0 r0 c1 r1 True = Some qb
           \<and> \<bar>centreDist c0 qa - r0\<bar> \<le> 1 / 10 \<and> \<bar>centreDist c1 qa - r1\<bar> \<le> 1 / 10
           \<and> \<bar>centreDist c0 qb - r0\<bar> \<le> 1 / 10 \<and> \<bar>centreDist c1 qb - r1\<bar> \<le> 1 / 10
           \<and> (qa \<noteq> qb) = (\<bar>r0 - r1\<bar> < centreDist c0 c1 \<and> centreDist c0 c1 < \<bar>r0 + r1\<bar>)"
proof -
  obtain qa where a: "getCircleIntersection c0 r0 c1 r1 False = Some qa"
    using gci_flip_Some [OF assms(1)] by blast
  obtain qb where b: "getCircleIntersection c0 r0 c1 r1 True = Some qb"
    using gci_flip_Some [OF assms(1)] by blast
  note A = gci_within [OF a assms(2)]
  note B = gci_within [OF b assms(2)]
  have d: "0 < centreDist c0 c1" by (rule gci_Some(1) [OF a])
  have "(qa \<noteq> qb) = (\<bar>r0 - r1\<bar> < centreDist c0 c1 \<and> centreDist c0 c1 < \<bar>r0 + r1\<bar>)"
    using gci_flip_eq_iff [OF a b] halfChord_pos_iff [OF d assms(2)] by simp
  then show ?thesis using a b A B by blast
qed

theorem getCircleIntersection_two_results_witness:
  "getCircleIntersection (Point 0 0) 5 (Point 6 0) 5 False = Some (Point 3 (- halfChord 5 5 6))
   \<and> \<bar>5 - 5\<bar> \<le> centreDist (Point 0 0) (Point 6 0)
   \<and> (\<exists>qa qb. getCircleIntersection (Point 0 0) 5 (Point 6 0) 5 False = Some qa
           \<and> getCircleIntersection (Point 0 0) 5 (Point 6 0) 5 True = Some qb
           \<and> \<bar>centreDist (Point 0 0) qa - 5\<bar> \<le> 1 / 10 \<and> \<bar>centreDist (Point 6 0) qa - 5\<bar> \<le> 1 / 10
           \<and> \<bar>centreDist (Point 0 0) qb - 5\<bar> \<le> 1 / 10 \<and> \<bar>centreDist (Point 6 0) qb - 5\<bar> \<le> 1 / 10
           \<and> (qa \<noteq> qb) = (\<bar>5 - 5\<bar> < centreDist (Point 0 0) (Point 6 0)
                \<and> centreDist (Point 0 0) (Point 6 0) < \<bar>5 + 5\<bar>))"
proof -
  have g: "getCircleIntersection (Point 0 0) 5 (Point 6 0) 5 False = Some (Point 3 (- halfChord 5 5 6))"
    using gci_on_axis [of 6 0 0 5 5 False] by (simp add: radicalOffset_def)
  have h: "\<bar>5 - 5\<bar> \<le> centreDist (Point 0 0) (Point 6 0)"
    by (simp add: centreDist_on_axis)
  show ?thesis
    using g h getCircleIntersection_two_results [OF g h] by blast
qed

text \<open>
  The claim as stated fails within the tolerance bands. Two unit circles at distance 2.05
  are not tangent, and both results are the one point \<open>(1.025, 0)\<close>. Circles of radii
  10 and 9.9 at distance 0.05 are nested; the result \<open>(19.925, 0)\<close> is 9.925 off the
  first circle.
\<close>

theorem getCircleIntersection_counterexample:
  "getCircleIntersection (Point 0 0) 1 (Point (41 / 20) 0) 1 False = Some (Point (41 / 40) 0)
   \<and> getCircleIntersection (Point 0 0) 1 (Point (41 / 20) 0) 1 True = Some (Point (41 / 40) 0)
   \<and> centreDist (Point 0 0) (Point (41 / 20) 0) \<noteq> 1 + 1
   \<and> centreDist (Point 0 0) (Point (41 / 20) 0) \<noteq> \<bar>1 - 1\<bar>
   \<and> getCircleIntersection (Point 0 0) 10 (Point (1 / 20) 0) (99 / 10) False = Some (Point (797 / 40) 0)
   \<and> \<bar>centreDist (Point 0 0) (Point (797 / 40) 0) - 10\<bar> > 1 / 10"
  using gci_on_axis [of "41 / 20" 0 0 1 1 False] gci_on_axis [of "41 / 20" 0 0 1 1 True]
    gci_on_axis [of "1 / 20" 0 0 10 "99 / 10" False]
  by (simp add: radicalOffset_def halfChord_def centreDist_on_axis)

section \<open>The four-bar linkage\<close>

lemma fourBar_state:
  assumes "type c = FourBar"
  shows "j1 (calculateLinkage c a) = crankTip c a"
    and "p2 (calculateLinkage c a) =
           Point (nullish (anchorX c) 0 + groundLength c * cos (toRad (nullish (groundAngle c) 0)))
                 (nullish (anchorY c) 0 + groundLength c * sin (toRad (nullish (groundAngle c) 0)))"
    and "isValid (calculateLinkage c a) \<Longrightarrow>
           getCircleIntersection (j1 (calculateLinkage c a)) (couplerLength c)
             (p2 (calculateLinkage c a)) (rockerLength c) False = Some (j2 (calculateLinkage c a))"
    and "getCircleIntersection (j1 (calculateLinkage c a)) (couplerLength c)
             (p2 (calculateLinkage c a)) (rockerLength c) False = Some q
           \<Longrightarrow> isValid (calculateLinkage c a) \<and> j2 (calculateLinkage c a) = q"
  using assms
  by (simp_all add: calculateLinkage_def Let_def crankTip_def split: option.splits)

lemma presetCrankRocker_state:
  "j1 (calculateLinkage presetCrankRocker 0) = Point 50 0"
  "p2 (calculateLinkage presetCrankRocker 0) = Point 180 0"
  "isValid (calculateLinkage presetCrankRocker 0)"
proof -
  have t: "type presetCrankRocker = FourBar" by (simp add: presetCrankRocker_def)
  show 1: "j1 (calculateLinkage presetCrankRocker 0) = Point 50 0"
    unfolding fourBar_state(1) [OF t]
    by (simp add: crankTip_def presetCrankRocker_def nullish_def)
  show 2: "p2 (calculateLinkage presetCrankRocker 0) = Point 180 0"
    unfolding fourBar_state(2) [OF t]
    by (simp add: presetCrankRocker_def nullish_def toRad_def)
  have l: "couplerLength presetCrankRocker = 180" "rockerLength presetCrankRocker = 120"
    by (simp_all add: presetCrankRocker_def)
  have "\<exists>q. getCircleIntersection (j1 (calculateLinkage presetCrankRocker 0))
          (couplerLength presetCrankRocker) (p2 (calculateLinkage presetCrankRocker 0))
          (rockerLength presetCrankRocker) False = Some q"
    unfolding 1 2 l using gci_on_axis [of 130 50 0 180 120 False] by simp
  then show "isValid (calculateLinkage presetCrankRocker 0)"
    using fourBar_state(4) [OF t] by blast
qed

lemma fourBar_on_axis:
  assumes "type c = FourBar" "anchorX c = None" "anchorY c = None" "groundAngle c = None"
    "speed1 c = None" "crankLength c < groundLength c"
    "\<not> (groundLength c - crankLength c > couplerLength c + rockerLength c + 1 / 10
         \<or> groundLength c - crankLength c < \<bar>couplerLength c - rockerLength c\<bar> - 1 / 10)"
  shows "isValid (calculateLinkage c 0)" "j1 (calculateLinkage c 0) = Point (crankLength c) 0"
    and "j2 (calculateLinkage c 0)
           = Point (crankLength c + radicalOffset (couplerLength c) (rockerLength c)
                                       (groundLength c - crankLength c))
                   (- halfChord (couplerLength c) (rockerLength c) (groundLength c - crankLength c))"
proof -
  let ?s = "calculateLinkage c 0"
  let ?t = "groundLength c - crankLength c"
  show 1: "j1 ?s = Point (crankLength c) 0"
    using assms by (simp add: fourBar_state(1) crankTip_def nullish_def)
  have 2: "p2 ?s = Point (crankLength c + ?t) 0"
    using assms by (simp add: fourBar_state(2) nullish_def toRad_def)
  have t: "0 < ?t" using assms(6) by simp
  have "getCircleIntersection (j1 ?s) (couplerLength c) (p2 ?s) (rockerLength c) False
          = Some (Point (crankLength c + radicalOffset (couplerLength c) (rockerLength c) ?t)
                        (- halfChord (couplerLength c) (rockerLength c) ?t))"
    unfolding 1 2 gci_on_axis [OF t] using assms(7) by simp
  then show "isValid ?s" and "j2 ?s
           = Point (crankLength c + radicalOffset (couplerLength c) (rockerLength c) ?t)
                   (- halfChord (couplerLength c) (rockerLength c) ?t)"
    using fourBar_state(4) [OF assms(1)] by blast+
qed

text \<open>
  Claim C6, as amended. For a four-bar configuration and a drive angle at which
  \<open>calculateLinkage\<close> reports \<open>isValid = true\<close> and the coupler circle round J1 and the
  rocker circle round P2 are not nested (\<open>dist(J1, P2) \<ge> |couplerLength - rockerLength|\<close>),
  the returned joints satisfy \<open>|dist(J1, J2) - couplerLength| \<le> 0.1\<close> and
  \<open>|dist(P2, J2) - rockerLength| \<le> 0.1\<close>.
\<close>

theorem fourBar_distances:
  assumes "type c = FourBar" "isValid (calculateLinkage c a)"
    "\<bar>couplerLength c - rockerLength c\<bar>
       \<le> centreDist (j1 (calculateLinkage c a)) (p2 (calculateLinkage c a))"
  shows "\<bar>centreDist (j1 (calculateLinkage c a)) (j2 (calculateLinkage c a)) - couplerLength c\<bar> \<le> 1 / 10
       \<and> \<bar>centreDist (p2 (calculateLinkage c a)) (j2 (calculateLinkage c a)) - rockerLength c\<bar> \<le> 1 / 10"
  using gci_within [OF fourBar_state(3) [OF assms(1,2)] assms(3)] by simp

theorem fourBar_distances_witness:
  "type presetCrankRocker = FourBar \<and> isValid (calculateLinkage presetCrankRocker 0)
   \<and> \<bar>couplerLength presetCrankRocker - rockerLength presetCrankRocker\<bar>
       \<le> centreDist (j1 (calculateLinkage presetCrankRocker 0)) (p2 (calculateLinkage presetCrankRocker 0))
   \<and> \<bar>centreDist (j1 (calculateLinkage presetCrankRocker 0)) (j2 (calculateLinkage presetCrankRocker 0))
         - couplerLength presetCrankRocker\<bar> \<le> 1 / 10
   \<and> \<bar>centreDist (p2 (calculateLinkage presetCrankRocker 0)) (j2 (calculateLinkage presetCrankRocker 0))
         - rockerLength presetCrankRocker\<bar> \<le> 1 / 10"
proof -
  have h: "type presetCrankRocker = FourBar" "isValid (calculateLinkage presetCrankRocker 0)"
    "\<bar>couplerLength presetCrankRocker - rockerLength presetCrankRocker\<bar>
       \<le> centreDist (j1 (calculateLinkage presetCrankRocker 0)) (p2 (calculateLinkage presetCrankRocker 0))"
  proof -
    show "type presetCrankRocker = FourBar" by (simp add: presetCrankRocker_def)
    show "isValid (calculateLinkage presetCrankRocker 0)" by (rule presetCrankRocker_state(3))
    have "\<bar>couplerLength presetCrankRocker - rockerLength presetCrankRocker\<bar> = 60"
      by (simp add: presetCrankRocker_def)
    then show "\<bar>couplerLength presetCrankRocker - rockerLength presetCrankRocker\<bar>
       \<le> centreDist (j1 (calculateLinkage presetCrankRocker 0)) (p2 (calculateLinkage presetCrankRocker 0))"
      unfolding presetCrankRocker_state(1,2) centreDist_on_axis by simp
  qed
  show ?thesis using h fourBar_distances [OF h] by blast
qed

text \<open>
  The claim as stated fails at drive angle 0 for crank 100, ground 100.05, coupler 10 and
  rocker 9.9: J1 and P2 are 0.05 apart, the circles are nested within the tolerance, and J2
  is 19.925 from J1.
\<close>

theorem fourBar_distances_counterexample:
  "type fourBarNested = FourBar \<and> isValid (calculateLinkage fourBarNested 0)
   \<and> 0 \<le> couplerLength fourBarNested \<and> 0 \<le> rockerLength fourBarNested
   \<and> \<bar>centreDist (j1 (calculateLinkage fourBarNested 0)) (j2 (calculateLinkage fourBarNested 0))
         - couplerLength fourBarNested\<bar> > 1 / 10"
proof -
  have n: "isValid (calculateLinkage fourBarNested 0)"
    "j1 (calculateLinkage fourBarNested 0) = Point 100 0"
    "j2 (calculateLinkage fourBarNested 0) = Point (4797 / 40) 0"
    using fourBar_on_axis [of fourBarNested]
    by (simp_all add: fourBarNested_def radicalOffset_def halfChord_def)
  have c: "type fourBarNested = FourBar" "couplerLength fourBarNested = 10"
    "rockerLength fourBarNested = 99 / 10"
    by (simp_all add: fourBarNested_def)
  show ?thesis by (simp add: n c centreDist_on_axis)
qed

section \<open>Properties of the constraint repair\<close>

subsection \<open>Arithmetic of the two repair steps\<close>

lemma half_gap_pos:
  fixes r m t :: real
  shows "t < m \<Longrightarrow> 0 < r \<Longrightarrow> 0 < r + (m - t) / 2"
  by argo

lemma half_avg_pos:
  fixes r k :: real
  shows "0 \<le> k \<Longrightarrow> 0 < r \<Longrightarrow> 0 < (r + (k + r) / 2) / 2"
  by argo

lemma pull_lower:
  fixes r k :: real
  shows "min k r \<le> (k + (k + r) / 2) / 2" and "min k r \<le> (r + (k + r) / 2) / 2"
  unfolding min_def by (cases "k \<le> r"; simp; argo)+

lemma orElse_pos: "0 < v \<Longrightarrow> orElse (Some v) d = v"
  by (simp add: orElse_def)

lemma orElse_100_pos:
  "(case r of None \<Rightarrow> True | Some v \<Rightarrow> 0 \<le> v) \<Longrightarrow> 0 < orElse r 100"
  by (auto simp: orElse_def split: option.splits)

lemma truthy_Some_orElse: "truthy r \<Longrightarrow> r = Some (orElse r d)"
  by (auto simp: truthy_def orElse_def split: option.splits)

lemma rodOK_orElse: "rodOK r \<Longrightarrow> 5 \<le> orElse r 100"
  by (auto simp: rodOK_def orElse_def split: option.splits)

subsection \<open>Fields the repair leaves alone\<close>

lemma growArms_fields:
  "groundLength (growArms c) = groundLength c"
  "crankLength (growArms c) = crankLength c"
  "rockerLength (growArms c) = rockerLength c"
  "couplerPointDist (growArms c) = couplerPointDist c"
  "type (growArms c) = type c"
  by (simp_all add: growArms_def Let_def)

lemma pullArms_fields:
  "groundLength (pullArms c) = groundLength c"
  "crankLength (pullArms c) = crankLength c"
  "rockerLength (pullArms c) = rockerLength c"
  "couplerPointDist (pullArms c) = couplerPointDist c"
  "type (pullArms c) = type c"
  by (simp_all add: pullArms_def Let_def)

lemma enforce_fields:
  "groundLength (enforceFiveBarConstraints c) = groundLength c"
  "crankLength (enforceFiveBarConstraints c) = crankLength c"
  "rockerLength (enforceFiveBarConstraints c) = rockerLength c"
  "couplerPointDist (enforceFiveBarConstraints c) = couplerPointDist c"
  "type (enforceFiveBarConstraints c) = type c"
  by (simp_all add: enforceFiveBarConstraints_def growArms_fields pullArms_fields)

subsection \<open>The total arm length in exact arithmetic\<close>

text \<open>
  In exact arithmetic, growing makes the total arm length, taken with the rod length the code
  reads (\<open>rodLength || 100\<close>), reach the minimum; pulling keeps the total and keeps each
  arm above the smaller of the two.
\<close>

lemma growArms_sum:
  assumes "0 \<le> couplerLength c" "0 < orElse (rodLength c) 100"
  shows "couplerLength (growArms c) + orElse (rodLength (growArms c)) 100
         \<ge> (115 / 100) * (\<bar>groundLength c\<bar> + \<bar>crankLength c\<bar> + \<bar>rockerLength c\<bar>)"
    and "0 \<le> couplerLength (growArms c)" and "0 < orElse (rodLength (growArms c)) 100"
    and "couplerLength c \<le> couplerLength (growArms c)"
    and "orElse (rodLength c) 100 \<le> orElse (rodLength (growArms c)) 100"
proof -
  let ?m = "(\<bar>groundLength c\<bar> + \<bar>crankLength c\<bar> + \<bar>rockerLength c\<bar>) * (115 / 100)"
  let ?t = "\<bar>couplerLength c\<bar> + \<bar>orElse (rodLength c) 100\<bar>"
  have t: "?t = couplerLength c + orElse (rodLength c) 100" using assms by simp
  show "couplerLength (growArms c) + orElse (rodLength (growArms c)) 100
         \<ge> (115 / 100) * (\<bar>groundLength c\<bar> + \<bar>crankLength c\<bar> + \<bar>rockerLength c\<bar>)"
  proof (cases "?t < ?m")
    case True
    then have "0 < orElse (rodLength c) 100 + (?m - ?t) / 2" using assms(2) by (rule half_gap_pos)
    then show ?thesis using True t by (simp add: growArms_def Let_def orElse_pos)
  next
    case False
    then show ?thesis using t by (simp add: growArms_def Let_def)
  qed
  show "0 \<le> couplerLength (growArms c)" using assms by (simp add: growArms_def Let_def)
  show "0 < orElse (rodLength (growArms c)) 100"
  proof (cases "?t < ?m")
    case True
    then have "0 < orElse (rodLength c) 100 + (?m - ?t) / 2" using assms(2) by (rule half_gap_pos)
    then show ?thesis using True by (simp add: growArms_def Let_def orElse_pos)
  next
    case False
    then show ?thesis using assms by (simp add: growArms_def Let_def)
  qed
  show "couplerLength c \<le> couplerLength (growArms c)" by (simp add: growArms_def Let_def)
  show "orElse (rodLength c) 100 \<le> orElse (rodLength (growArms c)) 100"
  proof (cases "?t < ?m")
    case True
    then have "0 < orElse (rodLength c) 100 + (?m - ?t) / 2" using assms(2) by (rule half_gap_pos)
    then show ?thesis using True by (simp add: growArms_def Let_def orElse_pos)
  next
    case False
    then show ?thesis using assms by (simp add: growArms_def Let_def)
  qed
qed

lemma pullArms_sum:
  assumes "0 \<le> couplerLength c" "0 < orElse (rodLength c) 100"
  shows "couplerLength (pullArms c) + orElse (rodLength (pullArms c)) 100
           = couplerLength c + orElse (rodLength c) 100"
    and "min (couplerLength c) (orElse (rodLength c) 100) \<le> couplerLength (pullArms c)"
    and "min (couplerLength c) (orElse (rodLength c) 100) \<le> orElse (rodLength (pullArms c)) 100"
    and "0 < orElse (rodLength (pullArms c)) 100"
proof -
  let ?r = "orElse (rodLength c) 100"
  let ?avg = "(couplerLength c + ?r) / 2"
  have pos: "0 < (?r + ?avg) / 2" using assms by (rule half_avg_pos)
  show "couplerLength (pullArms c) + orElse (rodLength (pullArms c)) 100 = couplerLength c + ?r"
    using pos by (simp add: pullArms_def Let_def orElse_pos field_simps)
  show "min (couplerLength c) ?r \<le> couplerLength (pullArms c)"
    using pull_lower(1) [of "couplerLength c" ?r] by (simp add: pullArms_def Let_def)
  show "min (couplerLength c) ?r \<le> orElse (rodLength (pullArms c)) 100"
    using pos pull_lower(2) [of "couplerLength c" ?r] by (simp add: pullArms_def Let_def orElse_pos)
  show "0 < orElse (rodLength (pullArms c)) 100"
    using pos assms by (simp add: pullArms_def Let_def orElse_pos)
qed

text \<open>The exact steps are the rounded ones at the rounding that changes nothing.\<close>

lemma growArms_exact: "growArmsFl (\<lambda>x. x) conf = growArms conf"
  by (simp add: growArmsFl_def growArms_def Let_def)

lemma pullArms_exact: "pullArmsFl (\<lambda>x. x) conf = pullArms conf"
  by (simp add: pullArmsFl_def pullArms_def Let_def)

lemma enforce_exact: "enforceFiveBarConstraintsFl (\<lambda>x. x) conf = enforceFiveBarConstraints conf"
  by (simp add: enforceFiveBarConstraintsFl_def enforceFiveBarConstraints_def growArms_exact
      pullArms_exact)

subsection \<open>The rounding of doubles\<close>

text \<open>
  Rounding to the nearest integer moves a mantissa by at most a half, which is a relative
  error of at most \<open>2^-53\<close> on a number of the normal range: \<open>round64\<close> rounds.
\<close>

lemma exact_rounds: "rounds (\<lambda>x. x)"
  by (simp add: rounds_def unitRoundoff_def)

lemma roundHalfEven_near: "\<bar>of_int (roundHalfEven m) - m\<bar> \<le> 1 / 2"
proof -
  have "of_int \<lfloor>m\<rfloor> \<le> m" "m < of_int \<lfloor>m\<rfloor> + 1" by linarith+
  then show ?thesis by (auto simp: roundHalfEven_def Let_def abs_le_iff)
qed

lemma unitRoundoff_powr: "unitRoundoff = 2 powr (- 53)"
proof -
  have "(2::real) powr (- 53) = inverse (2 powr 53)" by (rule powr_minus)
  also have "(2::real) powr 53 = 2 ^ 53" using powr_realpow [of 2 53] by simp
  finally show ?thesis unfolding unitRoundoff_def by (simp only: inverse_eq_divide)
qed

lemma minNormal_powr: "minNormal = 2 powr (- 1022)"
proof -
  have "(2::real) powr (- 1022) = inverse (2 powr 1022)" by (rule powr_minus)
  also have "(2::real) powr 1022 = 2 ^ 1022" using powr_realpow [of 2 1022] by simp
  finally show ?thesis unfolding minNormal_def by (simp only: inverse_eq_divide)
qed

lemma half_ulp: "(1 / 2) * (2::real) powr (of_int e - 52) = unitRoundoff * 2 powr (of_int e)"
proof -
  have half: "(1 / 2 :: real) = 2 powr (- 1)" by (simp add: powr_minus inverse_eq_divide)
  have "(1 / 2) * (2::real) powr (of_int e - 52) = 2 powr (- 1 + (of_int e - 52))"
    unfolding half by (rule powr_add [symmetric])
  also have "- 1 + (of_int e - 52) = - 53 + (of_int e :: real)" by simp
  also have "(2::real) powr (- 53 + of_int e) = 2 powr (- 53) * 2 powr (of_int e)"
    by (rule powr_add)
  finally show ?thesis unfolding unitRoundoff_powr .
qed

lemma binade_lower:
  fixes x :: real
  assumes "x \<noteq> 0"
  shows "2 powr (of_int \<lfloor>log 2 \<bar>x\<bar>\<rfloor>) \<le> \<bar>x\<bar>"
proof -
  have "of_int \<lfloor>log 2 \<bar>x\<bar>\<rfloor> \<le> log 2 \<bar>x\<bar>" by (rule of_int_floor_le)
  then have "2 powr (of_int \<lfloor>log 2 \<bar>x\<bar>\<rfloor>) \<le> 2 powr (log 2 \<bar>x\<bar>)"
    by (rule powr_mono) simp
  also have "\<dots> = \<bar>x\<bar>" using assms by (intro powr_log_cancel) simp_all
  finally show ?thesis .
qed

lemma binade_normal:
  fixes x :: real
  assumes "minNormal \<le> \<bar>x\<bar>"
  shows "- 1022 \<le> \<lfloor>log 2 \<bar>x\<bar>\<rfloor>"
proof -
  have "0 < minNormal" by (simp add: minNormal_def)
  then have pos: "0 < \<bar>x\<bar>" using assms by (rule less_le_trans)
  have "2 powr (- 1022) \<le> \<bar>x\<bar>" using assms by (simp only: minNormal_powr)
  then have "log 2 (2 powr (- 1022)) \<le> log 2 \<bar>x\<bar>" using pos by (subst log_le_cancel_iff) simp_all
  then have "(- 1022 :: real) \<le> log 2 \<bar>x\<bar>" by simp
  then have "of_int (- 1022) \<le> log 2 \<bar>x\<bar>" by simp
  then show ?thesis by (simp only: le_floor_iff)
qed

lemma rescale: "(2::real) powr (52 - of_int e) * 2 powr (of_int e - 52) = 1"
proof -
  have "(2::real) powr (52 - of_int e) * 2 powr (of_int e - 52)
          = 2 powr ((52 - of_int e) + (of_int e - 52))"
    by (rule powr_add [symmetric])
  also have "\<dots> = 1" by simp
  finally show ?thesis .
qed

lemma round64_rounds: "rounds round64"
  unfolding rounds_def
proof (intro allI impI)
  fix x :: real
  assume n: "normalRange x"
  show "\<bar>round64 x - x\<bar> \<le> unitRoundoff * \<bar>x\<bar>"
  proof (cases "x = 0")
    case True
    then show ?thesis by (simp add: round64_def)
  next
    case False
    then have "minNormal \<le> \<bar>x\<bar>" using n by (simp add: normalRange_def)
    then have "- 1022 \<le> \<lfloor>log 2 \<bar>x\<bar>\<rfloor>" by (rule binade_normal)
    then have c: "max \<lfloor>log 2 \<bar>x\<bar>\<rfloor> (- 1022) = \<lfloor>log 2 \<bar>x\<bar>\<rfloor>"
      by (rule max_absorb1)
    define e where "e = \<lfloor>log 2 \<bar>x\<bar>\<rfloor>"
    define s :: real where "s = 2 powr (of_int e - 52)"
    define m :: real where "m = x * 2 powr (52 - of_int e)"
    have s0: "0 < s" by (simp add: s_def)
    have "m * s = x * (2 powr (52 - of_int e) * 2 powr (of_int e - 52))"
      unfolding m_def s_def by (simp only: mult.assoc)
    then have x: "m * s = x" unfolding rescale by simp
    have r: "round64 x = of_int (roundHalfEven m) * s"
      using False unfolding round64_def c by (simp add: Let_def e_def s_def m_def)
    have "round64 x - x = (of_int (roundHalfEven m) - m) * s"
      by (simp only: r left_diff_distrib x)
    then have "\<bar>round64 x - x\<bar> = \<bar>of_int (roundHalfEven m) - m\<bar> * s"
      using s0 by (simp add: abs_mult)
    also have "\<dots> \<le> (1 / 2) * s"
      using roundHalfEven_near [of m] s0 by (intro mult_right_mono) simp_all
    also have "\<dots> = unitRoundoff * 2 powr (of_int e)"
      unfolding s_def by (rule half_ulp)
    also have "\<dots> \<le> unitRoundoff * \<bar>x\<bar>"
      unfolding e_def using binade_lower [OF False]
      by (intro mult_left_mono) (simp_all add: unitRoundoff_def)
    finally show ?thesis .
  qed
qed

subsection \<open>Rounding errors of the two repair steps\<close>

text \<open>
  Each rounding of a non-negative result keeps at least the factor \<open>1 - 2^-53\<close> of it.
  The lemmas of this subsection count the roundings between two quantities of the repair, on
  plain reals.
\<close>

lemma unitRoundoff_range: "0 < unitRoundoff" "unitRoundoff < 1 / 1000"
  by (simp_all add: unitRoundoff_def)

lemma keep_range: "0 < 1 - unitRoundoff" "1 - unitRoundoff \<le> 1"
  using unitRoundoff_range by simp_all

lemma fl_lower:
  assumes "rounds fl" "normalRange x" "0 \<le> x"
  shows "(1 - unitRoundoff) * x \<le> fl x"
proof -
  have "\<bar>fl x - x\<bar> \<le> unitRoundoff * x"
    using assms(1) [unfolded rounds_def, rule_format, OF assms(2)] assms(3) by simp
  then have "x - unitRoundoff * x \<le> fl x" by linarith
  then show ?thesis by (simp add: algebra_simps)
qed

lemma fl_upper:
  assumes "rounds fl" "normalRange x" "0 \<le> x"
  shows "fl x \<le> (1 + unitRoundoff) * x"
proof -
  have "\<bar>fl x - x\<bar> \<le> unitRoundoff * x"
    using assms(1) [unfolded rounds_def, rule_format, OF assms(2)] assms(3) by simp
  then have "fl x \<le> x + unitRoundoff * x" by linarith
  then show ?thesis by (simp add: algebra_simps)
qed

lemma fl_nonneg:
  assumes "rounds fl" "normalRange x" "0 \<le> x"
  shows "0 \<le> fl x"
proof -
  have "0 \<le> (1 - unitRoundoff) * x" using assms(3) unitRoundoff_range by simp
  then show ?thesis using fl_lower [OF assms] by linarith
qed

lemma fl_pos:
  assumes "rounds fl" "normalRange x" "0 < x"
  shows "0 < fl x"
proof -
  have "0 < (1 - unitRoundoff) * x" using assms(3) unitRoundoff_range by simp
  then show ?thesis using fl_lower [OF assms(1,2)] assms(3) by linarith
qed

lemma keep_chain:
  fixes q x y z :: real
  assumes "0 \<le> q" "q ^ a * y \<le> x" "q ^ b * z \<le> y"
  shows "q ^ (a + b) * z \<le> x"
proof -
  have "q ^ a * (q ^ b * z) \<le> q ^ a * y" using assms(1,3) by (intro mult_left_mono) simp_all
  then have "q ^ a * (q ^ b * z) \<le> x" using assms(2) by (rule order_trans)
  then show ?thesis by (simp add: power_add mult.assoc)
qed

lemma keep_more:
  fixes q x y :: real
  assumes "0 \<le> q" "q \<le> 1" "0 \<le> y" "q ^ a * y \<le> x" "a \<le> b"
  shows "q ^ b * y \<le> x"
proof -
  have "q ^ b \<le> q ^ a" using assms(5,1,2) by (rule power_decreasing)
  then have "q ^ b * y \<le> q ^ a * y" using assms(3) by (rule mult_right_mono)
  then show ?thesis using assms(4) by (rule order_trans)
qed

text \<open>Two rounded additions of non-negative terms.\<close>

lemma sum3_lower:
  assumes R: "rounds fl" and N: "normalRange (a + b)" "normalRange (fl (a + b) + c)"
    and "0 \<le> a" "0 \<le> b" "0 \<le> c"
  shows "(1 - unitRoundoff)\<^sup>2 * (a + b + c) \<le> fl (fl (a + b) + c)"
    and "0 \<le> fl (fl (a + b) + c)"
proof -
  define q where "q = 1 - unitRoundoff"
  have q: "0 < q" "q \<le> 1" using unitRoundoff_range by (simp_all add: q_def)
  have 1: "q * (a + b) \<le> fl (a + b)"
    unfolding q_def by (rule fl_lower [OF R N(1)]) (use assms in simp)
  have n: "0 \<le> fl (a + b)" by (rule fl_nonneg [OF R N(1)]) (use assms in simp)
  have 2: "q * (fl (a + b) + c) \<le> fl (fl (a + b) + c)"
    unfolding q_def by (rule fl_lower [OF R N(2)]) (use n assms in simp)
  have "q * c \<le> c" using q assms(6) by (simp add: mult_left_le_one_le)
  then have "q * (a + b) + q * c \<le> fl (a + b) + c" using 1 by linarith
  then have "q * (q * (a + b) + q * c) \<le> q * (fl (a + b) + c)"
    using q by (intro mult_left_mono) simp_all
  moreover have "q * (q * (a + b) + q * c) = q\<^sup>2 * (a + b + c)"
    by (simp add: algebra_simps power2_eq_square)
  ultimately have "q\<^sup>2 * (a + b + c) \<le> fl (fl (a + b) + c)"
    using 2 by linarith
  then show "(1 - unitRoundoff)\<^sup>2 * (a + b + c) \<le> fl (fl (a + b) + c)" by (simp add: q_def)
  show "0 \<le> fl (fl (a + b) + c)" by (rule fl_nonneg [OF R N(2)]) (use n assms in simp)
qed

text \<open>The minimum total arm length: two more roundings, of the constant and of the product.\<close>

lemma minTotal_lower:
  assumes R: "rounds fl" and N: "normalRange (115 / 100)" "normalRange (t * fl (115 / 100))"
    and "0 \<le> t" "(1 - unitRoundoff)\<^sup>2 * g \<le> t" "0 \<le> g"
  shows "(1 - unitRoundoff) ^ 4 * ((115 / 100) * g) \<le> fl (t * fl (115 / 100))"
    and "0 \<le> fl (t * fl (115 / 100))"
proof -
  define q where "q = 1 - unitRoundoff"
  have q: "0 < q" "q \<le> 1" using unitRoundoff_range by (simp_all add: q_def)
  have k: "q * (115 / 100) \<le> fl (115 / 100)"
    unfolding q_def by (rule fl_lower [OF R N(1)]) simp
  have k0: "0 \<le> fl (115 / 100)" by (rule fl_nonneg [OF R N(1)]) simp
  have p0: "0 \<le> t * fl (115 / 100)" using assms(4) k0 by simp
  have "(q\<^sup>2 * g) * (q * (115 / 100)) \<le> t * fl (115 / 100)"
    using assms(5) [folded q_def] k assms(4,6) q by (intro mult_mono) simp_all
  then have "q * ((q\<^sup>2 * g) * (q * (115 / 100))) \<le> q * (t * fl (115 / 100))"
    using q by (intro mult_left_mono) simp_all
  moreover have "q * (t * fl (115 / 100)) \<le> fl (t * fl (115 / 100))"
    unfolding q_def using R N(2) p0 by (rule fl_lower)
  moreover have "q * ((q\<^sup>2 * g) * (q * (115 / 100))) = q ^ 4 * ((115 / 100) * g)"
    by (simp add: power2_eq_square power4_eq_xxxx)
  ultimately have "q ^ 4 * ((115 / 100) * g) \<le> fl (t * fl (115 / 100))"
    by linarith
  then show "(1 - unitRoundoff) ^ 4 * ((115 / 100) * g) \<le> fl (t * fl (115 / 100))"
    by (simp add: q_def)
  show "0 \<le> fl (t * fl (115 / 100))" using R N(2) p0 by (rule fl_nonneg)
qed

text \<open>When the grow step does not fire, the total is within one rounding of the minimum.\<close>

lemma no_grow_lower:
  assumes R: "rounds fl" and N: "normalRange s" and "0 \<le> s" "0 \<le> m" "\<not> fl s < m"
  shows "(1 - unitRoundoff) * m \<le> s"
proof -
  define u where "u = unitRoundoff"
  have u: "0 < u" "u < 1" using unitRoundoff_range by (simp_all add: u_def)
  have "m \<le> (1 + u) * s" using fl_upper [OF R N assms(3)] assms(5) by (simp add: u_def)
  then have "(1 - u) * m \<le> (1 - u) * ((1 + u) * s)" using u by (intro mult_left_mono) simp_all
  also have "\<dots> = s - u * u * s" by (simp add: algebra_simps)
  also have "\<dots> \<le> s" using assms(3) u by simp
  finally show ?thesis by (simp add: u_def)
qed

text \<open>The grow step: three more roundings between the minimum and the new total.\<close>

lemma grow_lower:
  assumes R: "rounds fl" and c: "0 \<le> c" and r: "0 < r" and lt: "fl (c + r) < m"
    and N: "normalRange (c + r)" "normalRange (m - fl (c + r))"
      "normalRange (fl (m - fl (c + r)) / 2)"
      "normalRange (c + fl (fl (m - fl (c + r)) / 2))"
      "normalRange (r + fl (fl (m - fl (c + r)) / 2))"
  defines "hf \<equiv> fl (fl (m - fl (c + r)) / 2)"
  shows "(1 - unitRoundoff) ^ 3 * m \<le> fl (c + hf) + fl (r + hf)"
    and "0 \<le> fl (c + hf)" and "0 < fl (r + hf)"
proof -
  define u where "u = unitRoundoff"
  define q where "q = 1 - u"
  have u: "0 < u" "u < 1" using unitRoundoff_range by (simp_all add: u_def)
  have q: "0 < q" "q \<le> 1" using u by (simp_all add: q_def)
  define s where "s = c + r"
  define d where "d = fl (m - fl s)"
  have s0: "0 \<le> s" using c r by (simp add: s_def)
  have gap: "0 < m - fl s" using lt by (simp add: s_def)
  have N': "normalRange s" "normalRange (m - fl s)" "normalRange (d / 2)"
    "normalRange (c + fl (d / 2))" "normalRange (r + fl (d / 2))"
    using N by (simp_all add: s_def d_def)
  have d0: "0 < d" unfolding d_def using R N'(2) gap by (rule fl_pos)
  have dl: "q * (m - fl s) \<le> d"
    unfolding d_def q_def u_def by (rule fl_lower [OF R N'(2)]) (use gap in simp)
  have hf: "hf = fl (d / 2)" by (simp add: hf_def d_def s_def)
  have h0: "0 < hf" unfolding hf by (rule fl_pos [OF R N'(3)]) (use d0 in simp)
  have hl: "q * (d / 2) \<le> hf"
    unfolding hf q_def u_def by (rule fl_lower [OF R N'(3)]) (use d0 in simp)
  have cl: "q * (c + hf) \<le> fl (c + hf)"
    unfolding q_def u_def hf by (rule fl_lower [OF R N'(4)]) (use c h0 hf in simp)
  have rl: "q * (r + hf) \<le> fl (r + hf)"
    unfolding q_def u_def hf by (rule fl_lower [OF R N'(5)]) (use r h0 hf in simp)
  have su: "fl s \<le> (1 + u) * s" unfolding u_def using R N'(1) s0 by (rule fl_upper)
  have "q * (m - (1 + u) * s) \<le> q * (m - fl s)"
    using su q by (intro mult_left_mono) simp_all
  then have 1: "q * (m - (1 + u) * s) \<le> d" using dl by linarith
  have "q * (q * (m - (1 + u) * s)) \<le> q * d"
    using 1 q by (intro mult_left_mono) simp_all
  moreover have "q * d = 2 * (q * (d / 2))" by simp
  ultimately have 2: "q * (q * (m - (1 + u) * s)) \<le> 2 * hf" using hl by linarith
  have "q * (s + q * (q * (m - (1 + u) * s))) \<le> q * (s + 2 * hf)"
    using 2 q by (intro mult_left_mono) simp_all
  moreover have "q * (s + 2 * hf) = q * (c + hf) + q * (r + hf)"
    by (simp add: s_def algebra_simps)
  ultimately have 3: "q * (s + q * (q * (m - (1 + u) * s))) \<le> fl (c + hf) + fl (r + hf)"
    using cl rl by linarith
  have "q * q * (1 + u) = (1 - u) * (1 - u * u)" by (simp add: q_def algebra_simps)
  moreover have "(1 - u) * (1 - u * u) \<le> 1 * 1"
    using u by (intro mult_mono) (simp_all add: mult_le_one)
  ultimately have 4: "0 \<le> 1 - q * q * (1 + u)" by simp
  have "q * (s + q * (q * (m - (1 + u) * s))) = q ^ 3 * m + (q * s) * (1 - q * q * (1 + u))"
    by (simp add: algebra_simps power3_eq_cube)
  moreover have "0 \<le> (q * s) * (1 - q * q * (1 + u))"
    using q s0 4 by (intro mult_nonneg_nonneg) simp_all
  ultimately have "q ^ 3 * m \<le> fl (c + hf) + fl (r + hf)" using 3 by linarith
  then show "(1 - unitRoundoff) ^ 3 * m \<le> fl (c + hf) + fl (r + hf)"
    by (simp add: q_def u_def)
  show "0 \<le> fl (c + hf)" unfolding hf by (rule fl_nonneg [OF R N'(4)]) (use c h0 hf in simp)
  show "0 < fl (r + hf)" unfolding hf by (rule fl_pos [OF R N'(5)]) (use r h0 hf in simp)
qed

text \<open>The pull step: four roundings between the old total and the new one.\<close>

lemma pull_lower_fl:
  assumes R: "rounds fl" and c: "0 \<le> c" and r: "0 < r"
    and N: "normalRange (c + r)" "normalRange (fl (c + r) / 2)"
      "normalRange (c + fl (fl (c + r) / 2))" "normalRange (fl (c + fl (fl (c + r) / 2)) / 2)"
      "normalRange (r + fl (fl (c + r) / 2))" "normalRange (fl (r + fl (fl (c + r) / 2)) / 2)"
  defines "avg \<equiv> fl (fl (c + r) / 2)"
  shows "(1 - unitRoundoff) ^ 4 * (c + r) \<le> fl (fl (c + avg) / 2) + fl (fl (r + avg) / 2)"
    and "0 \<le> fl (fl (c + avg) / 2)" and "0 < fl (fl (r + avg) / 2)"
proof -
  define q where "q = 1 - unitRoundoff"
  have q: "0 < q" "q \<le> 1" using unitRoundoff_range by (simp_all add: q_def)
  define s where "s = c + r"
  have s0: "0 < s" using c r by (simp add: s_def)
  have N': "normalRange s" "normalRange (fl s / 2)" "normalRange (c + avg)"
    "normalRange (fl (c + avg) / 2)" "normalRange (r + avg)" "normalRange (fl (r + avg) / 2)"
    using N by (simp_all add: s_def avg_def)
  have t0: "0 < fl s" using R N'(1) s0 by (rule fl_pos)
  have tl: "q * s \<le> fl s" unfolding q_def by (rule fl_lower [OF R N'(1)]) (use s0 in simp)
  have avg: "avg = fl (fl s / 2)" by (simp add: avg_def s_def)
  have a0: "0 < avg" unfolding avg by (rule fl_pos [OF R N'(2)]) (use t0 in simp)
  have al: "q * (fl s / 2) \<le> avg"
    unfolding avg q_def by (rule fl_lower [OF R N'(2)]) (use t0 in simp)
  have "q * (q * s) \<le> q * fl s" using tl q by (intro mult_left_mono) simp_all
  moreover have "q * fl s = 2 * (q * (fl s / 2))" by simp
  ultimately have a2: "q * (q * s) \<le> 2 * avg" using al by linarith
  have c1: "0 \<le> fl (c + avg)" by (rule fl_nonneg [OF R N'(3)]) (use c a0 in simp)
  have r1: "0 < fl (r + avg)" by (rule fl_pos [OF R N'(5)]) (use r a0 in simp)
  have cl: "q * (c + avg) \<le> fl (c + avg)"
    unfolding q_def by (rule fl_lower [OF R N'(3)]) (use c a0 in simp)
  have rl: "q * (r + avg) \<le> fl (r + avg)"
    unfolding q_def by (rule fl_lower [OF R N'(5)]) (use r a0 in simp)
  define c3 where "c3 = fl (fl (c + avg) / 2)"
  define r3 where "r3 = fl (fl (r + avg) / 2)"
  have c2: "q * (fl (c + avg) / 2) \<le> c3"
    unfolding q_def c3_def by (rule fl_lower [OF R N'(4)]) (use c1 in simp)
  have r2: "q * (fl (r + avg) / 2) \<le> r3"
    unfolding q_def r3_def by (rule fl_lower [OF R N'(6)]) (use r1 in simp)
  have "q * fl (c + avg) \<le> 2 * c3" "q * fl (r + avg) \<le> 2 * r3"
    using c2 r2 by simp_all
  then have "q * fl (c + avg) + q * fl (r + avg) \<le> 2 * c3 + 2 * r3"
    by (rule add_mono)
  then have "q * (fl (c + avg) + fl (r + avg)) \<le> 2 * (c3 + r3)"
    by (simp add: distrib_left)
  moreover have "q * (q * (c + avg) + q * (r + avg)) \<le> q * (fl (c + avg) + fl (r + avg))"
    using cl rl q by (intro mult_left_mono) simp_all
  ultimately have 1: "q * (q * (c + avg) + q * (r + avg)) \<le> 2 * (c3 + r3)"
    by (rule order_trans [rotated])
  have "q * q * (s + q * (q * s)) \<le> q * q * (s + 2 * avg)"
    using a2 q by (intro mult_left_mono) simp_all
  moreover have "q * q * (s + 2 * avg) = q * (q * (c + avg) + q * (r + avg))"
    by (simp add: s_def algebra_simps)
  ultimately have 2: "q * q * (s + q * (q * s)) \<le> 2 * (c3 + r3)"
    using 1 by linarith
  have "q * q \<le> 1 * 1" using q by (intro mult_mono) simp_all
  then have "(q * q * s) * (q * q) \<le> (q * q * s) * 1"
    using q s0 by (intro mult_left_mono) simp_all
  then have "(q * q * s) * (q * q) \<le> q * q * s" by simp
  moreover have "q * q * (s + q * (q * s)) = q * q * s + (q * q * s) * (q * q)"
    "2 * (q ^ 4 * s) = (q * q * s) * (q * q) + (q * q * s) * (q * q)"
    by (simp_all add: algebra_simps power4_eq_xxxx)
  ultimately have "2 * (q ^ 4 * s) \<le> q * q * (s + q * (q * s))" by linarith
  then have "2 * (q ^ 4 * s) \<le> 2 * (c3 + r3)"
    using 2 by (rule order_trans)
  then have "q ^ 4 * s \<le> c3 + r3" by simp
  then show "(1 - unitRoundoff) ^ 4 * (c + r)
      \<le> fl (fl (c + avg) / 2) + fl (fl (r + avg) / 2)"
    by (simp add: q_def s_def c3_def r3_def)
  show "0 \<le> fl (fl (c + avg) / 2)" by (rule fl_nonneg [OF R N'(4)]) (use c1 in simp)
  show "0 < fl (fl (r + avg) / 2)" by (rule fl_pos [OF R N'(6)]) (use r1 in simp)
qed

subsection \<open>The total arm length in double-precision arithmetic\<close>

lemma growArmsFl_fields:
  "groundLength (growArmsFl fl c) = groundLength c"
  "crankLength (growArmsFl fl c) = crankLength c"
  "rockerLength (growArmsFl fl c) = rockerLength c"
  "type (growArmsFl fl c) = type c"
  by (simp_all add: growArmsFl_def Let_def)

lemma pullArmsFl_fields:
  "groundLength (pullArmsFl fl c) = groundLength c"
  "crankLength (pullArmsFl fl c) = crankLength c"
  "rockerLength (pullArmsFl fl c) = rockerLength c"
  "type (pullArmsFl fl c) = type c"
  by (simp_all add: pullArmsFl_def Let_def)

lemma enforceFl_fields:
  "groundLength (enforceFiveBarConstraintsFl fl c) = groundLength c"
  "crankLength (enforceFiveBarConstraintsFl fl c) = crankLength c"
  "rockerLength (enforceFiveBarConstraintsFl fl c) = rockerLength c"
  "type (enforceFiveBarConstraintsFl fl c) = type c"
  by (simp_all add: enforceFiveBarConstraintsFl_def growArmsFl_fields pullArmsFl_fields)

lemma truthy_pos: "0 < v \<Longrightarrow> truthy (Some v)"
  by (simp add: truthy_def)

text \<open>
  After the grow step the total arm length, taken with the rod length the code reads, is
  within seven roundings of the minimum.
\<close>

lemma growArmsFl_sum:
  assumes R: "rounds fl" and N: "list_all normalRange (growRounded fl c)"
    and c0: "0 \<le> couplerLength c" and e0: "0 < orElse (rodLength c) 100"
  shows "(1 - unitRoundoff) ^ 7
           * ((115 / 100) * (\<bar>groundLength c\<bar> + \<bar>crankLength c\<bar> + \<bar>rockerLength c\<bar>))
         \<le> couplerLength (growArmsFl fl c) + orElse (rodLength (growArmsFl fl c)) 100"
    and "0 \<le> couplerLength (growArmsFl fl c)"
    and "0 < orElse (rodLength (growArmsFl fl c)) 100"
    and "truthy (rodLength c) \<Longrightarrow> truthy (rodLength (growArmsFl fl c))"
proof -
  define gs where "gs = \<bar>groundLength c\<bar> + \<bar>crankLength c\<bar> + \<bar>rockerLength c\<bar>"
  define ms where "ms = fl (fl (\<bar>groundLength c\<bar> + \<bar>crankLength c\<bar>) + \<bar>rockerLength c\<bar>)"
  define m where "m = fl (ms * fl (115 / 100))"
  define k where "k = couplerLength c"
  define r where "r = orElse (rodLength c) 100"
  define hf where "hf = fl (fl (m - fl (k + r)) / 2)"
  have q: "0 \<le> 1 - unitRoundoff" "1 - unitRoundoff \<le> 1" using keep_range by simp_all
  have a: "\<bar>couplerLength c\<bar> + \<bar>orElse (rodLength c) 100\<bar> = k + r"
    using c0 e0 by (simp add: k_def r_def)
  have g0: "0 \<le> gs" by (simp add: gs_def)
  have x0: "0 \<le> (115 / 100) * gs" using g0 by simp
  have L: "growRounded fl c =
      [\<bar>groundLength c\<bar> + \<bar>crankLength c\<bar>,
       fl (\<bar>groundLength c\<bar> + \<bar>crankLength c\<bar>) + \<bar>rockerLength c\<bar>, k + r, 115 / 100,
       ms * fl (115 / 100)] @
      (if fl (k + r) < m
       then [m - fl (k + r), fl (m - fl (k + r)) / 2, k + hf, r + hf] else [])"
    unfolding growRounded_def Let_def a
    by (simp add: ms_def m_def hf_def k_def r_def)
  have N5: "normalRange (\<bar>groundLength c\<bar> + \<bar>crankLength c\<bar>)"
    "normalRange (fl (\<bar>groundLength c\<bar> + \<bar>crankLength c\<bar>) + \<bar>rockerLength c\<bar>)"
    "normalRange (k + r)" "normalRange (115 / 100)" "normalRange (ms * fl (115 / 100))"
    using N unfolding L by simp_all
  have ms: "(1 - unitRoundoff)\<^sup>2 * gs \<le> ms" "0 \<le> ms"
    unfolding gs_def ms_def by (rule sum3_lower [OF R N5(1,2)]; simp)+
  have m: "(1 - unitRoundoff) ^ 4 * ((115 / 100) * gs) \<le> m" "0 \<le> m"
    unfolding m_def by (rule minTotal_lower [OF R N5(4,5) ms(2) ms(1) g0])+
  have G: "growArmsFl fl c =
      (if fl (k + r) < m
       then c\<lparr>couplerLength := fl (k + hf), rodLength := Some (fl (r + hf))\<rparr> else c)"
    unfolding growArmsFl_def Let_def a
    by (simp add: ms_def m_def hf_def k_def r_def)
  show "(1 - unitRoundoff) ^ 7 * ((115 / 100) * gs)
         \<le> couplerLength (growArmsFl fl c) + orElse (rodLength (growArmsFl fl c)) 100"
  proof (cases "fl (k + r) < m")
    case True
    have N4: "normalRange (m - fl (k + r))" "normalRange (fl (m - fl (k + r)) / 2)"
      "normalRange (k + fl (fl (m - fl (k + r)) / 2))"
      "normalRange (r + fl (fl (m - fl (k + r)) / 2))"
      using N True unfolding L by (simp_all add: hf_def)
    note gl = grow_lower [OF R c0 [folded k_def] e0 [folded r_def] True N5(3) N4, folded hf_def]
    have "(1 - unitRoundoff) ^ (3 + 4) * ((115 / 100) * gs) \<le> fl (k + hf) + fl (r + hf)"
      using q(1) gl(1) m(1) by (rule keep_chain)
    then show ?thesis using True gl(3) by (simp add: G orElse_pos)
  next
    case False
    have "(1 - unitRoundoff) ^ 1 * m \<le> k + r"
      using no_grow_lower [OF R N5(3) _ m(2) False] c0 e0 by (simp add: k_def r_def)
    with q(1) have "(1 - unitRoundoff) ^ (1 + 4) * ((115 / 100) * gs) \<le> k + r"
      using m(1) by (rule keep_chain)
    with q x0 have "(1 - unitRoundoff) ^ 7 * ((115 / 100) * gs) \<le> k + r"
      by (rule keep_more) simp
    then show ?thesis using False by (simp add: G k_def r_def)
  qed
  show "0 \<le> couplerLength (growArmsFl fl c)"
  proof (cases "fl (k + r) < m")
    case True
    have N4: "normalRange (m - fl (k + r))" "normalRange (fl (m - fl (k + r)) / 2)"
      "normalRange (k + fl (fl (m - fl (k + r)) / 2))"
      "normalRange (r + fl (fl (m - fl (k + r)) / 2))"
      using N True unfolding L by (simp_all add: hf_def)
    note gl = grow_lower [OF R c0 [folded k_def] e0 [folded r_def] True N5(3) N4, folded hf_def]
    show ?thesis using True gl(2) by (simp add: G)
  next
    case False
    then show ?thesis using c0 by (simp add: G)
  qed
  show "0 < orElse (rodLength (growArmsFl fl c)) 100"
  proof (cases "fl (k + r) < m")
    case True
    have N4: "normalRange (m - fl (k + r))" "normalRange (fl (m - fl (k + r)) / 2)"
      "normalRange (k + fl (fl (m - fl (k + r)) / 2))"
      "normalRange (r + fl (fl (m - fl (k + r)) / 2))"
      using N True unfolding L by (simp_all add: hf_def)
    note gl = grow_lower [OF R c0 [folded k_def] e0 [folded r_def] True N5(3) N4, folded hf_def]
    show ?thesis using True gl(3) by (simp add: G orElse_pos)
  next
    case False
    then show ?thesis using e0 by (simp add: G)
  qed
  show "truthy (rodLength (growArmsFl fl c))" if t: "truthy (rodLength c)"
  proof (cases "fl (k + r) < m")
    case True
    have N4: "normalRange (m - fl (k + r))" "normalRange (fl (m - fl (k + r)) / 2)"
      "normalRange (k + fl (fl (m - fl (k + r)) / 2))"
      "normalRange (r + fl (fl (m - fl (k + r)) / 2))"
      using N True unfolding L by (simp_all add: hf_def)
    note gl = grow_lower [OF R c0 [folded k_def] e0 [folded r_def] True N5(3) N4, folded hf_def]
    show ?thesis using True gl(3) by (simp add: G truthy_pos)
  next
    case False
    then show ?thesis using t by (simp add: G)
  qed
qed

text \<open>The pull step keeps the total within four roundings.\<close>

lemma pullArmsFl_sum:
  assumes R: "rounds fl" and N: "list_all normalRange (pullRounded fl c)"
    and c0: "0 \<le> couplerLength c" and e0: "0 < orElse (rodLength c) 100"
  shows "(1 - unitRoundoff) ^ 4 * (couplerLength c + orElse (rodLength c) 100)
         \<le> couplerLength (pullArmsFl fl c) + orElse (rodLength (pullArmsFl fl c)) 100"
    and "truthy (rodLength c) \<Longrightarrow> truthy (rodLength (pullArmsFl fl c))"
proof -
  define k where "k = couplerLength c"
  define r where "r = orElse (rodLength c) 100"
  define avg where "avg = fl (fl (k + r) / 2)"
  define fires where "fires \<longleftrightarrow>
    \<bar>fl (k - r)\<bar> > max 0 (fl (fl (\<bar>groundLength c\<bar> - \<bar>crankLength c\<bar>) - \<bar>rockerLength c\<bar>))"
  have q: "0 \<le> 1 - unitRoundoff" "1 - unitRoundoff \<le> 1" using keep_range by simp_all
  have s0: "0 \<le> k + r" using c0 e0 by (simp add: k_def r_def)
  have L: "pullRounded fl c =
      (if fires then [k + r, fl (k + r) / 2, k + avg, fl (k + avg) / 2, r + avg, fl (r + avg) / 2]
       else [])"
    unfolding pullRounded_def Let_def by (simp add: fires_def avg_def k_def r_def)
  have P: "pullArmsFl fl c =
      (if fires
       then c\<lparr>couplerLength := fl (fl (k + avg) / 2), rodLength := Some (fl (fl (r + avg) / 2))\<rparr>
       else c)"
    unfolding pullArmsFl_def Let_def by (simp add: fires_def avg_def k_def r_def)
  show "(1 - unitRoundoff) ^ 4 * (k + r)
         \<le> couplerLength (pullArmsFl fl c) + orElse (rodLength (pullArmsFl fl c)) 100"
  proof (cases fires)
    case True
    have N6: "normalRange (k + r)" "normalRange (fl (k + r) / 2)"
      "normalRange (k + fl (fl (k + r) / 2))" "normalRange (fl (k + fl (fl (k + r) / 2)) / 2)"
      "normalRange (r + fl (fl (k + r) / 2))" "normalRange (fl (r + fl (fl (k + r) / 2)) / 2)"
      using N True unfolding L by (simp_all add: avg_def)
    note pl = pull_lower_fl [OF R c0 [folded k_def] e0 [folded r_def] N6, folded avg_def]
    show ?thesis using True pl(1,3) by (simp add: P orElse_pos)
  next
    case False
    have "(1 - unitRoundoff) ^ 0 * (k + r) \<le> k + r" by simp
    with q s0 have "(1 - unitRoundoff) ^ 4 * (k + r) \<le> k + r" by (rule keep_more) simp
    then show ?thesis using False by (simp add: P k_def r_def)
  qed
  show "truthy (rodLength (pullArmsFl fl c))" if t: "truthy (rodLength c)"
  proof (cases fires)
    case True
    have N6: "normalRange (k + r)" "normalRange (fl (k + r) / 2)"
      "normalRange (k + fl (fl (k + r) / 2))" "normalRange (fl (k + fl (fl (k + r) / 2)) / 2)"
      "normalRange (r + fl (fl (k + r) / 2))" "normalRange (fl (r + fl (fl (k + r) / 2)) / 2)"
      using N True unfolding L by (simp_all add: avg_def)
    note pl = pull_lower_fl [OF R c0 [folded k_def] e0 [folded r_def] N6, folded avg_def]
    show ?thesis using True pl(3) by (simp add: P truthy_pos)
  next
    case False
    then show ?thesis using t by (simp add: P)
  qed
qed

subsection \<open>The repair of the short-armed configuration, computed\<close>

lemma floor_log2:
  fixes x :: real
  assumes "2 ^ k \<le> x" "x < 2 ^ Suc k"
  shows "\<lfloor>log 2 x\<rfloor> = int k"
proof -
  have p: "0 < x" using assms(1) by (rule less_le_trans [rotated]) simp
  have "2 powr (real k) \<le> x" "x < 2 powr (real k + 1)"
    using assms by (simp_all add: powr_realpow powr_add)
  then have "real k \<le> log 2 x" "log 2 x < real k + 1"
    using p by (simp_all add: le_log_iff log_less_iff)
  then show ?thesis by linarith
qed

text \<open>The rounding of a number whose binade is known, as a computation on integers.\<close>

lemma round64_eval:
  fixes x :: real
  assumes "2 ^ k \<le> \<bar>x\<bar>" "\<bar>x\<bar> < 2 ^ Suc k" "k \<le> 52"
  shows "round64 x = of_int (roundHalfEven (x * 2 ^ (52 - k))) / 2 ^ (52 - k)"
proof -
  have p: "0 < \<bar>x\<bar>" using assms(1) by (rule less_le_trans [rotated]) simp
  have e: "max \<lfloor>log 2 \<bar>x\<bar>\<rfloor> (- 1022) = int k"
    using floor_log2 [OF assms(1,2)] by simp
  have a: "(2::real) powr (52 - of_int (int k)) = 2 ^ (52 - k)"
    using assms(3) powr_realpow [of 2 "52 - k"] by (simp add: of_nat_diff)
  have "(2::real) powr (of_int (int k) - 52) = 2 powr (- (52 - of_int (int k)))" by simp
  also have "\<dots> = inverse (2 powr (52 - of_int (int k)))" by (rule powr_minus)
  finally have b: "(2::real) powr (of_int (int k) - 52) = inverse (2 ^ (52 - k))"
    unfolding a .
  have "x \<noteq> 0" using p by simp
  then show ?thesis unfolding round64_def e Let_def a b by (simp add: divide_inverse)
qed

text \<open>The roundings met when the repair runs on the short-armed configuration.\<close>

lemma round64_sum1: "round64 (2) = 2"
  using round64_eval [of 1 "2"] by (simp add: roundHalfEven_def Let_def)

lemma round64_maxSep: "round64 (12) = 12"
  using round64_eval [of 3 "12"] by (simp add: roundHalfEven_def Let_def)

lemma round64_const: "round64 (23 / 20) = 2589569785738035 / 2251799813685248"
  using round64_eval [of 0 "23 / 20"] by (simp add: roundHalfEven_def Let_def)

lemma round64_minTotal: "round64 (7768709357214105 / 562949953421312) = 7768709357214105 / 562949953421312"
  using round64_eval [of 3 "7768709357214105 / 562949953421312"] by (simp add: roundHalfEven_def Let_def)

lemma round64_cur: "round64 (7) = 7"
  using round64_eval [of 2 "7"] by (simp add: roundHalfEven_def Let_def)

lemma round64_diff: "round64 (3828059683264921 / 562949953421312) = 3828059683264921 / 562949953421312"
  using round64_eval [of 2 "3828059683264921 / 562949953421312"] by (simp add: roundHalfEven_def Let_def)

lemma round64_half: "round64 (3828059683264921 / 1125899906842624) = 3828059683264921 / 1125899906842624"
  using round64_eval [of 1 "3828059683264921 / 1125899906842624"] by (simp add: roundHalfEven_def Let_def)

lemma round64_rod1: "round64 (11709359031163289 / 1125899906842624) = 1463669878895411 / 140737488355328"
  using round64_eval [of 3 "11709359031163289 / 1125899906842624"] by (simp add: roundHalfEven_def Let_def)

lemma round64_armDiff: "round64 (- (7881299347898367 / 1125899906842624)) = - (7881299347898367 / 1125899906842624)"
  using round64_eval [of 2 "- (7881299347898367 / 1125899906842624)"] by (simp add: roundHalfEven_def Let_def)

lemma round64_sep2: "round64 (- 10) = - 10"
  using round64_eval [of 3 "- 10"] by (simp add: roundHalfEven_def Let_def)

lemma round64_total: "round64 (15537418714428209 / 1125899906842624) = 971088669651763 / 70368744177664"
  using round64_eval [of 3 "15537418714428209 / 1125899906842624"] by (simp add: roundHalfEven_def Let_def)

lemma round64_avg: "round64 (971088669651763 / 140737488355328) = 971088669651763 / 140737488355328"
  using round64_eval [of 2 "971088669651763 / 140737488355328"] by (simp add: roundHalfEven_def Let_def)

lemma round64_coupler2a: "round64 (11596769040479025 / 1125899906842624) = 724798065029939 / 70368744177664"
  using round64_eval [of 3 "11596769040479025 / 1125899906842624"] by (simp add: roundHalfEven_def Let_def)

lemma round64_coupler2: "round64 (724798065029939 / 140737488355328) = 724798065029939 / 140737488355328"
  using round64_eval [of 2 "724798065029939 / 140737488355328"] by (simp add: roundHalfEven_def Let_def)

lemma round64_rod2a: "round64 (1217379274273587 / 70368744177664) = 1217379274273587 / 70368744177664"
  using round64_eval [of 4 "1217379274273587 / 70368744177664"] by (simp add: roundHalfEven_def Let_def)

lemma round64_rod2: "round64 (1217379274273587 / 140737488355328) = 1217379274273587 / 140737488355328"
  using round64_eval [of 3 "1217379274273587 / 140737488355328"] by (simp add: roundHalfEven_def Let_def)

lemma round64_n150: "round64 (150) = 150"
  using round64_eval [of 7 "150"] by (simp add: roundHalfEven_def Let_def)

lemma round64_n200: "round64 (200) = 200"
  using round64_eval [of 7 "200"] by (simp add: roundHalfEven_def Let_def)

lemma round64_min150: "round64 (194217733930352625 / 1125899906842624) = 345 / 2"
  using round64_eval [of 7 "194217733930352625 / 1125899906842624"] by (simp add: roundHalfEven_def Let_def)

lemma round64_zero: "round64 0 = 0"
  by (simp add: round64_def)

lemmas round64_steps =
  round64_zero
  round64_sum1 round64_maxSep round64_const round64_minTotal round64_cur
  round64_diff round64_half round64_rod1 round64_armDiff round64_sep2
  round64_total round64_avg round64_coupler2a round64_coupler2 round64_rod2a
  round64_rod2 round64_n150 round64_n200 round64_min150

lemma growArmsFl_short:
  "growArmsFl round64 fiveBarShortArms =
     fiveBarShortArms\<lparr>couplerLength := 3828059683264921 / 1125899906842624,
       rodLength := Some (1463669878895411 / 140737488355328)\<rparr>"
  by (simp add: growArmsFl_def Let_def fiveBarShortArms_def orElse_def round64_steps)

lemma growRounded_short:
  "growRounded round64 fiveBarShortArms =
     [2, 12, 7, 115 / 100, 7768709357214105 / 562949953421312,
      3828059683264921 / 562949953421312, 3828059683264921 / 1125899906842624,
      3828059683264921 / 1125899906842624, 11709359031163289 / 1125899906842624]"
  by (simp add: growRounded_def Let_def fiveBarShortArms_def orElse_def round64_steps)

lemma pullArmsFl_short:
  "pullArmsFl round64 (growArmsFl round64 fiveBarShortArms) =
     fiveBarShortArms\<lparr>couplerLength := 724798065029939 / 140737488355328,
       rodLength := Some (1217379274273587 / 140737488355328)\<rparr>"
  unfolding growArmsFl_short
  by (simp add: pullArmsFl_def Let_def fiveBarShortArms_def orElse_def round64_steps)

lemma pullRounded_short:
  "pullRounded round64 (growArmsFl round64 fiveBarShortArms) =
     [15537418714428209 / 1125899906842624, 971088669651763 / 140737488355328,
      11596769040479025 / 1125899906842624, 724798065029939 / 140737488355328,
      1217379274273587 / 70368744177664, 1217379274273587 / 140737488355328]"
  unfolding growArmsFl_short
  by (simp add: pullRounded_def Let_def fiveBarShortArms_def orElse_def round64_steps)

lemma normalRange_moderate:
  assumes "1 \<le> x" "x \<le> 1024"
  shows "normalRange x"
proof -
  have "minNormal \<le> 1" by (simp add: minNormal_def)
  moreover have "1024 \<le> maxDouble" by (simp add: maxDouble_def)
  ultimately show ?thesis using assms by (simp add: normalRange_def)
qed

lemma noRangeError_short: "noRangeError round64 fiveBarShortArms"
  unfolding noRangeError_def growRounded_short pullRounded_short
  by (simp add: normalRange_moderate)

lemma growArmsFl_zeroRod: "growArmsFl round64 fiveBarZeroRod = fiveBarZeroRod"
  by (simp add: growArmsFl_def Let_def fiveBarZeroRod_def orElse_def round64_steps)

lemma pullArmsFl_zeroRod: "pullArmsFl round64 fiveBarZeroRod = fiveBarZeroRod"
  by (simp add: pullArmsFl_def Let_def fiveBarZeroRod_def orElse_def round64_steps)

text \<open>
  Claim C1, as amended. Take a five-bar configuration with non-negative length fields, and
  let the repair run in arithmetic that rounds each result with a relative error of at most
  \<open>2^-53\<close>, as double-precision arithmetic does, on a run where none of the results it
  rounds overflows or underflows. Then the configuration \<open>enforceFiveBarConstraints\<close>
  returns satisfies, as an inequality between exact reals,
  \<open>couplerLength + (rodLength || 100) \<ge>
    (1 - 2^-53)^11 * 1.15 * (groundLength + crankLength + rockerLength)\<close>,
  whether or not the pull step fires; when the rod length of the input is present and not 0,
  the rod length of the result is present and
  \<open>couplerLength + rodLength \<ge>
    (1 - 2^-53)^11 * 1.15 * (groundLength + crankLength + rockerLength)\<close>.
  The factor \<open>(1 - 2^-53)^11\<close> pays for the eleven roundings between the three lengths
  and the two arms.
\<close>

theorem enforce_total_arm_rounded:
  assumes "type c = FiveBar" "nonnegLengths c" "rounds fl" "noRangeError fl c"
  shows "let r = enforceFiveBarConstraintsFl fl c in
           (1 - unitRoundoff) ^ 11
               * ((115 / 100) * (groundLength r + crankLength r + rockerLength r))
             \<le> couplerLength r + orElse (rodLength r) 100
           \<and> (truthy (rodLength c) \<longrightarrow>
                (\<exists>v. rodLength r = Some v \<and>
                   (1 - unitRoundoff) ^ 11
                       * ((115 / 100) * (groundLength r + crankLength r + rockerLength r))
                     \<le> couplerLength r + v))"
proof -
  let ?g = "growArmsFl fl c"
  let ?r = "enforceFiveBarConstraintsFl fl c"
  have r: "?r = pullArmsFl fl ?g" using assms(1) by (simp add: enforceFiveBarConstraintsFl_def)
  have c0: "0 \<le> couplerLength c" and g0: "0 \<le> groundLength c" "0 \<le> crankLength c"
    "0 \<le> rockerLength c" using assms(2) by (simp_all add: nonnegLengths_def)
  have e0: "0 < orElse (rodLength c) 100"
    using assms(2) by (intro orElse_100_pos) (simp add: nonnegLengths_def)
  have N: "list_all normalRange (growRounded fl c)" "list_all normalRange (pullRounded fl ?g)"
    using assms(4) by (simp_all add: noRangeError_def)
  note G = growArmsFl_sum [OF assms(3) N(1) c0 e0]
  note P = pullArmsFl_sum [OF assms(3) N(2) G(2) G(3)]
  have abs: "\<bar>groundLength c\<bar> + \<bar>crankLength c\<bar> + \<bar>rockerLength c\<bar>
             = groundLength ?r + crankLength ?r + rockerLength ?r"
    using g0 by (simp add: enforceFl_fields)
  have q: "0 \<le> 1 - unitRoundoff" using keep_range by simp
  have "(1 - unitRoundoff) ^ (4 + 7)
          * ((115 / 100) * (\<bar>groundLength c\<bar> + \<bar>crankLength c\<bar> + \<bar>rockerLength c\<bar>))
        \<le> couplerLength (pullArmsFl fl ?g) + orElse (rodLength (pullArmsFl fl ?g)) 100"
    using q P(1) G(1) by (rule keep_chain)
  then have main: "(1 - unitRoundoff) ^ 11
                     * ((115 / 100) * (groundLength ?r + crankLength ?r + rockerLength ?r))
                   \<le> couplerLength ?r + orElse (rodLength ?r) 100"
    unfolding abs r by simp
  have "\<exists>v. rodLength ?r = Some v \<and>
          (1 - unitRoundoff) ^ 11
              * ((115 / 100) * (groundLength ?r + crankLength ?r + rockerLength ?r))
            \<le> couplerLength ?r + v" if t: "truthy (rodLength c)"
  proof -
    have "truthy (rodLength ?r)" unfolding r by (rule P(2) [OF G(4) [OF t]])
    then have "rodLength ?r = Some (orElse (rodLength ?r) 100)" by (rule truthy_Some_orElse)
    then show ?thesis using main by blast
  qed
  then show ?thesis using main by (simp add: Let_def)
qed

theorem enforce_total_arm_rounded_witness:
  "type fiveBarShortArms = FiveBar \<and> nonnegLengths fiveBarShortArms
   \<and> rounds round64 \<and> noRangeError round64 fiveBarShortArms
   \<and> (1 - unitRoundoff) ^ 11
         * ((115 / 100) * (groundLength (enforceFiveBarConstraintsFl round64 fiveBarShortArms)
              + crankLength (enforceFiveBarConstraintsFl round64 fiveBarShortArms)
              + rockerLength (enforceFiveBarConstraintsFl round64 fiveBarShortArms)))
       \<le> couplerLength (enforceFiveBarConstraintsFl round64 fiveBarShortArms)
           + orElse (rodLength (enforceFiveBarConstraintsFl round64 fiveBarShortArms)) 100
   \<and> truthy (rodLength fiveBarShortArms)
   \<and> (\<exists>v. rodLength (enforceFiveBarConstraintsFl round64 fiveBarShortArms) = Some v
          \<and> (1 - unitRoundoff) ^ 11
                * ((115 / 100)
                   * (groundLength (enforceFiveBarConstraintsFl round64 fiveBarShortArms)
                      + crankLength (enforceFiveBarConstraintsFl round64 fiveBarShortArms)
                      + rockerLength (enforceFiveBarConstraintsFl round64 fiveBarShortArms)))
              \<le> couplerLength (enforceFiveBarConstraintsFl round64 fiveBarShortArms) + v)"
proof -
  have h: "type fiveBarShortArms = FiveBar" "nonnegLengths fiveBarShortArms"
    by (simp_all add: fiveBarShortArms_def nonnegLengths_def)
  have t: "truthy (rodLength fiveBarShortArms)" by (simp add: fiveBarShortArms_def truthy_def)
  show ?thesis
    using h t round64_rounds noRangeError_short
      enforce_total_arm_rounded [OF h round64_rounds noRangeError_short]
    unfolding Let_def by blast
qed

text \<open>
  The claim as stated fails for a rod length of 0: the code reads it as 100, finds the arms
  long enough and close enough, and returns the configuration as it is, with
  \<open>100 + 0 < 1.15 * 150\<close>.
\<close>

theorem enforce_counterexample:
  "type fiveBarZeroRod = FiveBar \<and> nonnegLengths fiveBarZeroRod
   \<and> rodLength (enforceFiveBarConstraints fiveBarZeroRod) = Some 0
   \<and> couplerLength (enforceFiveBarConstraints fiveBarZeroRod)
         + the (rodLength (enforceFiveBarConstraints fiveBarZeroRod))
       < (115 / 100) * (groundLength (enforceFiveBarConstraints fiveBarZeroRod)
           + crankLength (enforceFiveBarConstraints fiveBarZeroRod)
           + rockerLength (enforceFiveBarConstraints fiveBarZeroRod))"
  by (simp add: fiveBarZeroRod_def nonnegLengths_def enforceFiveBarConstraints_def growArms_def
      pullArms_def Let_def orElse_def)

text \<open>
  In double-precision arithmetic that configuration comes back as it is, too. And the factor
  \<open>(1 - 2^-53)^11\<close> cannot be dropped: on the short-armed configuration (ground 1,
  crank 1, rocker 10, coupler 0, rod 7) both steps fire and the doubles returned are
  \<open>5.149999999999999\<close> and \<open>8.649999999999999\<close>, whose sum is below \<open>1.15 * 12\<close>.
\<close>

lemma enforce_zero_rod_rounded:
  "enforceFiveBarConstraintsFl round64 fiveBarZeroRod = fiveBarZeroRod"
  by (simp add: enforceFiveBarConstraintsFl_def growArmsFl_zeroRod pullArmsFl_zeroRod)

lemma enforce_rounding_example:
  "type fiveBarShortArms = FiveBar \<and> nonnegLengths fiveBarShortArms
   \<and> couplerLength (enforceFiveBarConstraintsFl round64 fiveBarShortArms)
        = 724798065029939 / 140737488355328
   \<and> rodLength (enforceFiveBarConstraintsFl round64 fiveBarShortArms)
        = Some (1217379274273587 / 140737488355328)
   \<and> couplerLength (enforceFiveBarConstraintsFl round64 fiveBarShortArms)
         + the (rodLength (enforceFiveBarConstraintsFl round64 fiveBarShortArms))
       < (115 / 100) * (groundLength (enforceFiveBarConstraintsFl round64 fiveBarShortArms)
           + crankLength (enforceFiveBarConstraintsFl round64 fiveBarShortArms)
           + rockerLength (enforceFiveBarConstraintsFl round64 fiveBarShortArms))"
proof -
  have r: "enforceFiveBarConstraintsFl round64 fiveBarShortArms
      = pullArmsFl round64 (growArmsFl round64 fiveBarShortArms)"
    by (simp add: enforceFiveBarConstraintsFl_def fiveBarShortArms_def)
  show ?thesis unfolding r pullArmsFl_short
    by (simp add: fiveBarShortArms_def nonnegLengths_def)
qed

section \<open>Properties of the mutation\<close>

lemma clampLengths_clamped:
  "5 \<le> groundLength (clampLengths c)" "5 \<le> crankLength (clampLengths c)"
  "5 \<le> couplerLength (clampLengths c)" "5 \<le> rockerLength (clampLengths c)"
  "rodOK (rodLength (clampLengths c))"
  by (auto simp: clampLengths_def Let_def rodOK_def truthy_def split: option.splits)

lemma growArms_clamped:
  assumes "5 \<le> couplerLength c" "rodOK (rodLength c)"
  shows "5 \<le> couplerLength (growArms c)" "rodOK (rodLength (growArms c))"
proof -
  have e: "5 \<le> orElse (rodLength c) 100" using assms(2) by (rule rodOK_orElse)
  have c0: "0 \<le> couplerLength c" and e0: "0 < orElse (rodLength c) 100" using assms(1) e by simp_all
  show "5 \<le> couplerLength (growArms c)" using growArms_sum(4) [OF c0 e0] assms(1) by simp
  let ?m = "(\<bar>groundLength c\<bar> + \<bar>crankLength c\<bar> + \<bar>rockerLength c\<bar>) * (115 / 100)"
  let ?t = "\<bar>couplerLength c\<bar> + \<bar>orElse (rodLength c) 100\<bar>"
  show "rodOK (rodLength (growArms c))"
  proof (cases "?t < ?m")
    case True
    then have "5 \<le> orElse (rodLength c) 100 + (?m - ?t) / 2" using e by argo
    then show ?thesis using True by (simp add: growArms_def Let_def rodOK_def)
  next
    case False
    then show ?thesis using assms(2) by (simp add: growArms_def Let_def)
  qed
qed

lemma pullArms_clamped:
  assumes "5 \<le> couplerLength c" "rodOK (rodLength c)"
  shows "5 \<le> couplerLength (pullArms c)" "rodOK (rodLength (pullArms c))"
proof -
  let ?r = "orElse (rodLength c) 100"
  have e: "5 \<le> ?r" using assms(2) by (rule rodOK_orElse)
  have c0: "0 \<le> couplerLength c" and e0: "0 < ?r" using assms(1) e by simp_all
  have m: "5 \<le> min (couplerLength c) ?r" using assms(1) e by simp
  show "5 \<le> couplerLength (pullArms c)" using pullArms_sum(2) [OF c0 e0] m by linarith
  have "5 \<le> (?r + (couplerLength c + ?r) / 2) / 2" using assms(1) e by argo
  then show "rodOK (rodLength (pullArms c))"
    using assms(2) by (simp add: pullArms_def Let_def rodOK_def)
qed

lemma enforce_clamped:
  assumes "5 \<le> couplerLength c" "rodOK (rodLength c)"
  shows "5 \<le> couplerLength (enforceFiveBarConstraints c)"
    "rodOK (rodLength (enforceFiveBarConstraints c))"
  using assms pullArms_clamped [OF growArms_clamped [OF assms]]
  by (simp_all add: enforceFiveBarConstraints_def)

lemma mutateConfig_result:
  "\<exists>c. fst (mutateConfig rnd i config temperature fixedType excludedType) = clampLengths c
       \<or> fst (mutateConfig rnd i config temperature fixedType excludedType)
            = enforceFiveBarConstraints (clampLengths c)"
proof -
  define s6 where "s6 = offsetMutation rnd temperature (fiveBarMutation rnd temperature
      (dimensionMutation rnd temperature (positionMutation rnd temperature
        (scaleMutation rnd temperature
          (structureMutation rnd temperature fixedType excludedType config (config, i))))))"
  have "fst (mutateConfig rnd i config temperature fixedType excludedType)
          = (if type (clampLengths (fst s6)) = FiveBar
             then enforceFiveBarConstraints (clampLengths (fst s6)) else clampLengths (fst s6))"
    unfolding mutateConfig_def s6_def Let_def by simp
  then show ?thesis by metis
qed

text \<open>
  Claim C2, as amended. For every input configuration, temperature, \<open>fixedType\<close>,
  \<open>excludedType\<close> and every outcome of the draws, \<open>mutateConfig\<close> returns a
  configuration whose crank, ground, coupler and rocker lengths are at least 5 and whose
  rod length is missing, 0, or at least 5. (The coupler-point distance is not clamped.)
\<close>

theorem mutateConfig_lengths:
  assumes "unit_draws rnd"
  shows "let r = fst (mutateConfig rnd i config temperature fixedType excludedType) in
           5 \<le> crankLength r \<and> 5 \<le> groundLength r \<and> 5 \<le> couplerLength r \<and> 5 \<le> rockerLength r
           \<and> (case rodLength r of None \<Rightarrow> True | Some v \<Rightarrow> v = 0 \<or> 5 \<le> v)"
proof -
  obtain c where
    "fst (mutateConfig rnd i config temperature fixedType excludedType) = clampLengths c
     \<or> fst (mutateConfig rnd i config temperature fixedType excludedType)
          = enforceFiveBarConstraints (clampLengths c)"
    using mutateConfig_result by blast
  then show ?thesis
  proof
    assume "fst (mutateConfig rnd i config temperature fixedType excludedType) = clampLengths c"
    then show ?thesis
      using clampLengths_clamped [of c] by (simp add: Let_def rodOK_def)
  next
    assume "fst (mutateConfig rnd i config temperature fixedType excludedType)
              = enforceFiveBarConstraints (clampLengths c)"
    then show ?thesis
      using clampLengths_clamped [of c]
        enforce_clamped [OF clampLengths_clamped(3) [of c] clampLengths_clamped(5) [of c]]
      by (simp add: Let_def rodOK_def enforce_fields)
  qed
qed

theorem mutateConfig_lengths_witness:
  "unit_draws (\<lambda>k. 9 / 10)
   \<and> 5 \<le> couplerLength (fst (mutateConfig (\<lambda>k. 9 / 10) 0 presetPiston 1 False None))"
proof -
  have h: "unit_draws (\<lambda>k. 9 / 10)" by (simp add: unit_draws_def)
  show ?thesis using h mutateConfig_lengths [OF h, of 0 presetPiston 1 False None]
    by (simp add: Let_def)
qed

text \<open>
  The claim as stated fails on the piston preset with a rod length of 0, when no mutation
  fires (every draw is 0.9): the coupler-point distance 0 and the rod length 0 come back
  unchanged.
\<close>

theorem mutateConfig_counterexample:
  "unit_draws (\<lambda>k. 9 / 10)
   \<and> couplerPointDist (fst (mutateConfig (\<lambda>k. 9 / 10) 0 pistonZeroRod 1 False None)) = 0
   \<and> rodLength (fst (mutateConfig (\<lambda>k. 9 / 10) 0 pistonZeroRod 1 False None)) = Some 0"
  by (simp add: unit_draws_def mutateConfig_def structureMutation_def scaleMutation_def
      positionMutation_def dimensionMutation_def fiveBarMutation_def offsetMutation_def
      clampLengths_def chance_def Let_def pistonZeroRod_def presetPiston_def truthy_def)

section \<open>Properties of the candidate generator\<close>

lemma generateSmartConfig_type_pick:
  "type (fst (generateSmartConfig fmt rnd i targetPath forcedType excludedType))
     = pick (availableTypes forcedType excludedType) (rnd i)"
  by (simp add: generateSmartConfig_def Let_def enforce_fields)

lemma pickIndex_eq_iff:
  assumes "0 \<le> r" "0 < n"
  shows "(pickIndex r n = k) = (real k / real n \<le> r \<and> r < real (k + 1) / real n)"
proof -
  have nn: "0 \<le> r * real n" using assms by simp
  have "(pickIndex r n = k) = (\<lfloor>r * real n\<rfloor> = int k)"
    unfolding pickIndex_def using nn by (metis nat_int zero_le_floor int_nat_eq)
  also have "\<dots> = (real k \<le> r * real n \<and> r * real n < real k + 1)"
    by (simp add: floor_eq_iff)
  also have "\<dots> = (real k / real n \<le> r \<and> r < real (k + 1) / real n)"
    using assms(2) by (simp add: field_simps)
  finally show ?thesis .
qed

lemma pickIndex_less:
  assumes "0 \<le> r" "r < 1" "0 < n"
  shows "pickIndex r n < n"
proof -
  have "r * real n < real n" using assms by simp
  then have "\<lfloor>r * real n\<rfloor> < int n" by (simp add: floor_less_iff)
  moreover have "0 \<le> \<lfloor>r * real n\<rfloor>" using assms by simp
  ultimately show ?thesis unfolding pickIndex_def by linarith
qed

lemma availableTypes_distinct: "distinct (availableTypes forcedType excludedType)"
  by (simp add: availableTypes_def MECHANISM_TYPES_def split: option.splits)

lemma availableTypes_Crank:
  assumes "Crank \<in> set (availableTypes forcedType excludedType)"
  shows "forcedType = Some Crank"
proof (cases forcedType)
  case None
  have "set (availableTypes None excludedType) \<subseteq> set MECHANISM_TYPES"
    by (cases excludedType) (simp_all add: availableTypes_def)
  then have "Crank \<in> set MECHANISM_TYPES" using assms None by blast
  then show ?thesis by (simp add: MECHANISM_TYPES_def)
next
  case (Some f)
  then show ?thesis using assms by (simp add: availableTypes_def)
qed

lemma availableTypes_nonempty: "0 < length (availableTypes forcedType excludedType)"
  by (cases excludedType; cases forcedType; simp add: availableTypes_def MECHANISM_TYPES_def)

text \<open>
  Claim C3, as amended. \<open>generateSmartConfig\<close> takes the variant from the list
  \<open>ts\<close> of allowed variants: the one forced type, or else the five variants
  four-bar, piston, yoke, quick-return and five-bar without the excluded one. The list is
  not empty, the chosen variant is in it, and the \<open>k\<close>-th of its \<open>n\<close> entries is
  chosen exactly for the draws in \<open>[k / n, (k + 1) / n)\<close>, intervals of one length:
  the choice is uniform over \<open>ts\<close>. Crank is chosen only when it is the forced type.
\<close>

theorem generateSmartConfig_type:
  assumes "unit_draws rnd"
  shows "let ts = availableTypes forcedType excludedType;
             n = length ts;
             t = type (fst (generateSmartConfig fmt rnd i targetPath forcedType excludedType))
         in ts = (case forcedType of
                    Some f \<Rightarrow> [f]
                  | None \<Rightarrow> filter (\<lambda>t. Some t \<noteq> excludedType) [FourBar, Piston, Yoke, QuickReturn, FiveBar])
            \<and> 0 < n \<and> t \<in> set ts
            \<and> (\<forall>k<n. (t = ts ! k) = (real k / real n \<le> rnd i \<and> rnd i < real (k + 1) / real n))
            \<and> (t = Crank \<longrightarrow> forcedType = Some Crank)"
proof -
  let ?ts = "availableTypes forcedType excludedType"
  let ?n = "length ?ts"
  let ?t = "type (fst (generateSmartConfig fmt rnd i targetPath forcedType excludedType))"
  have r: "0 \<le> rnd i" "rnd i < 1" using assms by (simp_all add: unit_draws_def)
  have n: "0 < ?n" by (rule availableTypes_nonempty)
  have t: "?t = ?ts ! pickIndex (rnd i) ?n"
    by (simp add: generateSmartConfig_type_pick pick_def)
  have lt: "pickIndex (rnd i) ?n < ?n" using r n by (rule pickIndex_less)
  have 1: "?ts = (case forcedType of
                    Some f \<Rightarrow> [f]
                  | None \<Rightarrow> filter (\<lambda>t. Some t \<noteq> excludedType) [FourBar, Piston, Yoke, QuickReturn, FiveBar])"
    by (cases excludedType; cases forcedType) (simp_all add: availableTypes_def MECHANISM_TYPES_def)
  have 2: "?t \<in> set ?ts" unfolding t using lt by simp
  have 3: "(?t = ?ts ! k) = (real k / real ?n \<le> rnd i \<and> rnd i < real (k + 1) / real ?n)"
    if "k < ?n" for k
  proof -
    have "(?t = ?ts ! k) = (pickIndex (rnd i) ?n = k)"
      unfolding t using availableTypes_distinct lt that by (simp add: nth_eq_iff_index_eq)
    then show ?thesis using pickIndex_eq_iff [OF r(1) n] by simp
  qed
  have 4: "forcedType = Some Crank" if "?t = Crank"
    using 2 that availableTypes_Crank [of forcedType excludedType] by simp
  show ?thesis unfolding Let_def using 1 n 2 3 4 by blast
qed

theorem generateSmartConfig_type_witness:
  "unit_draws (\<lambda>k. 1 / 2)
   \<and> type (fst (generateSmartConfig (\<lambda>r. []) (\<lambda>k. 1 / 2) 0 None None None))
       \<in> set (availableTypes None None)"
proof -
  have h: "unit_draws (\<lambda>k. 1 / 2)" by (simp add: unit_draws_def)
  show ?thesis
    using h generateSmartConfig_type [OF h, of None None "\<lambda>r. []" 0 None]
    unfolding Let_def by blast
qed

text \<open>
  The claim as stated fails without a forced type: \<open>MECHANISM_TYPES\<close> has five
  entries and crank is not one of them, so no draw returns the crank variant.
\<close>

theorem generateSmartConfig_crank_counterexample:
  "availableTypes None None = [FourBar, Piston, Yoke, QuickReturn, FiveBar]
   \<and> Crank \<notin> set (availableTypes None None)
   \<and> \<not> (\<exists>rnd. unit_draws rnd
          \<and> type (fst (generateSmartConfig (\<lambda>r. []) rnd 0 None None None)) = Crank)"
proof -
  have a: "availableTypes None None = [FourBar, Piston, Yoke, QuickReturn, FiveBar]"
    by (simp add: availableTypes_def MECHANISM_TYPES_def)
  have "type (fst (generateSmartConfig (\<lambda>r. []) rnd 0 None None None)) \<noteq> Crank"
    if u: "unit_draws rnd" for rnd
  proof -
    let ?ts = "availableTypes None None"
    have r: "0 \<le> rnd 0" "rnd 0 < 1" using u by (simp_all add: unit_draws_def)
    have "pickIndex (rnd 0) (length ?ts) < length ?ts"
      using r availableTypes_nonempty by (rule pickIndex_less)
    then have "pick ?ts (rnd 0) \<in> set ?ts" unfolding pick_def by (rule nth_mem)
    then show ?thesis unfolding generateSmartConfig_type_pick a by auto
  qed
  then show ?thesis using a by auto
qed

section \<open>Properties of the fitness evaluation\<close>

subsection \<open>The nearest-point sums\<close>

lemma sqDist_nonneg: "0 \<le> sqDist a b"
  by (simp add: sqDist_def)

lemma minDist_fold_Fin:
  "0 \<le> v \<Longrightarrow> \<exists>u\<ge>0. foldl (\<lambda>minD b. if num_less (Fin (sqDist a b)) minD then Fin (sqDist a b) else minD)
       (Fin v) bs = Fin u"
proof (induction bs arbitrary: v)
  case Nil
  then show ?case by simp
next
  case (Cons b bs)
  show ?case
    using Cons.IH [of v] Cons.IH [of "sqDist a b"] Cons.prems sqDist_nonneg [of a b]
    by simp
qed

lemma minDist_Nil: "minDist a [] = PosInf"
  by (simp add: minDist_def)

lemma minDist_Fin: "bs \<noteq> [] \<Longrightarrow> \<exists>u\<ge>0. minDist a bs = Fin u"
proof (cases bs)
  case Nil
  then show "bs \<noteq> [] \<Longrightarrow> ?thesis" by simp
next
  case (Cons b bs')
  then show ?thesis
    using minDist_fold_Fin [of "sqDist a b" a bs'] sqDist_nonneg [of a b] by (simp add: minDist_def)
qed

lemma sumMinDist_fold_Fin:
  assumes "bs \<noteq> []" "0 \<le> v"
  shows "\<exists>u\<ge>0. foldl (\<lambda>err a. num_add err (minDist a bs)) (Fin v) as = Fin u"
  using assms(2)
proof (induction as arbitrary: v)
  case Nil
  then show ?case by simp
next
  case (Cons a as)
  obtain m where m: "0 \<le> m" "minDist a bs = Fin m" using minDist_Fin [OF assms(1)] by blast
  show ?case using Cons.IH [of "v + m"] Cons.prems m by simp
qed

lemma sumMinDist_Fin: "bs \<noteq> [] \<Longrightarrow> \<exists>u\<ge>0. sumMinDist as bs = Fin u"
  unfolding sumMinDist_def by (rule sumMinDist_fold_Fin) simp_all

lemma sumMinDist_Nil_left: "sumMinDist [] bs = Fin 0"
  by (simp add: sumMinDist_def)

lemma sum_PosInf_fold:
  "foldl (\<lambda>err a. num_add err PosInf) PosInf as = PosInf"
  by (induction as) simp_all

lemma sumMinDist_Nil_right: "as \<noteq> [] \<Longrightarrow> sumMinDist as [] = PosInf"
  by (cases as) (simp_all add: sumMinDist_def minDist_Nil sum_PosInf_fold)

subsection \<open>The sampled curve\<close>

lemma sample_fold:
  "snd (foldl (sampleStep c r) acc xs) \<le> snd acc + length xs
   \<and> snd acc \<le> snd (foldl (sampleStep c r) acc xs)
   \<and> length (fst (foldl (sampleStep c r) acc xs)) + snd acc
       = length (fst acc) + snd (foldl (sampleStep c r) acc xs)"
proof (induction xs arbitrary: acc)
  case Nil
  then show ?case by simp
next
  case (Cons x xs)
  show ?case using Cons.IH [of "sampleStep c r acc x"]
    by (auto simp: sampleStep_def Let_def)
qed

lemma sample_fold_all_valid:
  assumes "\<And>a. isValid (calculateLinkage c a)"
  shows "snd (foldl (sampleStep c r) acc xs) = snd acc + length xs"
proof (induction xs arbitrary: acc)
  case Nil
  then show ?case by simp
next
  case (Cons x xs)
  show ?case using Cons.IH [of "sampleStep c r acc x"] assms
    by (simp add: sampleStep_def Let_def)
qed

lemma generateCurvePoints_count:
  assumes "0 < resolution"
  shows "\<exists>k. k \<le> resolution * (if type c = FiveBar then 8 else 1)
          \<and> length (points (generateCurvePoints c resolution)) = k
          \<and> percentValid (generateCurvePoints c resolution)
              = Fin (real k / real (resolution * (if type c = FiveBar then 8 else 1)))"
proof -
  let ?res = "resolution * (if type c = FiveBar then 8 else 1)"
  let ?acc = "foldl (sampleStep c resolution) ([], 0) [0..<?res]"
  have "snd ?acc \<le> ?res" "length (fst ?acc) = snd ?acc"
    using sample_fold [of c resolution "([], 0)" "[0..<?res]"] by simp_all
  moreover have "0 < ?res" using assms by simp
  ultimately show ?thesis
    by (intro exI [of _ "snd ?acc"]) (simp add: generateCurvePoints_def Let_def)
qed

lemma generateCurvePoints_all_valid:
  assumes "\<And>a. isValid (calculateLinkage c a)"
  shows "length (points (generateCurvePoints c resolution))
           = resolution * (if type c = FiveBar then 8 else 1)"
    and "0 < resolution \<Longrightarrow> percentValid (generateCurvePoints c resolution) = Fin 1"
proof -
  let ?res = "resolution * (if type c = FiveBar then 8 else 1)"
  let ?acc = "foldl (sampleStep c resolution) ([], 0) [0..<?res]"
  have s: "snd ?acc = ?res" using sample_fold_all_valid [OF assms, of resolution "([], 0)" "[0..<?res]"]
    by simp
  have l: "length (fst ?acc) = snd ?acc"
    using sample_fold [of c resolution "([], 0)" "[0..<?res]"] by simp
  show "length (points (generateCurvePoints c resolution)) = ?res"
    using s l by (simp add: generateCurvePoints_def Let_def)
  show "percentValid (generateCurvePoints c resolution) = Fin 1" if "0 < resolution"
    using s that by (simp add: generateCurvePoints_def Let_def)
qed

lemma closurePenaltyOf_nonneg: "0 \<le> closurePenaltyOf c pts"
  by (simp add: closurePenaltyOf_def Let_def)

lemma evaluateFitness_unfold:
  assumes "percentValid (generateCurvePoints c (if type c = FiveBar then 120 else 60)) = Fin p"
  shows "evaluateFitness c targetPath =
     (let pts = points (generateCurvePoints c (if type c = FiveBar then 120 else 60))
      in if p < 1 then Fin (1000000000 + (1 - p) * 1000000000)
         else if length pts < 10 then Fin 1000000000
         else num_add (num_add (num_div_nat (sumMinDist pts targetPath) (length pts))
                               (num_div_nat (sumMinDist targetPath pts) (length targetPath)))
                      (Fin (closurePenaltyOf c pts)))"
  using assms
  by (simp add: evaluateFitness_def Let_def closurePenaltyOf_def num_sub_def)

lemma first_sample_invalid:
  assumes "\<not> isValid (calculateLinkage c 0)" "0 < resolution"
  shows "\<exists>p<1. percentValid (generateCurvePoints c resolution) = Fin p"
proof -
  let ?res = "resolution * (if type c = FiveBar then 8 else 1)"
  have res: "0 < ?res" using assms(2) by simp
  have up: "[0..<?res] = 0 # [Suc 0..<?res]" using res by (simp add: upt_conv_Cons)
  have s0: "sampleStep c resolution ([], 0) 0 = ([], 0)"
    using assms(1) by (simp add: sampleStep_def Let_def)
  let ?acc = "foldl (sampleStep c resolution) ([], 0) [0..<?res]"
  have "snd ?acc \<le> ?res - 1"
    unfolding up using sample_fold [of c resolution "([], 0)" "[Suc 0..<?res]"] s0 by simp
  then have lt: "real (snd ?acc) < real ?res" using res by linarith
  have "real (snd ?acc) / real ?res < 1" using lt res by simp
  moreover have "percentValid (generateCurvePoints c resolution) = Fin (real (snd ?acc) / real ?res)"
    using res by (simp add: generateCurvePoints_def Let_def)
  ultimately show ?thesis by blast
qed

lemma pistonShortCoupler_invalid: "\<not> isValid (calculateLinkage pistonShortCoupler 0)"
  by (simp add: calculateLinkage_def Let_def pistonShortCoupler_def presetPiston_def nullish_def toRad_def)

lemma valid_fraction:
  "\<exists>p. percentValid (generateCurvePoints c (if type c = FiveBar then 120 else 60)) = Fin p
       \<and> 0 \<le> p \<and> p \<le> 1"
proof -
  let ?r = "if type c = FiveBar then 120 else 60 :: nat"
  let ?curve = "generateCurvePoints c ?r"
  have r0: "0 < ?r" by simp
  obtain k where k: "k \<le> ?r * (if type c = FiveBar then 8 else 1)"
    "percentValid ?curve = Fin (real k / real (?r * (if type c = FiveBar then 8 else 1)))"
    using generateCurvePoints_count [OF r0, of c] by blast
  define res where "res = ?r * (if type c = FiveBar then 8 else 1)"
  have res0: "0 < res" by (simp add: res_def)
  have kres: "k \<le> res" using k(1) by (simp only: res_def)
  have "percentValid ?curve = Fin (real k / real res)" using k(2) by (simp only: res_def)
  moreover have "0 \<le> real k / real res" by simp
  moreover have "real k / real res \<le> 1" using res0 kres by simp
  ultimately show ?thesis by blast
qed

lemma evaluateFitness_penalty:
  assumes "percentValid (generateCurvePoints c (if type c = FiveBar then 120 else 60)) = Fin p"
    "p < 1"
  shows "evaluateFitness c targetPath = Fin (1000000000 + (1 - p) * 1000000000)"
  using evaluateFitness_unfold [OF assms(1), of targetPath] assms(2) by (simp add: Let_def)

lemma evaluateFitness_Fin:
  assumes ne: "targetPath \<noteq> []"
  shows "\<exists>v\<ge>0. evaluateFitness c targetPath = Fin v"
proof -
  let ?pts = "points (generateCurvePoints c (if type c = FiveBar then 120 else 60))"
  obtain p where p: "percentValid (generateCurvePoints c (if type c = FiveBar then 120 else 60)) = Fin p"
    "0 \<le> p" "p \<le> 1"
    using valid_fraction [of c] by blast
  note E = evaluateFitness_unfold [OF p(1), of targetPath]
  show ?thesis
  proof (cases "p < 1")
    case True
    have "evaluateFitness c targetPath = Fin (1000000000 + (1 - p) * 1000000000)"
      using p(1) True by (rule evaluateFitness_penalty)
    moreover have "0 \<le> 1000000000 + (1 - p) * 1000000000" using p(3) by simp
    ultimately show ?thesis by blast
  next
    case False
    show ?thesis
    proof (cases "length ?pts < 10")
      case True
      then have "evaluateFitness c targetPath = Fin 1000000000"
        using E False by (simp add: Let_def)
      then show ?thesis by simp
    next
      case long: False
      then have pne: "?pts \<noteq> []" by auto
      obtain f where f: "0 \<le> f" "sumMinDist ?pts targetPath = Fin f"
        using sumMinDist_Fin [OF ne] by blast
      obtain b where b: "0 \<le> b" "sumMinDist targetPath ?pts = Fin b"
        using sumMinDist_Fin [OF pne] by blast
      have l1: "0 < length ?pts" using pne by simp
      have l2: "0 < length targetPath" using ne by simp
      have "evaluateFitness c targetPath
              = Fin (f / real (length ?pts) + b / real (length targetPath) + closurePenaltyOf c ?pts)"
        using E False long f(2) b(2) l1 l2 by (simp add: Let_def)
      moreover have "0 \<le> f / real (length ?pts) + b / real (length targetPath) + closurePenaltyOf c ?pts"
        using f(1) b(1) closurePenaltyOf_nonneg [of c ?pts] by simp
      ultimately show ?thesis by blast
    qed
  qed
qed

text \<open>
  Claim C4, as amended. The valid fraction \<open>p\<close> of the sampled curve is a real in
  \<open>[0, 1]\<close>. For every configuration and every target path, whenever \<open>p < 1\<close>,
  \<open>evaluateFitness\<close> returns exactly \<open>1e9 + (1 - p) * 1e9\<close>, which is at least
  \<open>1e9\<close>. For every configuration and every non-empty target path it returns a value
  that is at least 0; \<open>Infinity\<close> is such a value, NaN is not.
\<close>

theorem evaluateFitness_bounds:
  "let curve = generateCurvePoints c (if type c = FiveBar then 120 else 60) in
     (\<exists>p. percentValid curve = Fin p \<and> 0 \<le> p \<and> p \<le> 1
        \<and> (p < 1 \<longrightarrow>
              evaluateFitness c targetPath = Fin (1000000000 + (1 - p) * 1000000000)
              \<and> num_le (Fin 1000000000) (evaluateFitness c targetPath)))
     \<and> (targetPath \<noteq> [] \<longrightarrow> num_le (Fin 0) (evaluateFitness c targetPath))"
proof -
  obtain p where p: "percentValid (generateCurvePoints c (if type c = FiveBar then 120 else 60)) = Fin p"
    "0 \<le> p" "p \<le> 1"
    using valid_fraction [of c] by blast
  have "evaluateFitness c targetPath = Fin (1000000000 + (1 - p) * 1000000000)
        \<and> num_le (Fin 1000000000) (evaluateFitness c targetPath)" if "p < 1"
    using evaluateFitness_penalty [OF p(1) that, of targetPath] that by simp
  moreover have "num_le (Fin 0) (evaluateFitness c targetPath)" if "targetPath \<noteq> []"
    using evaluateFitness_Fin [OF that, of c] by auto
  ultimately show ?thesis unfolding Let_def using p by blast
qed

theorem evaluateFitness_bounds_witness:
  "[Point 100 0] \<noteq> [] \<and> num_le (Fin 0) (evaluateFitness crank50 [Point 100 0])
   \<and> (\<exists>p. percentValid (generateCurvePoints pistonShortCoupler 60) = Fin p \<and> p < 1
          \<and> evaluateFitness pistonShortCoupler [] = Fin (1000000000 + (1 - p) * 1000000000)
          \<and> num_le (Fin 1000000000) (evaluateFitness pistonShortCoupler []))"
proof -
  have t: "(if type pistonShortCoupler = FiveBar then 120 else 60) = (60::nat)"
    by (simp add: pistonShortCoupler_def presetPiston_def)
  obtain q where q: "q < 1" "percentValid (generateCurvePoints pistonShortCoupler 60) = Fin q"
    using first_sample_invalid [OF pistonShortCoupler_invalid, of 60] by auto
  have a: "num_le (Fin 0) (evaluateFitness crank50 [Point 100 0])"
    using evaluateFitness_bounds [of crank50 "[Point 100 0]"] unfolding Let_def by blast
  have "evaluateFitness pistonShortCoupler [] = Fin (1000000000 + (1 - q) * 1000000000)
        \<and> num_le (Fin 1000000000) (evaluateFitness pistonShortCoupler [])"
    using evaluateFitness_bounds [of pistonShortCoupler "[]"] q unfolding Let_def t by auto
  then show ?thesis using a q by blast
qed

text \<open>
  The claim as stated fails on the empty target path: a crank is valid at every sample, so
  the forward error is \<open>Infinity\<close> (no target point lowers \<open>minD\<close>), the backward
  error is \<open>0 / 0\<close>, and the sum is NaN, which is not \<open>\<ge> 0\<close>.
\<close>

theorem evaluateFitness_empty_path_counterexample:
  "evaluateFitness crank50 [] = NaN \<and> \<not> num_le (Fin 0) (evaluateFitness crank50 [])"
proof -
  have t: "type crank50 = Crank" by (simp add: crank50_def)
  have v: "\<And>a. isValid (calculateLinkage crank50 a)" using t by (rule crank_isValid)
  let ?pts = "points (generateCurvePoints crank50 60)"
  have len: "length ?pts = 60" using generateCurvePoints_all_valid(1) [OF v, of 60] t by simp
  have pv: "percentValid (generateCurvePoints crank50 (if type crank50 = FiveBar then 120 else 60)) = Fin 1"
    using generateCurvePoints_all_valid(2) [OF v, of 60] t by simp
  have pne: "?pts \<noteq> []" using len by auto
  have "evaluateFitness crank50 [] = NaN"
    using evaluateFitness_unfold [OF pv, of "[]"] t len
    by (simp add: Let_def sumMinDist_Nil_right [OF pne] sumMinDist_Nil_left)
  then show ?thesis by simp
qed

section \<open>Properties of the evolutionary loop\<close>

lemma insertByScore_length: "length (insertByScore a bs) = Suc (length bs)"
  by (induction bs) simp_all

lemma insertByScore_set: "set (insertByScore a bs) = insert a (set bs)"
  by (induction bs) auto

lemma sortByScore_length: "length (sortByScore xs) = length xs"
  unfolding sortByScore_def by (induction xs) (simp_all add: insertByScore_length)

lemma sortByScore_set: "set (sortByScore xs) = set xs"
  unfolding sortByScore_def by (induction xs) (simp_all add: insertByScore_set)

lemma pushUntilFull_length:
  "length xs \<le> POPULATION_SIZE \<Longrightarrow> length (fst (pushUntilFull new (xs, i, t))) = POPULATION_SIZE"
proof (induction new "(xs, i, t)" arbitrary: xs i t rule: pushUntilFull.induct)
  case (1 new xs i t)
  show ?case
  proof (cases "length xs < POPULATION_SIZE")
    case True
    obtain c i' t' where n: "new (i, t) = (c, i', t')" by (cases "new (i, t)") auto
    have "length (fst (pushUntilFull new (xs @ [c], i', t'))) = POPULATION_SIZE"
      using "1.hyps" [OF True n [symmetric] refl] True by simp
    then show ?thesis using True n by (subst pushUntilFull.simps) simp
  next
    case False
    then show ?thesis using "1.prems" by (subst pushUntilFull.simps) simp
  qed
qed

lemma num_less_le: "num_less a b \<Longrightarrow> num_le a b"
  by (cases a; cases b) simp_all

lemma startEvolution_inv:
  assumes "userPath \<noteq> []"
  shows "driverInv (startEvolution fmt rnd clock userPath forcedType excludedType poolSource i)"
proof -
  let ?new = "freshMember fmt rnd userPath forcedType excludedType"
  let ?xs = "map mech (take POPULATION_SIZE poolSource)"
  obtain pop i' t where p: "pushUntilFull ?new (?xs, i, 0) = (pop, i', t)"
    by (cases "pushUntilFull ?new (?xs, i, 0)") auto
  have "length ?xs \<le> POPULATION_SIZE" by simp
  then have "length pop = POPULATION_SIZE"
    using pushUntilFull_length [of ?xs ?new i 0] p by simp
  then show ?thesis
    using evaluateFitness_Fin [OF assms, of "pop ! 0"]
    by (simp add: driverInv_def startEvolution_def p)
qed

lemma generationStep_inv:
  assumes "userPath \<noteq> []" "driverInv s"
  shows "\<exists>s'. generationStep fmt rnd clock userPath forcedType excludedType timeLimit s = Some s'
           \<and> driverInv s'
           \<and> generation s' = generation s + 1
           \<and> (globalBestScore s' = globalBestScore s
               \<or> num_less (globalBestScore s') (globalBestScore s))"
proof -
  let ?scored = "sortByScore (map (\<lambda>m. \<lparr>mech = m, score = evaluateFitness m userPath\<rparr>) (population s))"
  have len: "length ?scored = POPULATION_SIZE"
    using assms(2) by (simp add: sortByScore_length driverInv_def)
  then have l15: "\<not> length ?scored < 15" by (simp add: POPULATION_SIZE_def)
  have "?scored ! 0 \<in> set ?scored" using len by (intro nth_mem) (simp add: POPULATION_SIZE_def)
  then obtain m where m: "?scored ! 0 = \<lparr>mech = m, score = evaluateFitness m userPath\<rparr>"
    unfolding sortByScore_set by auto
  obtain b where b: "0 \<le> b" "score (?scored ! 0) = Fin b"
    using evaluateFitness_Fin [OF assms(1), of m] m by auto
  obtain g where g: "0 \<le> g" "globalBestScore s = Fin g"
    using assms(2) by (auto simp: driverInv_def)
  let ?new = "nextMember fmt rnd clock userPath forcedType excludedType timeLimit
                (startTime s) (generation s) (take (POPULATION_SIZE div 2) ?scored)"
  let ?elite = "map mech (take 15 ?scored)"
  obtain nextGen i' t' where p: "pushUntilFull ?new (?elite, drawIndex s, clockIndex s) = (nextGen, i', t')"
    by (cases "pushUntilFull ?new (?elite, drawIndex s, clockIndex s)") auto
  have "length ?elite \<le> POPULATION_SIZE" by (simp add: POPULATION_SIZE_def)
  then have n: "length nextGen = POPULATION_SIZE"
    using pushUntilFull_length [of ?elite ?new "drawIndex s" "clockIndex s"] p by simp
  show ?thesis
    using l15 p n b g
    by (auto simp: generationStep_def Let_def driverInv_def)
qed


lemma loopPass_Continue:
  assumes "userPath \<noteq> []" "driverInv s"
    "loopPass fmt rnd clock userPath forcedType excludedType timeLimit s \<noteq> Break"
  shows "\<exists>s'. loopPass fmt rnd clock userPath forcedType excludedType timeLimit s = Continue s'
           \<and> driverInv s'
           \<and> (globalBestScore s' = globalBestScore s
               \<or> num_less (globalBestScore s') (globalBestScore s))"
proof -
  let ?s0 = "if timeLimit > 0 then s\<lparr>clockIndex := clockIndex s + 1\<rparr> else s"
  have i0: "driverInv ?s0" using assms(2) by (simp add: driverInv_def)
  have g0: "globalBestScore ?s0 = globalBestScore s" by simp
  obtain s' where s': "generationStep fmt rnd clock userPath forcedType excludedType timeLimit ?s0 = Some s'"
    "driverInv s'"
    "globalBestScore s' = globalBestScore ?s0 \<or> num_less (globalBestScore s') (globalBestScore ?s0)"
    using generationStep_inv [OF assms(1) i0] by blast
  have "loopPass fmt rnd clock userPath forcedType excludedType timeLimit s = Continue s'"
    using assms(3) s'(1) by (simp add: loopPass_def Let_def split: if_splits)
  then show ?thesis using s'(2,3) unfolding g0 by blast
qed

lemma afterGenerations_inv:
  assumes "userPath \<noteq> []" "driverInv s0"
  shows "afterGenerations fmt rnd clock userPath forcedType excludedType timeLimit k s0 = Some s
           \<Longrightarrow> driverInv s"
proof (induction k arbitrary: s)
  case 0
  then show ?case using assms(2) by simp
next
  case (Suc k)
  then obtain s1 where s1:
    "afterGenerations fmt rnd clock userPath forcedType excludedType timeLimit k s0 = Some s1"
    "loopPass fmt rnd clock userPath forcedType excludedType timeLimit s1 = Continue s"
    by (auto split: option.splits LoopResult.splits)
  have i1: "driverInv s1" using Suc.IH s1(1) by blast
  have nb: "loopPass fmt rnd clock userPath forcedType excludedType timeLimit s1 \<noteq> Break"
    using s1(2) by simp
  obtain s' where "loopPass fmt rnd clock userPath forcedType excludedType timeLimit s1 = Continue s'"
    "driverInv s'"
    using loopPass_Continue [OF assms(1) i1 nb] by blast
  then show ?case using s1(2) by simp
qed

lemma loopPass_generation:
  assumes "userPath \<noteq> []" "driverInv s" "\<not> timeLimit > 0" "generation s < DEFAULT_GENERATIONS"
  shows "\<exists>s'. loopPass fmt rnd clock userPath forcedType excludedType timeLimit s = Continue s'
           \<and> generation s' = generation s + 1"
proof -
  obtain s' where s': "generationStep fmt rnd clock userPath forcedType excludedType timeLimit s = Some s'"
    "generation s' = generation s + 1"
    using generationStep_inv [OF assms(1,2)] by blast
  then show ?thesis using assms(3,4) by (simp add: loopPass_def Let_def)
qed

lemma startEvolution_generation:
  "generation (startEvolution fmt rnd clock userPath forcedType excludedType poolSource i) = 0"
  by (simp add: startEvolution_def split: prod.splits)

text \<open>
  In generation-count mode the loop runs its \<open>DEFAULT_GENERATIONS\<close> generations: each of
  them takes place.
\<close>

lemma afterGenerations_count_mode:
  assumes "userPath \<noteq> []" "\<not> timeLimit > 0" "k \<le> DEFAULT_GENERATIONS"
  shows "\<exists>s. afterGenerations fmt rnd clock userPath forcedType excludedType timeLimit k
               (startEvolution fmt rnd clock userPath forcedType excludedType poolSource i) = Some s
           \<and> generation s = k"
  using assms(3)
proof (induction k)
  case 0
  then show ?case by (simp add: startEvolution_generation)
next
  case (Suc k)
  let ?s0 = "startEvolution fmt rnd clock userPath forcedType excludedType poolSource i"
  obtain s where s: "afterGenerations fmt rnd clock userPath forcedType excludedType timeLimit k ?s0 = Some s"
    "generation s = k"
    using Suc by auto
  have inv: "driverInv s"
    using afterGenerations_inv [OF assms(1) startEvolution_inv [OF assms(1)] s(1)] .
  have "generation s < DEFAULT_GENERATIONS" using s(2) Suc.prems by simp
  then obtain s' where "loopPass fmt rnd clock userPath forcedType excludedType timeLimit s = Continue s'"
    "generation s' = generation s + 1"
    using loopPass_generation [OF assms(1) inv assms(2)] by blast
  then show ?case using s by simp
qed

text \<open>
  Claim C9. Across the evolutionary loop the tracked global-best score never goes up: when
  \<open>k\<close> generations have run from the start of the loop (with a target path of at least 3
  points, as \<open>runOptimization\<close> requires) and the loop goes on, generation \<open>k + 1\<close>
  takes place and leaves a global-best score that is \<open>\<le>\<close> the score after generation
  \<open>k\<close>; the score is either unchanged or strictly smaller.
\<close>

theorem globalBestScore_monotone:
  assumes "3 \<le> length userPath" "unit_draws rnd"
    "afterGenerations fmt rnd clock userPath forcedType excludedType timeLimit k
       (startEvolution fmt rnd clock userPath forcedType excludedType poolSource i) = Some s"
    "loopPass fmt rnd clock userPath forcedType excludedType timeLimit s \<noteq> Break"
  shows "\<exists>s'. afterGenerations fmt rnd clock userPath forcedType excludedType timeLimit (Suc k)
                 (startEvolution fmt rnd clock userPath forcedType excludedType poolSource i) = Some s'
           \<and> num_le (globalBestScore s') (globalBestScore s)
           \<and> (globalBestScore s' = globalBestScore s
               \<or> num_less (globalBestScore s') (globalBestScore s))"
proof -
  have ne: "userPath \<noteq> []" using assms(1) by auto
  have inv: "driverInv s"
    using afterGenerations_inv [OF ne startEvolution_inv [OF ne] assms(3)] .
  obtain s' where s': "loopPass fmt rnd clock userPath forcedType excludedType timeLimit s = Continue s'"
    "globalBestScore s' = globalBestScore s \<or> num_less (globalBestScore s') (globalBestScore s)"
    using loopPass_Continue [OF ne inv assms(4)] by blast
  obtain g where g: "globalBestScore s = Fin g" using inv by (auto simp: driverInv_def)
  have "num_le (globalBestScore s') (globalBestScore s)"
    using s'(2) g num_less_le [of "globalBestScore s'" "globalBestScore s"] by auto
  then show ?thesis using assms(3) s' by simp
qed

theorem globalBestScore_monotone_witness:
  "3 \<le> length threePoints \<and> unit_draws (\<lambda>k. 1 / 2)
   \<and> afterGenerations (\<lambda>r. []) (\<lambda>k. 1 / 2) (\<lambda>k. 0) threePoints None None 0 0
        (startEvolution (\<lambda>r. []) (\<lambda>k. 1 / 2) (\<lambda>k. 0) threePoints None None [] 0)
      = Some (startEvolution (\<lambda>r. []) (\<lambda>k. 1 / 2) (\<lambda>k. 0) threePoints None None [] 0)
   \<and> loopPass (\<lambda>r. []) (\<lambda>k. 1 / 2) (\<lambda>k. 0) threePoints None None 0
        (startEvolution (\<lambda>r. []) (\<lambda>k. 1 / 2) (\<lambda>k. 0) threePoints None None [] 0) \<noteq> Break
   \<and> (\<exists>s'. afterGenerations (\<lambda>r. []) (\<lambda>k. 1 / 2) (\<lambda>k. 0) threePoints None None 0 (Suc 0)
                 (startEvolution (\<lambda>r. []) (\<lambda>k. 1 / 2) (\<lambda>k. 0) threePoints None None [] 0) = Some s'
           \<and> num_le (globalBestScore s')
                (globalBestScore (startEvolution (\<lambda>r. []) (\<lambda>k. 1 / 2) (\<lambda>k. 0) threePoints None None [] 0)))"
proof -
  let ?s0 = "startEvolution (\<lambda>r. []) (\<lambda>k. 1 / 2) (\<lambda>k. 0) threePoints None None [] 0"
  have h1: "3 \<le> length threePoints" by (simp add: threePoints_def)
  have h2: "unit_draws (\<lambda>k. 1 / 2)" by (simp add: unit_draws_def)
  have h3: "afterGenerations (\<lambda>r. []) (\<lambda>k. 1 / 2) (\<lambda>k. 0) threePoints None None 0 0 ?s0 = Some ?s0"
    by simp
  have h4: "loopPass (\<lambda>r. []) (\<lambda>k. 1 / 2) (\<lambda>k. 0) threePoints None None 0 ?s0 \<noteq> Break"
    by (simp add: loopPass_def Let_def startEvolution_generation DEFAULT_GENERATIONS_def
        split: option.splits)
  show ?thesis
    using h1 h2 h3 h4 globalBestScore_monotone [OF h1 h2 h3 h4] by blast
qed

end
